(* ===== verification/CR_Prelude.thy ===== *)
theory CR_Prelude
  imports Main "HOL-Library.Word" "HOL-Library.Monad_Syntax" "HOL-Library.Sublist"
begin

text \<open>
  Shared vocabulary of the development: the constants and enumerations of
  \<^verbatim>\<open>include/cruntime.h\<close>, the order on log levels that \<^verbatim>\<open>cr_log\<close> compares with, the
  theorem collections of the development, and the generic lemmas on options, lists and
  words that several components use.

  Conventions of the whole development.
  \<^item> A C function without undefined behaviour is a total HOL function. A C function that can
    run into undefined behaviour (a read past an array, an indeterminate value, a signed
    overflow, a null dereference) returns an option, and \<open>None\<close> is exactly that case.
  \<^item> A C string is the list of its characters before the terminator; a raw character array
    is a \<open>cbuf\<close> (theory \<open>C_Strings\<close>), where each byte may be indeterminate.
  \<^item> The machine is x86-64 Linux with glibc, the platform the Makefile builds for: \<open>int\<close> has
    32 bits, \<open>long\<close>, \<open>size_t\<close> and pointers have 64.
\<close>

section \<open>Theorem collections\<close>

named_theorems frame_rules "one frame lemma for each operation of the runtime"
named_theorems eff_simps "what each operation adds to the sequence of effects"
named_theorems eval_simps "equations that evaluate the model on concrete inputs"

section \<open>Limits and error codes (cruntime.h)\<close>

definition CRUNTIME_VERSION :: string where "CRUNTIME_VERSION = ''1.0.0''"

definition MAX_CONTAINER_NAME :: nat where "MAX_CONTAINER_NAME = 256"
definition MAX_PATH_LEN :: nat where "MAX_PATH_LEN = 4096"
definition MAX_ENV_VARS :: nat where "MAX_ENV_VARS = 256"
definition MAX_MOUNTS :: nat where "MAX_MOUNTS = 64"
definition MAX_PORTS :: nat where "MAX_PORTS = 128"

definition CR_OK :: int where "CR_OK = 0"
definition CR_ERROR :: int where "CR_ERROR = -1"
definition CR_ENOMEM :: int where "CR_ENOMEM = -2"
definition CR_EINVAL :: int where "CR_EINVAL = -3"
definition CR_ENOTFOUND :: int where "CR_ENOTFOUND = -4"
definition CR_EEXIST :: int where "CR_EEXIST = -5"
definition CR_EPERM :: int where "CR_EPERM = -6"
definition CR_ESYSCALL :: int where "CR_ESYSCALL = -7"

lemmas rc_defs = CR_OK_def CR_ERROR_def CR_ENOMEM_def CR_EINVAL_def CR_ENOTFOUND_def
  CR_EEXIST_def CR_EPERM_def CR_ESYSCALL_def

lemma rc_distinct [simp]:
  "CR_OK \<noteq> CR_ERROR" "CR_ERROR \<noteq> CR_OK"
  "CR_OK \<noteq> CR_ESYSCALL" "CR_ESYSCALL \<noteq> CR_OK"
  "CR_OK \<noteq> CR_EINVAL" "CR_EINVAL \<noteq> CR_OK"
  "CR_ERROR \<noteq> CR_ESYSCALL" "CR_ESYSCALL \<noteq> CR_ERROR"
  "CR_ERROR \<noteq> CR_EINVAL" "CR_EINVAL \<noteq> CR_ERROR"
  "CR_ESYSCALL \<noteq> CR_EINVAL" "CR_EINVAL \<noteq> CR_ESYSCALL"
  by (simp_all add: rc_defs)

section \<open>Enumerations (cruntime.h)\<close>

datatype container_state_t =
    CONTAINER_CREATED
  | CONTAINER_RUNNING
  | CONTAINER_PAUSED
  | CONTAINER_STOPPED
  | CONTAINER_DELETED

datatype log_level_t = LOG_DEBUG | LOG_INFO | LOG_WARN | LOG_ERROR | LOG_FATAL

text \<open>
  The C enumerators are the integers from 0 in the order of the declaration, and
  \<^verbatim>\<open>cr_log\<close> compares levels as integers: the order of the type is that order.
\<close>

primrec level_index :: "log_level_t \<Rightarrow> nat" where
  "level_index LOG_DEBUG = 0"
| "level_index LOG_INFO = 1"
| "level_index LOG_WARN = 2"
| "level_index LOG_ERROR = 3"
| "level_index LOG_FATAL = 4"

lemma level_index_inject [simp]: "level_index a = level_index b \<longleftrightarrow> a = b"
  by (cases a; cases b) simp_all

instantiation log_level_t :: linorder
begin

definition less_eq_log_level_t :: "log_level_t \<Rightarrow> log_level_t \<Rightarrow> bool" where
  "less_eq_log_level_t a b \<longleftrightarrow> level_index a \<le> level_index b"

definition less_log_level_t :: "log_level_t \<Rightarrow> log_level_t \<Rightarrow> bool" where
  "less_log_level_t a b \<longleftrightarrow> level_index a < level_index b"

instance
  by standard (auto simp: less_eq_log_level_t_def less_log_level_t_def)

end

lemma LOG_FATAL_top [simp]: "level \<le> LOG_FATAL"
  by (cases level) (simp_all add: less_eq_log_level_t_def)

section \<open>Integer ranges\<close>

definition INT64_MIN :: int where "INT64_MIN = -9223372036854775808"
definition INT64_MAX :: int where "INT64_MAX = 9223372036854775807"

definition in_int64 :: "int \<Rightarrow> bool" where
  "in_int64 i \<longleftrightarrow> INT64_MIN \<le> i \<and> i \<le> INT64_MAX"

text \<open>The signed 64-bit value of an in-range integer: the result of a checked conversion.\<close>

declare INT64_MIN_def [eval_simps] INT64_MAX_def [eval_simps] in_int64_def [eval_simps]

lemma sint_word_of_int64: "in_int64 i \<Longrightarrow> sint (word_of_int i :: 64 word) = i"
proof -
  assume "in_int64 i"
  then have "- (2 ^ 63) \<le> i \<and> i < 2 ^ 63"
    by (simp add: in_int64_def INT64_MIN_def INT64_MAX_def)
  then show ?thesis
    by (simp add: sint_sbintrunc' signed_take_bit_int_eq_self)
qed

lemma sint64_in_int64 [simp]: "in_int64 (sint (w :: 64 word))"
proof -
  have "- (2 ^ 63) \<le> sint w" using sint_ge [of w] by simp
  moreover have "sint w < 2 ^ 63" using sint_lt [of w] by simp
  ultimately show ?thesis by (simp add: in_int64_def INT64_MIN_def INT64_MAX_def)
qed

section \<open>Generic lemmas\<close>

lemma takeWhile_neq_self: "c \<notin> set xs \<Longrightarrow> takeWhile (\<lambda>x. x \<noteq> c) xs = xs"
  by (metis (mono_tags, lifting) takeWhile_eq_all_conv)

lemma takeWhile_neq_append [simp]:
  "c \<notin> set xs \<Longrightarrow> takeWhile (\<lambda>x. x \<noteq> c) (xs @ c # ys) = xs"
  by (subst takeWhile_append2) auto

lemma dropWhile_neq_append [simp]:
  "c \<notin> set xs \<Longrightarrow> dropWhile (\<lambda>x. x \<noteq> c) (xs @ c # ys) = c # ys"
  by (subst dropWhile_append2) auto

end
