(* ===== verification/C_Strings.thy ===== *)
theory C_Strings
  imports CR_Prelude
begin

text \<open>
  C strings and character arrays. A \<open>cbuf\<close> is the contents of a character array: each byte
  is either indeterminate (\<open>None\<close>, never written) or a character. The operations of
  \<^verbatim>\<open>string.h\<close> and \<^verbatim>\<open>snprintf\<close> that the sources use return \<open>None\<close> when they would read
  an indeterminate byte or leave the array. The last section relates the buffers to plain
  strings: what a terminated buffer holds, and what each copying operation leaves in it.
\<close>

section \<open>Buffers\<close>

abbreviation NUL :: char where "NUL \<equiv> CHR 0x00"

type_synonym cbuf = "char option list"

definition uninit :: "nat \<Rightarrow> cbuf" where
  "uninit n = replicate n None"

definition zeroed :: "nat \<Rightarrow> cbuf" where
  "zeroed n = replicate n (Some NUL)"

definition of_lit :: "string \<Rightarrow> cbuf" where
  "of_lit s = map Some s @ [Some NUL]"

text \<open>The string at the start of a buffer: the bytes before the first terminator.\<close>

fun cbuf_str :: "cbuf \<Rightarrow> string option" where
  "cbuf_str [] = None"
| "cbuf_str (None # b) = None"
| "cbuf_str (Some c # b) = (if c = NUL then Some [] else map_option ((#) c) (cbuf_str b))"

text \<open>The string that starts at an offset: what a \<^verbatim>\<open>char *\<close> into the array denotes.\<close>

definition str_at :: "cbuf \<Rightarrow> nat \<Rightarrow> string option" where
  "str_at buf p = (if p \<le> length buf then cbuf_str (drop p buf) else None)"

definition poke :: "cbuf \<Rightarrow> nat \<Rightarrow> char \<Rightarrow> cbuf option" where
  "poke buf i c = (if i < length buf then Some (buf[i := Some c]) else None)"

definition peek :: "cbuf \<Rightarrow> nat \<Rightarrow> char option" where
  "peek buf i = (if i < length buf then buf ! i else None)"

text \<open>\<^verbatim>\<open>strcpy(buf, src)\<close> and \<^verbatim>\<open>strncpy(buf, src, n)\<close>: the second pads with zeros and does
  not terminate a source of \<open>n\<close> characters or more.\<close>

definition c_strcpy :: "cbuf \<Rightarrow> string \<Rightarrow> cbuf option" where
  "c_strcpy buf src =
     (if length src < length buf
      then Some (map Some src @ Some NUL # drop (Suc (length src)) buf) else None)"

definition c_strncpy :: "cbuf \<Rightarrow> string \<Rightarrow> nat \<Rightarrow> cbuf option" where
  "c_strncpy buf src n =
     (if n \<le> length buf
      then Some (map Some (take n src) @ replicate (n - length src) (Some NUL) @ drop n buf)
      else None)"

text \<open>\<^verbatim>\<open>strncat(buf, src, n)\<close> appends at most \<open>n\<close> characters and the terminator.\<close>

definition c_strncat :: "cbuf \<Rightarrow> string \<Rightarrow> nat \<Rightarrow> cbuf option" where
  "c_strncat buf src n = do {
     d \<leftarrow> cbuf_str buf;
     c_strcpy buf (d @ take n src) }"

text \<open>
  \<^verbatim>\<open>snprintf(buf + off, n, ...)\<close> for a formatted text: at most \<open>n - 1\<close> characters and the
  terminator, nothing at all when \<open>n\<close> is 0. The call returns the length of the whole text.
\<close>

definition c_snprintf :: "cbuf \<Rightarrow> nat \<Rightarrow> nat \<Rightarrow> string \<Rightarrow> cbuf option" where
  "c_snprintf buf off n str =
     (let t = (if n = 0 then [] else map Some (take (n - 1) str) @ [Some NUL])
      in if off + length t \<le> length buf
         then Some (take off buf @ t @ drop (off + length t) buf) else None)"

text \<open>\<^verbatim>\<open>strchr\<close> from an offset: the offset of the first match, or NULL (an inner \<open>None\<close>).\<close>

fun scan_chr :: "cbuf \<Rightarrow> char \<Rightarrow> nat option option" where
  "scan_chr [] c = None"
| "scan_chr (None # b) c = None"
| "scan_chr (Some x # b) c =
     (if x = c then Some (Some 0)
      else if x = NUL then Some None
      else map_option (map_option Suc) (scan_chr b c))"

definition c_strchr :: "cbuf \<Rightarrow> nat \<Rightarrow> char \<Rightarrow> nat option option" where
  "c_strchr buf p c =
     (if p \<le> length buf then map_option (map_option ((+) p)) (scan_chr (drop p buf) c) else None)"

section \<open>Strings\<close>

text \<open>
  The same operations where only the resulting string matters: a local array that is
  formatted and then read, or a field of a zeroed structure that is filled with
  \<^verbatim>\<open>strncpy(field, src, sizeof(field) - 1)\<close>. The lemmas at the end of the theory show that
  these are the contents of the buffers.
\<close>

definition snprintf :: "nat \<Rightarrow> string \<Rightarrow> string" where
  "snprintf n str = take (n - 1) str"

definition strncpy_field :: "nat \<Rightarrow> string \<Rightarrow> string" where
  "strncpy_field cap src = take (cap - 1) src"

definition is_cstr :: "string \<Rightarrow> bool" where
  "is_cstr s \<longleftrightarrow> NUL \<notin> set s"

text \<open>\<^verbatim>\<open>strchr\<close> on a string: the part before the character and the part after it.\<close>

fun strchr_split :: "char \<Rightarrow> string \<Rightarrow> (string \<times> string) option" where
  "strchr_split c [] = None"
| "strchr_split c (x # xs) =
     (if x = c then Some ([], xs)
      else map_option (\<lambda>(a, b). (x # a, b)) (strchr_split c xs))"

lemma strchr_split_Some:
  "strchr_split c s = Some (a, b) \<longleftrightarrow> s = a @ c # b \<and> c \<notin> set a"
proof (induction s arbitrary: a)
  case Nil
  then show ?case by simp
next
  case (Cons x xs)
  then show ?case by (cases a) (auto simp: split: if_splits)
qed

lemma strchr_split_None: "strchr_split c s = None \<longleftrightarrow> c \<notin> set s"
  by (induction s) auto

lemma strchr_split_append [simp]:
  "c \<notin> set a \<Longrightarrow> strchr_split c (a @ c # b) = Some (a, b)"
  by (simp add: strchr_split_Some)

section \<open>What a buffer holds\<close>

lemma is_cstr_simps [simp]:
  "is_cstr []" "is_cstr (c # s) \<longleftrightarrow> c \<noteq> NUL \<and> is_cstr s"
  "is_cstr (s @ t) \<longleftrightarrow> is_cstr s \<and> is_cstr t"
  by (auto simp: is_cstr_def)

lemma is_cstr_take [simp]: "is_cstr s \<Longrightarrow> is_cstr (take n s)"
  by (auto simp: is_cstr_def dest: in_set_takeD)

lemma is_cstr_drop [simp]: "is_cstr s \<Longrightarrow> is_cstr (drop n s)"
  by (auto simp: is_cstr_def dest: in_set_dropD)

lemma cbuf_str_terminated [simp]:
  "is_cstr s \<Longrightarrow> cbuf_str (map Some s @ Some NUL # r) = Some s"
  by (induction s) auto

lemma cbuf_str_Some:
  "cbuf_str b = Some s \<longleftrightarrow> is_cstr s \<and> (\<exists>r. b = map Some s @ Some NUL # r)"
proof
  show "cbuf_str b = Some s \<Longrightarrow> is_cstr s \<and> (\<exists>r. b = map Some s @ Some NUL # r)"
  proof (induction b arbitrary: s rule: cbuf_str.induct)
    case (3 c b)
    show ?case
    proof (cases "c = NUL")
      case True
      with "3.prems" show ?thesis by simp
    next
      case False
      with "3.prems" obtain t where t: "cbuf_str b = Some t" "s = c # t" by auto
      from "3.IH" [OF False t(1)] False t(2) show ?thesis by auto
    qed
  qed simp_all
next
  assume "is_cstr s \<and> (\<exists>r. b = map Some s @ Some NUL # r)"
  then show "cbuf_str b = Some s" by (elim conjE exE) simp
qed

lemma cbuf_str_length: "cbuf_str b = Some s \<Longrightarrow> length s < length b"
  by (auto simp: cbuf_str_Some)

lemma cbuf_str_unterminated:
  "is_cstr s \<Longrightarrow> cbuf_str (map Some s) = None"
  by (induction s) auto

lemma cbuf_str_of_lit [simp]: "is_cstr s \<Longrightarrow> cbuf_str (of_lit s) = Some s"
  by (simp add: of_lit_def)

lemma c_strcpy_str:
  assumes "is_cstr src" and "length src < length buf"
  shows "\<exists>b. c_strcpy buf src = Some b \<and> cbuf_str b = Some src \<and> length b = length buf"
  using assms by (auto simp: c_strcpy_def)

lemma c_strncpy_short:
  assumes "is_cstr src" and "length src < n" and "n \<le> length buf"
  shows "\<exists>b. c_strncpy buf src n = Some b \<and> cbuf_str b = Some src \<and> length b = length buf"
proof -
  have "replicate (n - length src) (Some NUL) = Some NUL # replicate (n - length src - 1) (Some NUL)"
    using assms(2) by (cases "n - length src") auto
  with assms show ?thesis by (simp add: c_strncpy_def)
qed

text \<open>Copied with \<^verbatim>\<open>sizeof(field) - 1\<close> into a zeroed field, a string is truncated and terminated.\<close>

lemma strncpy_field_buffer:
  assumes "is_cstr src" and "0 < cap"
  shows "\<exists>b. c_strncpy (zeroed cap) src (cap - 1) = Some b \<and> cbuf_str b = Some (strncpy_field cap src)"
proof -
  have "drop (cap - 1) (zeroed cap) = [Some NUL]"
    using assms(2) by (simp add: zeroed_def)
  moreover have "cbuf_str (map Some (take (cap - 1) src) @ replicate k (Some NUL) @ [Some NUL])
      = Some (take (cap - 1) src)" for k
    using assms(1) by (cases k) simp_all
  ultimately show ?thesis
    using assms by (simp add: c_strncpy_def strncpy_field_def zeroed_def)
qed

text \<open>Copied with the whole size of the array, a long string is left without a terminator.\<close>

lemma c_strncpy_unterminated:
  assumes "is_cstr src" and "n \<le> length src"
  shows "c_strncpy (uninit n) src n = Some (map Some (take n src))"
    and "cbuf_str (map Some (take n src)) = None"
  using assms by (simp_all add: c_strncpy_def uninit_def cbuf_str_unterminated)

lemma snprintf_buffer:
  assumes "is_cstr str" and "0 < n"
  shows "\<exists>b. c_snprintf (uninit n) 0 n str = Some b \<and> cbuf_str b = Some (snprintf n str)"
  using assms by (auto simp: c_snprintf_def snprintf_def uninit_def Let_def min_def)

lemma length_snprintf: "0 < n \<Longrightarrow> length (snprintf n str) < n"
  by (auto simp: snprintf_def min_def)

lemma snprintf_fits [simp]: "length str < n \<Longrightarrow> snprintf n str = str"
  by (simp add: snprintf_def)

lemma is_cstr_snprintf [simp]: "is_cstr str \<Longrightarrow> is_cstr (snprintf n str)"
  by (simp add: snprintf_def)

lemma length_strncpy_field: "0 < cap \<Longrightarrow> length (strncpy_field cap src) < cap"
  by (auto simp: strncpy_field_def min_def)

lemma is_cstr_strncpy_field [simp]: "is_cstr s \<Longrightarrow> is_cstr (strncpy_field cap s)"
  by (simp add: strncpy_field_def)

lemma scan_chr_found:
  "is_cstr a \<Longrightarrow> c \<notin> set a \<Longrightarrow> scan_chr (map Some a @ Some c # r) c = Some (Some (length a))"
  by (induction a) auto

lemma scan_chr_absent:
  "is_cstr a \<Longrightarrow> c \<notin> set a \<Longrightarrow> c \<noteq> NUL \<Longrightarrow> scan_chr (map Some a @ Some NUL # r) c = Some None"
  by (induction a) auto

section \<open>Appending formatted text\<close>

text \<open>\<^verbatim>\<open>offset += snprintf(stats_buffer + offset, buffer_size - offset, ...)\<close>: past the end of
  the buffer the size wraps around, and the store is out of bounds.\<close>

definition stats_append :: "cbuf \<Rightarrow> nat \<Rightarrow> nat \<Rightarrow> string \<Rightarrow> (cbuf \<times> nat) option" where
  "stats_append buf offset buffer_size str =
     (if buffer_size < offset then None
      else map_option (\<lambda>b. (b, offset + length str)) (c_snprintf buf offset (buffer_size - offset) str))"

text \<open>What the buffer holds once \<open>txt\<close> has been appended to it.\<close>

definition holds_text :: "cbuf \<Rightarrow> string \<Rightarrow> cbuf \<Rightarrow> bool" where
  "holds_text old txt b \<longleftrightarrow> length b = length old \<and> is_cstr txt \<and>
     (if txt = [] then b = old else \<exists>r. b = map Some txt @ Some NUL # r)"

lemma stats_append_fits:
  assumes "holds_text old txt b" and "is_cstr str" and "str \<noteq> []"
    and "length txt + length str < buffer_size" and "buffer_size \<le> length old"
  obtains b' where "stats_append b (length txt) buffer_size str = Some (b', length (txt @ str))"
    and "holds_text old (txt @ str) b'"
proof -
  let ?b = "take (length txt) b @ map Some str @ [Some NUL] @ drop (length txt + Suc (length str)) b"
  have "take (length txt) b = map Some txt"
    using assms(1) by (auto simp: holds_text_def split: if_splits)
  moreover have "length b = length old" using assms(1) by (simp add: holds_text_def)
  ultimately have "holds_text old (txt @ str) ?b"
    using assms by (auto simp: holds_text_def)
  moreover have "stats_append b (length txt) buffer_size str = Some (?b, length (txt @ str))"
    using assms by (simp add: stats_append_def c_snprintf_def Let_def \<open>length b = length old\<close>)
  ultimately show thesis using that by blast
qed

end
