(* ===== verification/C_Numbers.thy ===== *)
theory C_Numbers
  imports C_Strings
begin

text \<open>
  Decimal text: what \<^verbatim>\<open>%d\<close> and \<^verbatim>\<open>%ld\<close> print, and what \<^verbatim>\<open>atoi\<close> reads (glibc's: it is
  \<^verbatim>\<open>strtol\<close> in base 10, saturating at the range of \<^verbatim>\<open>long\<close>, cut down to 32 bits). The lemmas
  show that reading undoes printing, under the locale of text codecs that the dotted quads of
  theory \<open>Inet\<close> use as well.
\<close>

section \<open>Text codecs\<close>

text \<open>A printer and a parser that undo each other on a set of values.\<close>

locale text_codec =
  fixes enc :: "'a \<Rightarrow> string"
    and dec :: "string \<Rightarrow> 'a option"
    and dom_enc :: "'a \<Rightarrow> bool"
  assumes dec_enc: "dom_enc x \<Longrightarrow> dec (enc x) = Some x"
    and enc_cstr: "dom_enc x \<Longrightarrow> is_cstr (enc x)"
begin

lemma enc_inj: "dom_enc x \<Longrightarrow> dom_enc y \<Longrightarrow> enc x = enc y \<Longrightarrow> x = y"
  using dec_enc by (metis option.inject)

lemma enc_buffer:
  assumes "dom_enc x" and "length (enc x) < n"
  shows "\<exists>b s. c_snprintf (uninit n) 0 n (enc x) = Some b \<and> cbuf_str b = Some s \<and> dec s = Some x"
proof -
  from assms(2) have "0 < n" by simp
  from snprintf_buffer [OF enc_cstr [OF assms(1)] this]
  obtain b where "c_snprintf (uninit n) 0 n (enc x) = Some b"
    and "cbuf_str b = Some (snprintf n (enc x))" by blast
  with assms dec_enc show ?thesis by auto
qed

end

section \<open>Digits and decimal numbers\<close>

definition digit_char :: "nat \<Rightarrow> char" where
  "digit_char d = char_of (48 + d)"

definition is_digit :: "char \<Rightarrow> bool" where
  "is_digit c \<longleftrightarrow> 48 \<le> (of_char c :: nat) \<and> (of_char c :: nat) \<le> 57"

definition digit_val :: "char \<Rightarrow> nat" where
  "digit_val c = of_char c - 48"

definition is_space :: "char \<Rightarrow> bool" where
  "is_space c \<longleftrightarrow> c = CHR '' '' \<or> (9 \<le> (of_char c :: nat) \<and> (of_char c :: nat) \<le> 13)"

fun dec_nat :: "nat \<Rightarrow> string" where
  "dec_nat n = (if n < 10 then [digit_char n] else dec_nat (n div 10) @ [digit_char (n mod 10)])"

declare dec_nat.simps [simp del]

definition dec_int :: "int \<Rightarrow> string" where
  "dec_int i = (if i < 0 then CHR ''-'' # dec_nat (nat (- i)) else dec_nat (nat i))"

text \<open>The leading digits of a string, as a number with the rest of the string.\<close>

fun read_digits :: "nat \<Rightarrow> string \<Rightarrow> nat \<times> string" where
  "read_digits acc [] = (acc, [])"
| "read_digits acc (c # cs) =
     (if is_digit c then read_digits (10 * acc + digit_val c) cs else (acc, c # cs))"

definition strip_sign :: "string \<Rightarrow> bool \<times> string" where
  "strip_sign s = (case s of
     [] \<Rightarrow> (False, [])
   | c # cs \<Rightarrow> if c = CHR ''-'' then (True, cs) else if c = CHR ''+'' then (False, cs) else (False, s))"

definition strtol10 :: "string \<Rightarrow> int" where
  "strtol10 s =
     (let (neg, t) = strip_sign (dropWhile is_space s);
          v = int (fst (read_digits 0 t));
          w = (if neg then - v else v)
      in max INT64_MIN (min INT64_MAX w))"

definition atoi :: "string \<Rightarrow> 32 word" where
  "atoi s = word_of_int (strtol10 s)"

section \<open>Lemmas\<close>

lemma digit_char_eval [eval_simps]:
  "digit_char 0 = CHR ''0''" "digit_char 1 = CHR ''1''" "digit_char (Suc 0) = CHR ''1''"
  "digit_char 2 = CHR ''2''" "digit_char 3 = CHR ''3''" "digit_char 4 = CHR ''4''"
  "digit_char 5 = CHR ''5''" "digit_char 6 = CHR ''6''" "digit_char 7 = CHR ''7''"
  "digit_char 8 = CHR ''8''" "digit_char 9 = CHR ''9''"
  by (simp_all add: digit_char_def char_of_def bit_Suc_0_iff)

declare dec_nat.simps [eval_simps] dec_int_def [eval_simps] is_digit_def [eval_simps]
  digit_val_def [eval_simps] is_space_def [eval_simps] strip_sign_def [eval_simps]
  strtol10_def [eval_simps] atoi_def [eval_simps]

lemma is_digit_digit_char [simp]: "d < 10 \<Longrightarrow> is_digit (digit_char d)"
  by (simp add: is_digit_def digit_char_def)

lemma digit_val_digit_char [simp]: "d < 10 \<Longrightarrow> digit_val (digit_char d) = d"
  by (simp add: digit_val_def digit_char_def)

lemma is_digit_set: "is_digit c \<Longrightarrow> c \<in> set ''0123456789''"
proof -
  assume "is_digit c"
  define d where "d = (of_char c :: nat) - 48"
  have "d < 10" and c: "c = digit_char d"
    using \<open>is_digit c\<close> by (auto simp: d_def is_digit_def digit_char_def)
  then have "d \<in> {0, 1, 2, 3, 4, 5, 6, 7, 8, 9}" by auto
  then show ?thesis unfolding c by (elim insertE emptyE) (simp_all add: digit_char_eval)
qed

lemma dec_nat_digits: "c \<in> set (dec_nat n) \<Longrightarrow> is_digit c"
proof (induction n rule: dec_nat.induct)
  case (1 n)
  then show ?case by (subst (asm) (2) dec_nat.simps) (auto split: if_splits)
qed

lemma dec_nat_no: "\<not> is_digit c \<Longrightarrow> c \<notin> set (dec_nat n)"
  using dec_nat_digits by blast

lemma dec_nat_nonempty [simp]: "dec_nat n \<noteq> []"
  by (subst dec_nat.simps) simp

lemma not_is_digit_simps [simp]:
  "\<not> is_digit NUL" "\<not> is_digit CHR ''.''" "\<not> is_digit CHR ''/''" "\<not> is_digit CHR '':''"
  "\<not> is_digit CHR ''-''" "\<not> is_digit CHR ''+''" "\<not> is_digit CHR '' ''"
  by (simp_all add: is_digit_def)

lemma is_cstr_dec_nat [simp]: "is_cstr (dec_nat n)"
  by (simp add: is_cstr_def dec_nat_no)

lemma is_cstr_dec_int [simp]: "is_cstr (dec_int i)"
  by (simp add: dec_int_def)

lemma is_digit_not_space: "is_digit c \<Longrightarrow> \<not> is_space c"
  by (auto simp: is_digit_def is_space_def)

lemma read_digits_dec_nat:
  "read_digits acc (dec_nat n @ r) = read_digits (acc * 10 ^ length (dec_nat n) + n) r"
proof (induction n arbitrary: r rule: dec_nat.induct)
  case (1 n)
  show ?case
  proof (cases "n < 10")
    case True
    then show ?thesis by (simp add: dec_nat.simps [of n] mult.commute)
  next
    case False
    have "10 * (acc * 10 ^ length (dec_nat (n div 10)) + n div 10) + n mod 10
        = acc * (10 * 10 ^ length (dec_nat (n div 10))) + n"
      by (simp add: algebra_simps)
    with False "1.IH" show ?thesis
      by (simp add: dec_nat.simps [of n] algebra_simps)
  qed
qed

lemma read_digits_stop: "r = [] \<or> \<not> is_digit (hd r) \<Longrightarrow> read_digits acc r = (acc, r)"
  by (cases r) auto

lemma read_digits_dec_nat_stop:
  "r = [] \<or> \<not> is_digit (hd r) \<Longrightarrow> read_digits 0 (dec_nat n @ r) = (n, r)"
  by (simp add: read_digits_dec_nat read_digits_stop)

lemma hd_dec_nat: "is_digit (hd (dec_nat n))"
  by (rule dec_nat_digits [of _ n]) simp

lemma strip_sign_dec_nat: "strip_sign (dec_nat n @ r) = (False, dec_nat n @ r)"
proof -
  obtain c cs where "dec_nat n = c # cs" by (cases "dec_nat n") auto
  moreover have "is_digit c" using hd_dec_nat [of n] calculation by simp
  ultimately show ?thesis by (auto simp: strip_sign_def)
qed

lemma dropWhile_space_dec_nat: "dropWhile is_space (dec_nat n @ r) = dec_nat n @ r"
proof -
  obtain c cs where "dec_nat n = c # cs" by (cases "dec_nat n") auto
  moreover have "is_digit c" using hd_dec_nat [of n] calculation by simp
  ultimately show ?thesis by (simp add: is_digit_not_space)
qed

lemma strtol10_dec_nat:
  "r = [] \<or> \<not> is_digit (hd r) \<Longrightarrow> strtol10 (dec_nat n @ r) = max INT64_MIN (min INT64_MAX (int n))"
  by (simp add: strtol10_def dropWhile_space_dec_nat strip_sign_dec_nat read_digits_dec_nat_stop)

lemma strtol10_dec_int: "in_int64 i \<Longrightarrow> strtol10 (dec_int i) = i"
proof (cases "i < 0")
  case True
  assume "in_int64 i"
  moreover have "dropWhile is_space (dec_int i) = dec_int i"
    using True by (simp add: dec_int_def is_space_def)
  moreover have "strip_sign (dec_int i) = (True, dec_nat (nat (- i)))"
    using True by (simp add: dec_int_def strip_sign_def)
  moreover have "read_digits 0 (dec_nat (nat (- i))) = (nat (- i), [])"
    using read_digits_dec_nat_stop [of "[]"] by simp
  ultimately show ?thesis
    using True by (simp add: strtol10_def in_int64_def)
next
  case False
  assume "in_int64 i"
  with False strtol10_dec_nat [of "[]" "nat i"] show ?thesis
    by (simp add: dec_int_def in_int64_def INT64_MIN_def)
qed

text \<open>Printing an \<open>int64_t\<close> with \<^verbatim>\<open>%ld\<close> and reading it back.\<close>

interpretation dec64: text_codec "\<lambda>w :: 64 word. dec_int (sint w)"
  "\<lambda>s. Some (word_of_int (strtol10 s))" "\<lambda>_. True"
  by unfold_locales (simp_all add: strtol10_dec_int)

text \<open>Decimal lengths, for the claims that a formatted number fits its array.\<close>

lemma length_dec_nat_le: "n < 10 ^ k \<Longrightarrow> 0 < k \<Longrightarrow> length (dec_nat n) \<le> k"
proof (induction k arbitrary: n)
  case 0
  then show ?case by simp
next
  case (Suc k)
  show ?case
  proof (cases "n < 10")
    case True
    then show ?thesis by (simp add: dec_nat.simps [of n])
  next
    case False
    with Suc.prems have "0 < k" by (cases k) auto
    moreover have "n div 10 < 10 ^ k" using Suc.prems by (simp add: div_less_iff_less_mult)
    ultimately have "length (dec_nat (n div 10)) \<le> k" using Suc.IH by blast
    with False show ?thesis by (simp add: dec_nat.simps [of n])
  qed
qed

lemma length_dec_sint64: "length (dec_int (sint (w :: 64 word))) \<le> 20"
proof -
  have "in_int64 (sint w)" by simp
  then have "nat \<bar>sint w\<bar> < 10 ^ 19"
    by (auto simp: in_int64_def INT64_MIN_def INT64_MAX_def)
  then have "length (dec_nat (nat \<bar>sint w\<bar>)) \<le> 19" by (rule length_dec_nat_le) simp
  then show ?thesis by (auto simp: dec_int_def)
qed

end
