(* ===== verification/C_Doubles.thy ===== *)
theory C_Doubles
  imports C_Numbers
begin

text \<open>
  The \<open>double\<close> arithmetic the sources use, on exact values: IEEE 754 binary64 with rounding to
  nearest, ties to even. A finite value is \<open>Fin m e\<close>, standing for \<open>m * 2 ^ e\<close>; the sign of
  zero is not kept, since no code here can observe it. The theory models \<^verbatim>\<open>strtod\<close> (and
  \<^verbatim>\<open>atof\<close>) in the C locale, conversion from and to \<open>int64_t\<close> (the latter undefined out of
  range), multiplication, division by a power of two, and \<^verbatim>\<open>%.2f\<close>. The lemmas show when
  these operations are exact, by the rational value \<open>rval\<close> of a double.
\<close>

section \<open>Rounding\<close>

datatype double = Fin int int | Inf bool | NaN

fun bit_len :: "nat \<Rightarrow> nat" where
  "bit_len n = (if n = 0 then 0 else Suc (bit_len (n div 2)))"

declare bit_len.simps [simp del]

text \<open>The quotient \<open>n / d\<close> rounded to an integer, ties to even.\<close>

definition round_half_even :: "nat \<Rightarrow> nat \<Rightarrow> nat" where
  "round_half_even n d =
     (let q = n div d; r = n mod d
      in if 2 * r < d \<or> (2 * r = d \<and> even q) then q else q + 1)"

text \<open>The fraction \<open>n / (d * 2 ^ e)\<close>, as numerator and denominator.\<close>

definition scaled :: "nat \<Rightarrow> nat \<Rightarrow> int \<Rightarrow> nat \<times> nat" where
  "scaled n d e = (if 0 \<le> e then (n, d * 2 ^ nat e) else (n * 2 ^ nat (- e), d))"

text \<open>
  The double nearest to \<open>n / d\<close>: the exponent is chosen so that the significand has 53 bits
  (fewer below the normal range), and a result of \<open>2 ^ 1024\<close> or more is an infinity.
\<close>

definition round_double :: "bool \<Rightarrow> nat \<Rightarrow> nat \<Rightarrow> double" where
  "round_double neg n d =
     (if n = 0 then Fin 0 0 else
      let e0 = int (bit_len n) - int (bit_len d) - 53;
          (n0, d0) = scaled n d e0;
          e = max (if 2 ^ 53 * d0 \<le> n0 then e0 + 1 else e0) (- 1074);
          (n1, d1) = scaled n d e;
          m = round_half_even n1 d1
      in if 971 < e \<or> (e = 971 \<and> 2 ^ 53 \<le> m) then Inf neg
         else Fin (if neg then - int m else int m) e)"

definition double_of_int :: "int \<Rightarrow> double" where
  "double_of_int i = round_double (i < 0) (nat \<bar>i\<bar>) 1"

definition double_of_dyadic :: "int \<Rightarrow> int \<Rightarrow> double" where
  "double_of_dyadic m e =
     (if 0 \<le> e then round_double (m < 0) (nat \<bar>m\<bar> * 2 ^ nat e) 1
      else round_double (m < 0) (nat \<bar>m\<bar>) (2 ^ nat (- e)))"

fun dmul :: "double \<Rightarrow> double \<Rightarrow> double" where
  "dmul (Fin m e) (Fin m' e') = double_of_dyadic (m * m') (e + e')"
| "dmul (Fin m e) (Inf s) = (if m = 0 then NaN else Inf (s \<noteq> (m < 0)))"
| "dmul (Inf s) (Fin m e) = (if m = 0 then NaN else Inf (s \<noteq> (m < 0)))"
| "dmul (Inf s) (Inf s') = Inf (s \<noteq> s')"
| "dmul NaN _ = NaN"
| "dmul _ NaN = NaN"

text \<open>Division by \<open>2 ^ k\<close>, exact (up to the end of the normal range) on the significand.\<close>

fun ddiv2 :: "nat \<Rightarrow> double \<Rightarrow> double" where
  "ddiv2 k (Fin m e) = double_of_dyadic m (e - int k)"
| "ddiv2 k (Inf s) = Inf s"
| "ddiv2 k NaN = NaN"

fun dge_int :: "double \<Rightarrow> int \<Rightarrow> bool" where
  "dge_int (Fin m e) k = (if 0 \<le> e then k \<le> m * 2 ^ nat e else k * 2 ^ nat (- e) \<le> m)"
| "dge_int (Inf s) k = (\<not> s)"
| "dge_int NaN k = False"

text \<open>\<^verbatim>\<open>(int64_t)value\<close>: truncation towards zero, undefined when it does not fit.\<close>

fun int64_of_double :: "double \<Rightarrow> int option" where
  "int64_of_double (Fin m e) =
     (let t = (if 0 \<le> e then m * 2 ^ nat e else sgn m * (\<bar>m\<bar> div 2 ^ nat (- e)))
      in if in_int64 t then Some t else None)"
| "int64_of_double (Inf s) = None"
| "int64_of_double NaN = None"

text \<open>\<^verbatim>\<open>%.2f\<close>: hundredths rounded half to even on the exact value.\<close>

definition pad2 :: "nat \<Rightarrow> string" where
  "pad2 n = (if n < 10 then CHR ''0'' # dec_nat n else dec_nat n)"

fun fmt_f2 :: "double \<Rightarrow> string" where
  "fmt_f2 (Fin m e) =
     (let a = nat \<bar>m\<bar>;
          q = (if 0 \<le> e then a * 2 ^ nat e * 100 else round_half_even (a * 100) (2 ^ nat (- e)))
      in (if m < 0 then ''-'' else '''') @ dec_nat (q div 100) @ ''.'' @ pad2 (q mod 100))"
| "fmt_f2 (Inf s) = (if s then ''-inf'' else ''inf'')"
| "fmt_f2 NaN = ''nan''"

section \<open>strtod\<close>

definition lower :: "char \<Rightarrow> char" where
  "lower c =
     (case map_of (zip ''ABCDEFGHIJKLMNOPQRSTUVWXYZ'' ''abcdefghijklmnopqrstuvwxyz'') c of
        None \<Rightarrow> c | Some d \<Rightarrow> d)"

definition prefix_ci :: "string \<Rightarrow> string \<Rightarrow> bool" where
  "prefix_ci p s \<longleftrightarrow> map lower (take (length p) s) = p"

definition is_hex :: "char \<Rightarrow> bool" where
  "is_hex c \<longleftrightarrow> is_digit c \<or> (97 \<le> (of_char (lower c) :: nat) \<and> (of_char (lower c) :: nat) \<le> 102)"

definition hex_val :: "char \<Rightarrow> nat" where
  "hex_val c = (if is_digit c then digit_val c else of_char (lower c) - 87)"

fun read_hex :: "nat \<Rightarrow> string \<Rightarrow> nat \<times> string" where
  "read_hex acc [] = (acc, [])"
| "read_hex acc (c # cs) = (if is_hex c then read_hex (16 * acc + hex_val c) cs else (acc, c # cs))"

text \<open>Digits, and the digits of a fraction behind a point: the number of fraction digits is
  the second component, and a lone point is not consumed without digits around it.\<close>

definition read_mantissa :: "(nat \<Rightarrow> string \<Rightarrow> nat \<times> string) \<Rightarrow> string \<Rightarrow> (nat \<times> nat \<times> string) option" where
  "read_mantissa rd s =
     (let (ip, r) = rd 0 s; ipn = length s - length r
      in case r of
           [] \<Rightarrow> if ipn = 0 then None else Some (ip, 0, r)
         | c # r' \<Rightarrow>
             if c = CHR ''.'' then
               (let (fp, r'') = rd ip r'; fpn = length r' - length r''
                in if ipn + fpn = 0 then None else Some (fp, fpn, r''))
             else if ipn = 0 then None else Some (ip, 0, r))"

text \<open>An exponent (\<^verbatim>\<open>e\<close> or \<^verbatim>\<open>p\<close>, an optional sign, digits); without digits none is consumed.\<close>

definition read_exponent :: "char \<Rightarrow> string \<Rightarrow> int \<times> string" where
  "read_exponent mark s =
     (case s of
        [] \<Rightarrow> (0, s)
      | c # cs \<Rightarrow>
          if lower c = mark then
            (let (neg, t) = strip_sign cs; (x, r) = read_digits 0 t
             in if length r = length t then (0, s) else (if neg then - int x else int x, r))
          else (0, s))"

definition skip_nan_tag :: "string \<Rightarrow> string" where
  "skip_nan_tag s =
     (case s of
        [] \<Rightarrow> s
      | c # cs \<Rightarrow>
          if c = CHR ''('' then
            (case dropWhile (\<lambda>x. is_digit x \<or> x = CHR ''_'' \<or>
                     (97 \<le> (of_char (lower x) :: nat) \<and> (of_char (lower x) :: nat) \<le> 122)) cs of
               [] \<Rightarrow> s
             | d # r \<Rightarrow> if d = CHR '')'' then r else s)
          else s)"

text \<open>\<^verbatim>\<open>strtod(s, &endptr)\<close>: the value and the rest of the string at \<open>endptr\<close>.\<close>

definition strtod :: "string \<Rightarrow> double \<times> string" where
  "strtod s =
     (let (neg, u) = strip_sign (dropWhile is_space s) in
      if prefix_ci ''infinity'' u then (Inf neg, drop 8 u)
      else if prefix_ci ''inf'' u then (Inf neg, drop 3 u)
      else if prefix_ci ''nan'' u then (NaN, skip_nan_tag (drop 3 u))
      else case (if prefix_ci ''0x'' u then read_mantissa read_hex (drop 2 u) else None) of
        Some (m, fn, r) \<Rightarrow>
          (let (x, r') = read_exponent CHR ''p'' r
           in (double_of_dyadic (if neg then - int m else int m) (x - 4 * int fn), r'))
      | None \<Rightarrow>
          (case read_mantissa read_digits u of
             None \<Rightarrow> (Fin 0 0, s)
           | Some (m, fn, r) \<Rightarrow>
               (let (x, r') = read_exponent CHR ''e'' r; y = x - int fn
                in (if 0 \<le> y then round_double neg (m * 10 ^ nat y) 1
                    else round_double neg m (10 ^ nat (- y)), r'))))"

definition atof :: "string \<Rightarrow> double" where
  "atof s = fst (strtod s)"

lemma lower_digit [simp]:
  assumes "is_digit c" shows "lower c = c"
proof -
  note is_digit_set [OF assms, unfolded list.set]
  then show ?thesis by (elim insertE emptyE) (simp_all add: lower_def)
qed

lemma lower_eq_ex: "lower c = CHR ''e'' \<longleftrightarrow> c = CHR ''e'' \<or> c = CHR ''E''"
  and lower_eq_x: "lower c = CHR ''x'' \<longleftrightarrow> c = CHR ''x'' \<or> c = CHR ''X''"
  by (auto simp: lower_def)

declare bit_len.simps [eval_simps] round_half_even_def [eval_simps] scaled_def [eval_simps]
  round_double_def [eval_simps] double_of_int_def [eval_simps] double_of_dyadic_def [eval_simps]
  pad2_def [eval_simps] lower_def [eval_simps] prefix_ci_def [eval_simps] is_hex_def [eval_simps]
  hex_val_def [eval_simps] read_mantissa_def [eval_simps] read_exponent_def [eval_simps]
  skip_nan_tag_def [eval_simps] strtod_def [eval_simps] atof_def [eval_simps]

section \<open>Exactness\<close>

lemma bit_len_bounds: "0 < n \<Longrightarrow> 2 ^ (bit_len n - 1) \<le> n \<and> n < 2 ^ bit_len n \<and> 0 < bit_len n"
proof (induction n rule: bit_len.induct)
  case (1 n)
  show ?case
  proof (cases "n div 2 = 0")
    case True
    with "1.prems" have "n = 1" by simp
    then show ?thesis by (simp add: bit_len.simps)
  next
    case False
    with "1.IH" "1.prems" have IH: "2 ^ (bit_len (n div 2) - 1) \<le> n div 2"
      "n div 2 < 2 ^ bit_len (n div 2)" "0 < bit_len (n div 2)" by auto
    have step: "bit_len n = Suc (bit_len (n div 2))"
      using "1.prems" by (simp add: bit_len.simps [of n])
    from IH(3) have "2 ^ bit_len (n div 2) = 2 * (2 ^ (bit_len (n div 2) - 1) :: nat)"
      by (cases "bit_len (n div 2)") simp_all
    moreover have "2 * (n div 2) \<le> n" and "n < 2 * (n div 2) + 2" by simp_all
    ultimately have "2 ^ bit_len (n div 2) \<le> n" and "n < 2 * 2 ^ bit_len (n div 2)"
      using IH(1,2) by linarith+
    with step show ?thesis by simp
  qed
qed

lemma bit_len_double: "0 < n \<Longrightarrow> bit_len (2 * n) = Suc (bit_len n)"
  by (simp add: bit_len.simps [of "2 * n"])

lemma bit_len_shift: "0 < n \<Longrightarrow> bit_len (n * 2 ^ a) = bit_len n + a"
proof (induction a)
  case (Suc a)
  have "n * 2 ^ Suc a = 2 * (n * 2 ^ a)" by simp
  then have "bit_len (n * 2 ^ Suc a) = bit_len (2 * (n * 2 ^ a))" by (rule arg_cong)
  also have "\<dots> = Suc (bit_len (n * 2 ^ a))" using Suc.prems by (intro bit_len_double) simp
  finally show ?case using Suc by simp
qed simp

lemma bit_len_pow: "bit_len (2 ^ b) = Suc b"
  using bit_len_shift [of 1 b] by (simp add: bit_len.simps)

lemma bit_len_le: "n < 2 ^ k \<Longrightarrow> bit_len n \<le> k"
proof (cases "n = 0")
  case True
  then show ?thesis by (simp add: bit_len.simps)
next
  case False
  assume "n < 2 ^ k"
  with False bit_len_bounds [of n] have "(2 :: nat) ^ (bit_len n - 1) < 2 ^ k"
    by (meson le_less_trans neq0_conv)
  then have "bit_len n - 1 < k" by simp
  then show ?thesis by simp
qed

lemma round_half_even_exact [simp]: "0 < d \<Longrightarrow> round_half_even (q * d) d = q"
  by (simp add: round_half_even_def Let_def)

lemma scaled_dyadic:
  assumes "int k + e = int a - int b" and "scaled (m * 2 ^ a) (2 ^ b) e = (n1, d1)"
  shows "n1 = m * 2 ^ k * d1 \<and> 0 < d1"
proof (cases "0 \<le> e")
  case True
  with assms(1) have "a = k + b + nat e" by simp
  with True assms(2) show ?thesis by (auto simp: scaled_def power_add)
next
  case False
  with assms(1) have "a + nat (- e) = k + b" by simp
  then have "(2 :: nat) ^ a * 2 ^ nat (- e) = 2 ^ k * 2 ^ b"
    by (metis power_add)
  with False assms(2) show ?thesis by (auto simp: scaled_def)
qed

text \<open>A dyadic fraction with at most 53 significant bits is not changed by rounding.\<close>

lemma round_double_exact:
  assumes "0 < m" and "m < 2 ^ 53" and "b \<le> 1000" and "a \<le> 900"
  shows "round_double neg (m * 2 ^ a) (2 ^ b) =
    Fin ((if neg then - 1 else 1) * (int m * 2 ^ (53 - bit_len m)))
      (int (bit_len m) + int a - int b - 53)"
proof -
  let ?l = "bit_len m"
  have l: "2 ^ (?l - 1) \<le> m" "m < 2 ^ ?l" "0 < ?l" using bit_len_bounds [OF assms(1)] by auto
  have l53: "?l \<le> 53" using bit_len_le [OF assms(2)] .
  define e0 where "e0 = int ?l + int a - int b - 54"
  have e0_eq: "int (bit_len (m * 2 ^ a)) - int (bit_len (2 ^ b)) - 53 = e0"
    using assms(1) by (simp add: bit_len_shift bit_len_pow e0_def)
  obtain n0 d0 where s0: "scaled (m * 2 ^ a) (2 ^ b) e0 = (n0, d0)" by force
  have n0: "n0 = m * 2 ^ (54 - ?l) * d0" "0 < d0"
    using scaled_dyadic [OF _ s0, of "54 - ?l"] l53 by (auto simp: e0_def)
  have "(2 :: nat) ^ 53 = 2 ^ (?l - 1) * 2 ^ (54 - ?l)"
    using l(3) l53 by (simp flip: power_add)
  also have "\<dots> \<le> m * 2 ^ (54 - ?l)" using l(1) by simp
  finally have "2 ^ 53 * d0 \<le> n0" unfolding n0(1) by (rule mult_le_mono1)
  moreover have "- 1074 \<le> e0 + 1" using assms(3) by (simp add: e0_def)
  ultimately have e: "max (if 2 ^ 53 * d0 \<le> n0 then e0 + 1 else e0) (- 1074) = e0 + 1" by simp
  obtain n1 d1 where s1: "scaled (m * 2 ^ a) (2 ^ b) (e0 + 1) = (n1, d1)" by force
  have n1: "n1 = m * 2 ^ (53 - ?l) * d1" "0 < d1"
    using scaled_dyadic [OF _ s1, of "53 - ?l"] l53 by (auto simp: e0_def)
  then have r: "round_half_even n1 d1 = m * 2 ^ (53 - ?l)" by simp
  have small: "\<not> (971 < e0 + 1 \<or> e0 + 1 = 971 \<and> 2 ^ 53 \<le> m * 2 ^ (53 - ?l))"
    using assms(4) l53 by (auto simp: e0_def)
  have "int (m * 2 ^ (53 - ?l)) = int m * 2 ^ (53 - ?l)" by simp
  then show ?thesis
    unfolding round_double_def Let_def e0_eq s0 prod.case e s1 r if_not_P [OF small]
    using assms(1) by (simp add: e0_def)
qed

lemma round_double_nat_exact:
  assumes "0 < n" and "n < 2 ^ 53"
  shows "round_double neg n 1 = Fin ((if neg then - 1 else 1) * (int n * 2 ^ (53 - bit_len n)))
    (int (bit_len n) - 53)"
  using round_double_exact [OF assms, of 0 0 neg] by simp

lemma double_of_pow2: "j \<le> 62 \<Longrightarrow> double_of_int (2 ^ j) = Fin (2 ^ 52) (int j - 52)"
  using round_double_exact [of 1 0 j False]
  by (simp add: double_of_int_def nat_power_eq bit_len.simps)

lemma double_of_dyadic_nat: "double_of_dyadic (int p) (- int k) = round_double False p (2 ^ k)"
  by (cases "k = 0") (simp_all add: double_of_dyadic_def)

text \<open>The conversion back to an integer of a value \<open>n * 2 ^ (53 - l) * 2 ^ (l + j - 53)\<close>.\<close>

lemma int64_of_scaled:
  assumes "0 < n" and "l \<le> 53"
  shows "int64_of_double (Fin (int n * 2 ^ (53 - l)) (int l + int j - 53)) =
    (if in_int64 (int n * 2 ^ j) then Some (int n * 2 ^ j) else None)"
proof (cases "0 \<le> int l + int j - 53")
  case True
  then have "53 - l + nat (int l + int j - 53) = j" using assms(2) by simp
  then have "int n * 2 ^ (53 - l) * 2 ^ nat (int l + int j - 53) = int n * 2 ^ j"
    by (simp add: mult.assoc flip: power_add)
  with True show ?thesis by (simp only: int64_of_double.simps Let_def if_True)
next
  case neg: False
  then have "53 - l = j + nat (- (int l + int j - 53))" using assms(2) by simp
  then have E: "int n * 2 ^ (53 - l) = int n * 2 ^ j * 2 ^ nat (- (int l + int j - 53))"
    by (simp add: mult.assoc flip: power_add)
  have "\<bar>int n * 2 ^ (53 - l)\<bar> = int n * 2 ^ j * 2 ^ nat (- (int l + int j - 53))"
    unfolding E by (rule abs_of_nonneg) simp
  then have "\<bar>int n * 2 ^ (53 - l)\<bar> div 2 ^ nat (- (int l + int j - 53)) = int n * 2 ^ j"
    by (metis nonzero_mult_div_cancel_right power_not_zero zero_neq_numeral)
  moreover have "sgn (int n * 2 ^ (53 - l)) = 1" using assms(1) by simp
  ultimately show ?thesis using neg by (simp only: int64_of_double.simps Let_def if_False mult_1)
qed

text \<open>An integer below \<open>2 ^ 53\<close> times a power of two is computed exactly and converts back.\<close>

lemma exact_scaling:
  assumes "n < 2 ^ 53" and "j \<le> 40"
  shows "int64_of_double (dmul (round_double False n 1) (double_of_int (2 ^ j))) =
    (if in_int64 (int n * 2 ^ j) then Some (int n * 2 ^ j) else None)"
proof (cases "n = 0")
  case True
  then show ?thesis using assms(2)
    by (simp add: round_double_def double_of_pow2 double_of_dyadic_def in_int64_def
        INT64_MIN_def INT64_MAX_def Let_def)
next
  case False
  let ?l = "bit_len n"
  let ?a = "105 - ?l"
  have l: "?l \<le> 53" "0 < ?l" using bit_len_le [OF assms(1)] bit_len_bounds [of n] False by auto
  have p: "int n * 2 ^ (53 - ?l) * 2 ^ 52 = int (n * 2 ^ ?a)"
  proof -
    have "53 - ?l + 52 = ?a" using l by simp
    then have "(2 :: int) ^ (53 - ?l) * 2 ^ 52 = 2 ^ ?a" by (metis power_add)
    then show ?thesis by (simp only: of_nat_mult of_nat_power of_nat_numeral mult.assoc)
  qed
  have q: "int ?l - 53 + (int j - 52) = - int (?a - j)" using l assms(2) by simp
  have rn: "round_double False n 1 = Fin (int n * 2 ^ (53 - ?l)) (int ?l - 53)"
    using round_double_nat_exact [of n False] False assms(1) by simp
  have rj: "double_of_int (2 ^ j) = Fin (2 ^ 52) (int j - 52)"
    using assms(2) by (intro double_of_pow2) simp
  have "dmul (round_double False n 1) (double_of_int (2 ^ j))
      = double_of_dyadic (int (n * 2 ^ ?a)) (- int (?a - j))"
    unfolding rn rj dmul.simps p q ..
  also have "\<dots> = round_double False (n * 2 ^ ?a) (2 ^ (?a - j))"
    by (rule double_of_dyadic_nat)
  also have "\<dots> = Fin (int n * 2 ^ (53 - ?l)) (int ?l + int j - 53)"
    using round_double_exact [of n "?a - j" ?a False] False assms l by simp
  finally have v: "dmul (round_double False n 1) (double_of_int (2 ^ j))
      = Fin (int n * 2 ^ (53 - ?l)) (int ?l + int j - 53)" .
  show ?thesis unfolding v using False l(1) by (intro int64_of_scaled) simp_all
qed

end
