(* ===== verification/Kernel_Iface.thy ===== *)
theory Kernel_Iface
  imports C_Doubles
begin

unbundle bit_operations_syntax

text \<open>
  The interface between the runtime and the system it runs on. Everything outside the sources
  is a parameter: a \<open>'k kernel\<close> answers each request (a system call, or a stdio, clock or
  process call of the C library that reaches the system) from its own state \<open>'k\<close>, with no
  restriction on the answers. The state \<open>'k st\<close> of the runtime process holds the kernel's
  state, the trace of all requests with their answers, and the globals of the C code: the log
  level, \<open>errno\<close>, the output written so far, the pseudo-random generator.

  The effects of a run are its requests without the observations that logging makes (the clock,
  the terminal test). \<open>frame s t\<close> says what no operation but \<^verbatim>\<open>cr_set_log_level\<close> may
  change: the log level, the standard output, the list of calls into \<^verbatim>\<open>core/runtime.c\<close>; and
  that trace and error output only grow.
\<close>

section \<open>Requests and answers\<close>

datatype sysreq =
    Sys_open string "32 word" nat
  | Sys_close int
  | Sys_read int nat
  | Sys_write int string
  | Sys_mkdir string nat
  | Sys_rmdir string
  | Sys_unlink string
  | Sys_stat string
  | Sys_access string
  | Sys_mount "string option" string "string option" "64 word" "string option"
  | Sys_umount2 string int
  | Sys_pivot_root string string
  | Sys_chdir string
  | Sys_sethostname string
  | Sys_setns int int
  | Sys_usleep nat
  | Sys_system string
  | Sys_waitpid "32 word"
  | Sys_getpid
  | Sys_getuid
  | Sys_getgid
  | Sys_geteuid
  | Sys_time
  | Sys_gettimeofday
  | Sys_isatty int
  | Sys_malloc nat
  | Sys_fopen string string
  | Sys_fclose int
  | Sys_fseek_end int
  | Sys_fseek_set int
  | Sys_ftell int
  | Sys_fread int nat
  | Sys_fputs int string
  | Sys_popen string
  | Sys_fscanf_zu int
  | Sys_pclose int
  | Sys_opendir string
  | Sys_readdir int
  | Sys_closedir int

text \<open>
  An answer: the value the call returns (a negative one is a failure, which for calls that
  return a pointer stands for NULL), the error number it sets, the bytes it delivers, and for
  the clock the seconds and microseconds (the first of them is also the number that \<^verbatim>\<open>fscanf\<close>
  has read).
\<close>

record sysres =
  ret :: int
  err :: int
  dat :: string
  tv :: "int \<times> int"

text \<open>The broken-down local time, as far as \<^verbatim>\<open>strftime\<close> reads it here.\<close>

record tm =
  tm_year :: "32 word"
  tm_mon :: nat
  tm_mday :: nat
  tm_hour :: nat
  tm_min :: nat
  tm_sec :: nat

text \<open>
  The system: its answers, the text of an error number, the time zone, and the sequence that
  the C library's \<^verbatim>\<open>rand\<close> produces from a seed.
\<close>

record 'k kernel =
  kcall :: "sysreq \<Rightarrow> 'k \<Rightarrow> sysres \<times> 'k"
  kstrerror :: "int \<Rightarrow> string"
  klocaltime :: "int \<Rightarrow> tm"
  krand :: "32 word \<Rightarrow> nat \<Rightarrow> nat"

section \<open>Constants of the Linux ABI\<close>

definition EEXIST :: int where "EEXIST = 17"
definition ENOENT :: int where "ENOENT = 2"
definition EINVAL :: int where "EINVAL = 22"

definition O_RDONLY :: "32 word" where "O_RDONLY = 0"
definition O_WRONLY :: "32 word" where "O_WRONLY = 1"
definition O_CREAT :: "32 word" where "O_CREAT = 64"
definition O_EXCL :: "32 word" where "O_EXCL = 128"
definition O_TRUNC :: "32 word" where "O_TRUNC = 512"

definition MS_RDONLY :: "64 word" where "MS_RDONLY = 1"
definition MS_NOSUID :: "64 word" where "MS_NOSUID = 2"
definition MS_NODEV :: "64 word" where "MS_NODEV = 4"
definition MS_NOEXEC :: "64 word" where "MS_NOEXEC = 8"
definition MS_REMOUNT :: "64 word" where "MS_REMOUNT = 32"
definition MS_BIND :: "64 word" where "MS_BIND = 4096"
definition MS_REC :: "64 word" where "MS_REC = 16384"
definition MS_PRIVATE :: "64 word" where "MS_PRIVATE = 262144"
definition MS_STRICTATIME :: "64 word" where "MS_STRICTATIME = 16777216"

definition MNT_DETACH :: int where "MNT_DETACH = 2"

section \<open>The state of the process\<close>

text \<open>
  Calls into \<^verbatim>\<open>core/runtime.c\<close>, which is not part of the repository, are recorded with their
  result codes.
\<close>

datatype api_event =
    Api_runtime_init int
  | Api_runtime_cleanup
  | Api_container_create int
  | Api_container_start int
  | Api_container_delete int

record 'k st =
  kst :: 'k
  trace :: "(sysreq \<times> sysres) list"
  log_level :: log_level_t
  errno :: int
  std_out :: string
  err_out :: string
  exit_code :: "int option"
  rng :: "32 word \<times> nat"
  api :: "api_event list"

definition sys :: "'k kernel \<Rightarrow> sysreq \<Rightarrow> 'k st \<Rightarrow> sysres \<times> 'k st" where
  "sys K q s =
     (let (r, k) = kcall K q (kst s)
      in (r, s\<lparr>kst := k, trace := trace s @ [(q, r)],
               errno := (if ret r < 0 \<or> err r \<noteq> 0 then err r else errno s)\<rparr>))"

text \<open>The message of the current error number, \<^verbatim>\<open>strerror(errno)\<close>.\<close>

definition strerror_errno :: "'k kernel \<Rightarrow> 'k st \<Rightarrow> string" where
  "strerror_errno K s = kstrerror K (errno s)"

definition srand :: "32 word \<Rightarrow> 'k st \<Rightarrow> 'k st" where
  "srand seed s = s\<lparr>rng := (seed, 0)\<rparr>"

text \<open>\<^verbatim>\<open>rand()\<close> is at most \<^verbatim>\<open>RAND_MAX\<close>, that is \<open>2 ^ 31 - 1\<close>.\<close>

definition rand :: "'k kernel \<Rightarrow> 'k st \<Rightarrow> nat \<times> 'k st" where
  "rand K s = (let (seed, i) = rng s in (krand K seed i mod 2 ^ 31, s\<lparr>rng := (seed, Suc i)\<rparr>))"

text \<open>\<^verbatim>\<open>srand(time(NULL) ^ getpid())\<close>.\<close>

definition seed_from_clock :: "'k kernel \<Rightarrow> 'k st \<Rightarrow> 'k st" where
  "seed_from_clock K s =
     (let (t, s) = sys K Sys_time s;
          (p, s) = sys K Sys_getpid s
      in srand (word_of_int (ret t) XOR word_of_int (ret p)) s)"

section \<open>Effects\<close>

primrec is_obs :: "sysreq \<Rightarrow> bool" where
  "is_obs (Sys_open p f m) = False"
| "is_obs (Sys_close fd) = False"
| "is_obs (Sys_read fd n) = False"
| "is_obs (Sys_write fd d) = False"
| "is_obs (Sys_mkdir p m) = False"
| "is_obs (Sys_rmdir p) = False"
| "is_obs (Sys_unlink p) = False"
| "is_obs (Sys_stat p) = False"
| "is_obs (Sys_access p) = False"
| "is_obs (Sys_mount src t ty fl d) = False"
| "is_obs (Sys_umount2 t fl) = False"
| "is_obs (Sys_pivot_root a b) = False"
| "is_obs (Sys_chdir p) = False"
| "is_obs (Sys_sethostname h) = False"
| "is_obs (Sys_setns fd t) = False"
| "is_obs (Sys_usleep n) = False"
| "is_obs (Sys_system c) = False"
| "is_obs (Sys_waitpid p) = False"
| "is_obs Sys_getpid = True"
| "is_obs Sys_getuid = True"
| "is_obs Sys_getgid = True"
| "is_obs Sys_geteuid = True"
| "is_obs Sys_time = True"
| "is_obs Sys_gettimeofday = True"
| "is_obs (Sys_isatty fd) = True"
| "is_obs (Sys_malloc n) = False"
| "is_obs (Sys_fopen p m) = False"
| "is_obs (Sys_fclose f) = False"
| "is_obs (Sys_fseek_end f) = False"
| "is_obs (Sys_fseek_set f) = False"
| "is_obs (Sys_ftell f) = False"
| "is_obs (Sys_fread f n) = False"
| "is_obs (Sys_fputs f d) = False"
| "is_obs (Sys_popen c) = False"
| "is_obs (Sys_fscanf_zu f) = False"
| "is_obs (Sys_pclose f) = False"
| "is_obs (Sys_opendir p) = False"
| "is_obs (Sys_readdir d) = False"
| "is_obs (Sys_closedir d) = False"

definition effects :: "'k st \<Rightarrow> (sysreq \<times> sysres) list" where
  "effects s = filter (\<lambda>(q, r). \<not> is_obs q) (trace s)"

text \<open>The shell commands among the effects, with the result of \<^verbatim>\<open>system\<close>.\<close>

fun cmd_of :: "sysreq \<times> sysres \<Rightarrow> (string \<times> int) option" where
  "cmd_of (Sys_system c, r) = Some (c, ret r)"
| "cmd_of _ = None"

definition cmds :: "'k st \<Rightarrow> (string \<times> int) list" where
  "cmds s = List.map_filter cmd_of (effects s)"

text \<open>The mounts among the effects: source, target, type, flags, data and result.\<close>

fun mount_of :: "sysreq \<times> sysres \<Rightarrow>
    ((string option \<times> string \<times> string option \<times> 64 word \<times> string option) \<times> int) option" where
  "mount_of (Sys_mount src t ty fl d, r) = Some ((src, t, ty, fl, d), ret r)"
| "mount_of _ = None"

definition mounts_done :: "'k st \<Rightarrow>
    ((string option \<times> string \<times> string option \<times> 64 word \<times> string option) \<times> int) list" where
  "mounts_done s = List.map_filter mount_of (effects s)"

section \<open>The frame of an operation\<close>

definition frame :: "'k st \<Rightarrow> 'k st \<Rightarrow> bool" where
  "frame s t \<longleftrightarrow>
     log_level t = log_level s \<and> exit_code t = exit_code s \<and> std_out t = std_out s \<and>
     api t = api s \<and> prefix (trace s) (trace t) \<and> prefix (err_out s) (err_out t)"

lemma frame_refl [simp]: "frame s s"
  by (simp add: frame_def)

lemma frame_trans [trans]: "frame s t \<Longrightarrow> frame t u \<Longrightarrow> frame s u"
  by (auto simp: frame_def)

lemma frame_sys: "frame s (snd (sys K q s))"
  by (simp add: frame_def sys_def split: prod.split)

lemma frame_sysE: "sys K q s = (r, t) \<Longrightarrow> frame s t"
  using frame_sys [of s K q] by simp

lemma frame_rand: "rand K s = (n, t) \<Longrightarrow> frame s t"
  by (auto simp: rand_def frame_def split: prod.splits)

lemma frame_seed: "frame s (seed_from_clock K s)"
proof -
  obtain r1 s1 where 1: "sys K Sys_time s = (r1, s1)" by force
  obtain r2 s2 where 2: "sys K Sys_getpid s1 = (r2, s2)" by force
  have "frame s s2" using 1 2 frame_sysE frame_trans by metis
  then show ?thesis by (simp add: seed_from_clock_def 1 2 srand_def frame_def)
qed

text \<open>The frame rules are used as rewrite rules: an operation that ends in the state \<open>t\<close> of its
  predecessor keeps every frame up to \<open>t\<close>.\<close>

lemma frame_sys_step [frame_rules]: "frame s t \<Longrightarrow> frame s (snd (sys K q t))"
  using frame_sys frame_trans by metis

lemma frame_rand_step [frame_rules]: "frame s t \<Longrightarrow> frame s (snd (rand K t))"
  using frame_rand frame_trans by (metis prod.collapse)

lemma frame_seed_step [frame_rules]: "frame s t \<Longrightarrow> frame s (seed_from_clock K t)"
  using frame_seed frame_trans by metis

lemma effects_sys: "sys K q s = (r, t) \<Longrightarrow>
    effects t = (if is_obs q then effects s else effects s @ [(q, r)])"
  by (auto simp: sys_def effects_def split: prod.splits)

lemma errno_sys: "sys K q s = (r, t) \<Longrightarrow> ret r < 0 \<Longrightarrow> errno t = err r"
  by (auto simp: sys_def split: prod.splits)

lemma effects_sys_snd [eff_simps]:
  "effects (snd (sys K q s)) =
     (if is_obs q then effects s else effects s @ [(q, fst (sys K q s))])"
  by (cases "sys K q s") (simp add: effects_sys)

lemma effects_err_out [simp]: "effects (s\<lparr>err_out := x\<rparr>) = effects s"
  by (simp add: effects_def)

lemma effects_exit_code [simp]: "effects (s\<lparr>exit_code := x\<rparr>) = effects s"
  by (simp add: effects_def)

lemma effects_rng [simp]: "effects (s\<lparr>rng := x\<rparr>) = effects s"
  by (simp add: effects_def)

lemma effects_srand [simp]: "effects (srand x s) = effects s"
  by (simp add: srand_def)

lemma effects_seed [eff_simps]: "effects (seed_from_clock K s) = effects s"
  by (simp add: seed_from_clock_def Let_def split_beta effects_sys_snd)

lemma effects_rand [eff_simps]: "effects (snd (rand K s)) = effects s"
  by (simp add: rand_def split_beta)

lemma rand_bound: "fst (rand K s) < 2 ^ 31"
  by (simp add: rand_def split_beta)

lemma map_filter_append [simp]: "List.map_filter f (xs @ ys) = List.map_filter f xs @ List.map_filter f ys"
  by (induction xs) (auto simp: List.map_filter_simps split: option.split)

lemma map_filter_single [simp]:
  "List.map_filter f [x] = (case f x of None \<Rightarrow> [] | Some y \<Rightarrow> [y])"
  by (simp add: List.map_filter_simps split: option.split)

lemma map_filter_nil [simp]: "List.map_filter f [] = []"
  by (simp add: List.map_filter_simps)

section \<open>A scripted system\<close>

text \<open>
  A system whose answer is a function of the request alone, and the initial state of a process:
  concrete instances on which theorems about every system can be evaluated.
\<close>

definition answer :: "int \<Rightarrow> string \<Rightarrow> sysres" where
  "answer r d = \<lparr>ret = r, err = 0, dat = d, tv = (0, 0)\<rparr>"

definition failure :: "int \<Rightarrow> sysres" where
  "failure e = \<lparr>ret = - 1, err = e, dat = [], tv = (0, 0)\<rparr>"

definition scripted :: "(sysreq \<Rightarrow> sysres) \<Rightarrow> unit kernel" where
  "scripted f =
     \<lparr>kcall = (\<lambda>q k. (f q, k)), kstrerror = (\<lambda>_. ''error''),
      klocaltime = (\<lambda>_. \<lparr>tm_year = 0, tm_mon = 0, tm_mday = 1, tm_hour = 0, tm_min = 0, tm_sec = 0\<rparr>),
      krand = (\<lambda>_ _. 0)\<rparr>"

definition st0 :: "unit st" where
  "st0 = \<lparr>kst = (), trace = [], log_level = LOG_INFO, errno = 0, std_out = [], err_out = [],
     exit_code = None, rng = (1, 0), api = []\<rparr>"

lemma sys_scripted [eval_simps]:
  "sys (scripted f) q s =
     (f q, s\<lparr>trace := trace s @ [(q, f q)],
            errno := (if ret (f q) < 0 \<or> err (f q) \<noteq> 0 then err (f q) else errno s)\<rparr>)"
  by (simp add: sys_def scripted_def)

declare answer_def [eval_simps] failure_def [eval_simps] st0_def [eval_simps]
  srand_def [eval_simps] rand_def [eval_simps] seed_from_clock_def [eval_simps]
  effects_def [eval_simps] cmds_def [eval_simps] mounts_done_def [eval_simps]
  strerror_errno_def [eval_simps] is_cstr_def [eval_simps]

end
