(* ===== verification/Runtime_Types.thy ===== *)
theory Runtime_Types
  imports Kernel_Iface
begin

text \<open>
  The structures of \<^verbatim>\<open>include/cruntime.h\<close>. A character array is the string it holds, an array
  with a counter is a list of all its cells next to the counter, an \<open>int64_t\<close> or \<open>size_t\<close> is a
  64-bit word, an \<open>int\<close>, \<open>pid_t\<close>, \<open>uid_t\<close> or \<open>gid_t\<close> a 32-bit word (read with \<open>sint\<close> where the
  C type is signed). \<^verbatim>\<open>runtime_dir\<close> alone stays a raw buffer: \<^verbatim>\<open>main\<close> fills it with
  \<^verbatim>\<open>strncpy\<close> into uninitialised memory. Field names carry a prefix for their structure
  (\<^verbatim>\<open>cfg_\<close>, \<^verbatim>\<open>ct_\<close>, \<^verbatim>\<open>nw_\<close>, \<^verbatim>\<open>rt_\<close>, \<^verbatim>\<open>im_\<close>, \<^verbatim>\<open>il_\<close>, \<^verbatim>\<open>mp_\<close>, \<^verbatim>\<open>ns_\<close>) where C allows
  the same name for a field and a variable. \<open>wf_config\<close> says that every string fits its array and
  every counter its bound.
\<close>

section \<open>Structures\<close>

record namespace_config_t =
  ns_pid :: bool
  ns_net :: bool
  ns_mnt :: bool
  ns_uts :: bool
  ns_ipc :: bool
  ns_user :: bool
  ns_cgroup :: bool

record resource_limits_t =
  memory_limit :: "64 word"
  memory_swap :: "64 word"
  cpu_shares :: "64 word"
  cpu_quota :: "64 word"
  cpu_period :: "64 word"
  pids_limit :: "64 word"
  blkio_weight :: "64 word"

record mount_point_t =
  mp_source :: string
  mp_target :: string
  mp_fstype :: string
  mp_flags :: "64 word"
  mp_options :: string

record port_mapping_t =
  host_port :: "16 word"
  container_port :: "16 word"
  protocol :: string

record network_config_t =
  nw_bridge_name :: string
  nw_ip_address :: string
  nw_gateway :: string
  nw_subnet :: string
  nw_ports :: "port_mapping_t list"
  nw_num_ports :: "32 word"
  nw_enable_nat :: bool

record image_layer_t =
  il_id :: string
  il_diff_path :: string
  il_size :: "64 word"

record container_image_t =
  im_id :: string
  im_name :: string
  im_tag :: string
  im_layers :: "image_layer_t list"
  im_num_layers :: "32 word"
  im_rootfs_path :: string
  im_metadata_path :: string

text \<open>\<open>cfg_command\<close> and \<open>cfg_env\<close> are pointers, \<open>None\<close> is NULL; \<open>cfg_args\<close> is the array that \<^verbatim>\<open>args\<close>
  points to.\<close>

record container_config_t =
  cfg_id :: string
  cfg_name :: string
  cfg_hostname :: string
  cfg_command :: "string option"
  cfg_args :: "string list"
  cfg_num_args :: "32 word"
  cfg_env :: "string list option"
  cfg_num_env :: "32 word"
  cfg_rootfs :: string
  cfg_working_dir :: string
  cfg_namespaces :: namespace_config_t
  cfg_limits :: resource_limits_t
  cfg_network :: network_config_t
  cfg_mounts :: "mount_point_t list"
  cfg_num_mounts :: "32 word"
  cfg_privileged :: bool
  cfg_readonly_rootfs :: bool
  cfg_uid :: "32 word"
  cfg_gid :: "32 word"

record container_t =
  ct_config :: container_config_t
  ct_init_pid :: "32 word"
  ct_state :: container_state_t
  ct_cgroup_path :: string
  ct_netns_path :: string
  ct_bundle_path :: string
  ct_created_at :: "64 word"
  ct_started_at :: "64 word"

record runtime_ctx_t =
  rt_runtime_dir :: cbuf
  rt_state_dir :: string
  rt_image_dir :: string
  rt_network_dir :: string
  rt_use_systemd :: bool

section \<open>The zeroed structures\<close>

definition zero_namespaces :: namespace_config_t where
  "zero_namespaces = \<lparr>ns_pid = False, ns_net = False, ns_mnt = False, ns_uts = False,
     ns_ipc = False, ns_user = False, ns_cgroup = False\<rparr>"

definition zero_limits :: resource_limits_t where
  "zero_limits = \<lparr>memory_limit = 0, memory_swap = 0, cpu_shares = 0, cpu_quota = 0,
     cpu_period = 0, pids_limit = 0, blkio_weight = 0\<rparr>"

definition zero_mount :: mount_point_t where
  "zero_mount = \<lparr>mp_source = [], mp_target = [], mp_fstype = [], mp_flags = 0, mp_options = []\<rparr>"

definition zero_port :: port_mapping_t where
  "zero_port = \<lparr>host_port = 0, container_port = 0, protocol = []\<rparr>"

definition zero_network :: network_config_t where
  "zero_network = \<lparr>nw_bridge_name = [], nw_ip_address = [], nw_gateway = [], nw_subnet = [],
     nw_ports = replicate MAX_PORTS zero_port, nw_num_ports = 0, nw_enable_nat = False\<rparr>"

text \<open>\<^verbatim>\<open>memset(&config, 0, sizeof(config))\<close>.\<close>

definition zero_config :: container_config_t where
  "zero_config = \<lparr>cfg_id = [], cfg_name = [], cfg_hostname = [], cfg_command = None, cfg_args = [],
     cfg_num_args = 0, cfg_env = None, cfg_num_env = 0, cfg_rootfs = [], cfg_working_dir = [],
     cfg_namespaces = zero_namespaces, cfg_limits = zero_limits, cfg_network = zero_network,
     cfg_mounts = replicate MAX_MOUNTS zero_mount, cfg_num_mounts = 0, cfg_privileged = False,
     cfg_readonly_rootfs = False, cfg_uid = 0, cfg_gid = 0\<rparr>"

section \<open>Well-formedness\<close>

definition fits :: "nat \<Rightarrow> string \<Rightarrow> bool" where
  "fits cap str \<longleftrightarrow> is_cstr str \<and> length str < cap"

definition wf_mount :: "mount_point_t \<Rightarrow> bool" where
  "wf_mount m \<longleftrightarrow> fits MAX_PATH_LEN (mp_source m) \<and> fits MAX_PATH_LEN (mp_target m) \<and>
     fits 64 (mp_fstype m) \<and> fits 256 (mp_options m)"

definition wf_port :: "port_mapping_t \<Rightarrow> bool" where
  "wf_port p \<longleftrightarrow> fits 8 (protocol p)"

definition wf_network :: "network_config_t \<Rightarrow> bool" where
  "wf_network n \<longleftrightarrow> fits 64 (nw_bridge_name n) \<and> fits 64 (nw_ip_address n) \<and> fits 64 (nw_gateway n) \<and>
     fits 64 (nw_subnet n) \<and> length (nw_ports n) = MAX_PORTS \<and> (\<forall>p \<in> set (nw_ports n). wf_port p) \<and>
     0 \<le> sint (nw_num_ports n) \<and> sint (nw_num_ports n) \<le> int MAX_PORTS"

definition wf_config :: "container_config_t \<Rightarrow> bool" where
  "wf_config c \<longleftrightarrow> fits 65 (cfg_id c) \<and> fits MAX_CONTAINER_NAME (cfg_name c) \<and>
     fits 256 (cfg_hostname c) \<and> fits MAX_PATH_LEN (cfg_rootfs c) \<and> fits MAX_PATH_LEN (cfg_working_dir c) \<and>
     wf_network (cfg_network c) \<and> length (cfg_mounts c) = MAX_MOUNTS \<and>
     (\<forall>m \<in> set (cfg_mounts c). wf_mount m) \<and>
     0 \<le> sint (cfg_num_mounts c) \<and> sint (cfg_num_mounts c) \<le> int MAX_MOUNTS"

lemma fits_Nil [simp]: "0 < cap \<Longrightarrow> fits cap []"
  by (simp add: fits_def)

lemma fits_snprintf [simp]: "is_cstr str \<Longrightarrow> 0 < cap \<Longrightarrow> fits cap (snprintf cap str)"
  by (simp add: fits_def length_snprintf)

lemma fits_strncpy_field [simp]: "is_cstr str \<Longrightarrow> 0 < cap \<Longrightarrow> fits cap (strncpy_field cap str)"
  by (simp add: fits_def length_strncpy_field)

lemma fits_mono: "fits a str \<Longrightarrow> a \<le> b \<Longrightarrow> fits b str"
  by (auto simp: fits_def)

lemma max_simps [simp]:
  "0 < MAX_PATH_LEN" "0 < MAX_CONTAINER_NAME" "0 < MAX_PORTS" "0 < MAX_MOUNTS"
  by (simp_all add: MAX_PATH_LEN_def MAX_CONTAINER_NAME_def MAX_PORTS_def MAX_MOUNTS_def)

lemma wf_zero_config [simp]: "wf_config zero_config"
  by (simp add: wf_config_def zero_config_def wf_network_def zero_network_def wf_mount_def
      zero_mount_def wf_port_def zero_port_def)

end
