(* ===== verification/String_Utils.thy ===== *)
theory String_Utils
  imports C_Strings
begin

text \<open>
  The string utilities of \<^verbatim>\<open>src/utils/utils.c\<close>. They work in place, so they are modelled on
  buffers with offsets as pointers; what they compute is specified on plain strings
  (\<open>trim_spec\<close>, \<open>fields\<close>), and the two refinement theorems relate code and specification and
  say which bytes of the buffer may change.
\<close>

section \<open>The code\<close>

definition is_ws :: "char \<Rightarrow> bool" where
  "is_ws c \<longleftrightarrow> c = CHR '' '' \<or> c = CHR 0x09 \<or> c = CHR 0x0A \<or> c = CHR 0x0D"

function skip_ws :: "cbuf \<Rightarrow> nat \<Rightarrow> nat option" where
  "skip_ws b p =
     (case peek b p of None \<Rightarrow> None | Some c \<Rightarrow> if is_ws c then skip_ws b (Suc p) else Some p)"
  by pat_completeness auto
termination
  by (relation "measure (\<lambda>(b, p). length b - p)") (auto simp: peek_def split: if_splits)

declare skip_ws.simps [simp del]

function trim_end :: "cbuf \<Rightarrow> nat \<Rightarrow> nat \<Rightarrow> nat option" where
  "trim_end b str e =
     (if str < e then
        (case peek b e of None \<Rightarrow> None | Some c \<Rightarrow> if is_ws c then trim_end b str (e - 1) else Some e)
      else Some e)"
  by pat_completeness auto
termination
  by (relation "measure (\<lambda>(b, str, e). e)") auto

declare trim_end.simps [simp del]

text \<open>\<^verbatim>\<open>trim_whitespace(str)\<close>: the new start of the string, and the buffer with the terminator
  moved to its new end.\<close>

definition trim_whitespace :: "cbuf \<Rightarrow> nat \<Rightarrow> (nat \<times> cbuf) option" where
  "trim_whitespace b str = do {
     str \<leftarrow> skip_ws b str;
     c \<leftarrow> peek b str;
     if c = NUL then Some (str, b)
     else do {
       len \<leftarrow> map_option length (str_at b str);
       e \<leftarrow> trim_end b str (str + len - 1);
       b \<leftarrow> poke b (Suc e) NUL;
       Some (str, b)
     }
   }"

text \<open>The loop of \<^verbatim>\<open>split_string\<close>, with \<open>room\<close> for \<^verbatim>\<open>max_tokens - count\<close> and the token
  pointer (NULL is \<open>None\<close>); the result lists the pointers stored in \<^verbatim>\<open>tokens\<close>.\<close>

fun split_from :: "cbuf \<Rightarrow> char \<Rightarrow> nat \<Rightarrow> nat option \<Rightarrow> (nat list \<times> cbuf) option" where
  "split_from b delimiter 0 token = Some ([], b)"
| "split_from b delimiter (Suc room) None = Some ([], b)"
| "split_from b delimiter (Suc room) (Some token) = do {
     found \<leftarrow> c_strchr b token delimiter;
     (b, next) \<leftarrow> (case found of
         None \<Rightarrow> Some (b, None)
       | Some q \<Rightarrow> do { b \<leftarrow> poke b q NUL; Some (b, Some (Suc q)) });
     (t, b) \<leftarrow> trim_whitespace b token;
     (ts, b) \<leftarrow> split_from b delimiter room next;
     Some (t # ts, b)
   }"

definition split_string :: "cbuf \<Rightarrow> nat \<Rightarrow> char \<Rightarrow> int \<Rightarrow> (nat \<times> nat list \<times> cbuf) option" where
  "split_string b str delimiter max_tokens = do {
     (tokens, b) \<leftarrow> split_from b delimiter (nat max_tokens) (Some str);
     Some (length tokens, tokens, b)
   }"

section \<open>Strings inside buffers\<close>

lemma peek_Some: "peek b p = Some c \<longleftrightarrow> p < length b \<and> b ! p = Some c"
  by (simp add: peek_def)

lemma str_at_Nil: "str_at b p = Some [] \<longleftrightarrow> peek b p = Some NUL"
proof (cases "p < length b")
  case True
  then have "drop p b = b ! p # drop (Suc p) b" by (rule Cons_nth_drop_Suc [symmetric])
  with True show ?thesis by (cases "b ! p") (auto simp: str_at_def peek_def)
qed (simp add: str_at_def peek_def)

lemma str_at_Cons:
  "str_at b p = Some (c # cs) \<longleftrightarrow> peek b p = Some c \<and> c \<noteq> NUL \<and> str_at b (Suc p) = Some cs"
proof (cases "p < length b")
  case True
  then have "drop p b = b ! p # drop (Suc p) b" by (rule Cons_nth_drop_Suc [symmetric])
  with True show ?thesis by (cases "b ! p") (auto simp: str_at_def peek_def)
qed (simp add: str_at_def peek_def)

lemma str_at_iff:
  "str_at b p = Some s \<longleftrightarrow> is_cstr s \<and> p + length s < length b \<and>
     (\<forall>i < length s. b ! (p + i) = Some (s ! i)) \<and> b ! (p + length s) = Some NUL"
proof (induction s arbitrary: p)
  case Nil
  then show ?case by (simp add: str_at_Nil peek_Some)
next
  case (Cons c cs)
  have "(\<forall>i < length (c # cs). b ! (p + i) = Some ((c # cs) ! i)) \<longleftrightarrow>
      b ! p = Some c \<and> (\<forall>i < length cs. b ! (Suc p + i) = Some (cs ! i))"
    by (auto simp: less_Suc_eq_0_disj)
  with Cons show ?case by (auto simp: str_at_Cons peek_Some)
qed

lemma str_at_drop: "str_at b p = Some s \<Longrightarrow> j \<le> length s \<Longrightarrow> str_at b (p + j) = Some (drop j s)"
  by (auto simp: str_at_iff add.assoc)

lemma str_at_cut:
  "str_at b p = Some s \<Longrightarrow> k \<le> length s \<Longrightarrow> str_at (b[p + k := Some NUL]) p = Some (take k s)"
  by (auto simp: str_at_iff nth_list_update)

lemma str_at_cong:
  assumes "str_at b p = Some s" and "length b' = length b"
    and "\<And>i. p \<le> i \<Longrightarrow> i \<le> p + length s \<Longrightarrow> b' ! i = b ! i"
  shows "str_at b' p = Some s"
  using assms by (auto simp: str_at_iff)

lemma c_strchr_str_at:
  assumes "str_at b p = Some s" and "c \<noteq> NUL"
  shows "c_strchr b p c = Some (map_option (\<lambda>(a, r). p + length a) (strchr_split c s))"
proof -
  from assms(1) obtain r where p: "p \<le> length b" and d: "drop p b = map Some s @ Some NUL # r"
    and s: "is_cstr s"
    by (auto simp: str_at_def cbuf_str_Some split: if_splits)
  show ?thesis
  proof (cases "strchr_split c s")
    case None
    with s assms(2) show ?thesis
      by (simp add: c_strchr_def p d scan_chr_absent strchr_split_None)
  next
    case (Some ar)
    then obtain a t where ar: "ar = (a, t)" "s = a @ c # t" "c \<notin> set a"
      by (cases ar) (auto simp: strchr_split_Some)
    with s scan_chr_found [of a c "map Some t @ Some NUL # r"] show ?thesis
      by (simp add: c_strchr_def p d)
  qed
qed

section \<open>trim_whitespace\<close>

definition rstrip :: "string \<Rightarrow> string" where
  "rstrip s = rev (dropWhile is_ws (rev s))"

definition trim_spec :: "string \<Rightarrow> string" where
  "trim_spec s = rstrip (dropWhile is_ws s)"

lemma rstrip_snoc: "rstrip (s @ [c]) = (if is_ws c then rstrip s else s @ [c])"
  by (simp add: rstrip_def)

lemma rstrip_take: "rstrip s = take (length (rstrip s)) s"
proof -
  have "rev s = takeWhile is_ws (rev s) @ dropWhile is_ws (rev s)" by simp
  then have "s = rev (dropWhile is_ws (rev s)) @ rev (takeWhile is_ws (rev s))"
    by (metis rev_append rev_rev_ident)
  then show ?thesis unfolding rstrip_def by (metis append_eq_conv_conj)
qed

lemma length_rstrip: "length (rstrip s) \<le> length s"
  by (simp add: rstrip_def) (metis length_dropWhile_le length_rev)

lemma not_ws_NUL [simp]: "\<not> is_ws NUL"
  by (simp add: is_ws_def)

lemma skip_ws_str:
  "str_at b p = Some s \<Longrightarrow> skip_ws b p = Some (p + length (takeWhile is_ws s))"
proof (induction s arbitrary: p)
  case Nil
  then show ?case by (subst skip_ws.simps) (simp add: str_at_Nil)
next
  case (Cons c cs)
  then show ?case by (subst skip_ws.simps) (simp add: str_at_Cons)
qed

lemma trim_end_str:
  assumes "\<forall>i < length u. peek b (p + i) = Some (u ! i)" and "u \<noteq> []" and "\<not> is_ws (hd u)"
  shows "rstrip u \<noteq> [] \<and> trim_end b p (p + length u - 1) = Some (p + length (rstrip u) - 1)"
  using assms
proof (induction u rule: rev_induct)
  case Nil
  then show ?case by simp
next
  case (snoc x xs)
  have x: "peek b (p + length xs) = Some x"
    using snoc.prems(1) [rule_format, of "length xs"] by simp
  show ?case
  proof (cases "xs = []")
    case True
    with snoc.prems(3) show ?thesis by (subst trim_end.simps) (simp add: rstrip_def)
  next
    case False
    have pre: "\<forall>i < length xs. peek b (p + i) = Some (xs ! i)"
    proof (intro allI impI)
      fix i assume "i < length xs"
      then show "peek b (p + i) = Some (xs ! i)"
        using snoc.prems(1) [rule_format, of i] by (simp add: nth_append)
    qed
    have IH: "rstrip xs \<noteq> [] \<and> trim_end b p (p + length xs - 1) = Some (p + length (rstrip xs) - 1)"
      using snoc.IH pre False snoc.prems(3) by simp
    from False IH x show ?thesis by (subst trim_end.simps) (simp add: rstrip_snoc)
  qed
qed

lemma trim_whitespace_str:
  assumes "str_at b p = Some s"
  shows "trim_whitespace b p =
    Some (p + length (takeWhile is_ws s),
          b[p + length (takeWhile is_ws s) + length (trim_spec s) := Some NUL])"
proof -
  let ?w = "length (takeWhile is_ws s)" and ?u = "dropWhile is_ws s"
  have du: "drop ?w s = ?u" by (simp add: dropWhile_eq_drop)
  have wl: "?w \<le> length s" by (rule length_takeWhile_le)
  have u: "str_at b (p + ?w) = Some ?u"
    using str_at_drop [OF assms wl] du by simp
  note skip = skip_ws_str [OF assms]
  show ?thesis
  proof (cases ?u)
    case Nil
    with u have n: "peek b (p + ?w) = Some NUL" by (simp add: str_at_Nil)
    then have "b[p + ?w := Some NUL] = b" by (metis list_update_id peek_Some)
    moreover have "trim_spec s = []" unfolding trim_spec_def Nil by (simp add: rstrip_def)
    ultimately show ?thesis using skip n by (simp add: trim_whitespace_def)
  next
    case (Cons c cs)
    then have c: "peek b (p + ?w) = Some c" "c \<noteq> NUL" using u by (simp_all add: str_at_Cons)
    have "\<not> is_ws (hd ?u)" using hd_dropWhile [of is_ws s] Cons by simp
    moreover have "\<forall>i < length ?u. peek b (p + ?w + i) = Some (?u ! i)"
      using u by (auto simp: str_at_iff peek_Some)
    ultimately have e: "rstrip ?u \<noteq> []"
        "trim_end b (p + ?w) (p + ?w + length ?u - 1) = Some (p + ?w + length (rstrip ?u) - 1)"
      using trim_end_str [of ?u b "p + ?w"] Cons by auto
    have "p + ?w + length (rstrip ?u) < length b"
      using u length_rstrip [of ?u] by (simp add: str_at_iff)
    with e skip c u Cons show ?thesis
      by (simp add: trim_whitespace_def trim_spec_def poke_def)
  qed
qed

lemma trim_whitespace_result:
  assumes "str_at b p = Some s"
  obtains q b' where "trim_whitespace b p = Some (q, b')" and "str_at b' q = Some (trim_spec s)"
    and "length b' = length b" and "p \<le> q" and "q + length (trim_spec s) \<le> p + length s"
    and "\<And>i. i < p \<or> p + length s < i \<Longrightarrow> b' ! i = b ! i"
proof -
  let ?w = "length (takeWhile is_ws s)"
  have wl: "?w \<le> length s" by (rule length_takeWhile_le)
  have du: "drop ?w s = dropWhile is_ws s" by (simp add: dropWhile_eq_drop)
  have t: "trim_spec s = take (length (trim_spec s)) (dropWhile is_ws s)"
    unfolding trim_spec_def by (rule rstrip_take)
  have tl: "length (trim_spec s) \<le> length s - ?w"
    using length_rstrip [of "dropWhile is_ws s"] du
    by (metis length_drop trim_spec_def)
  show thesis
  proof (rule that [OF trim_whitespace_str [OF assms]])
    have "length (trim_spec s) \<le> length (dropWhile is_ws s)" using tl du by (metis length_drop)
    with str_at_cut [OF str_at_drop [OF assms wl, unfolded du], of "length (trim_spec s)"] t
    show "str_at (b[p + ?w + length (trim_spec s) := Some NUL]) (p + ?w) = Some (trim_spec s)"
      by simp
  qed (use wl tl in auto)
qed

text \<open>C21. \<^verbatim>\<open>trim_whitespace\<close> on a string inside a buffer always returns: the result points to the
  string without leading and trailing blanks, tabs, newlines and carriage returns, and no byte
  outside the old string and its terminator changes.\<close>

theorem trim_whitespace_refines:
  assumes "str_at b p = Some s"
  shows "\<exists>q b'. trim_whitespace b p = Some (q, b') \<and> str_at b' q = Some (trim_spec s) \<and>
    length b' = length b \<and> (\<forall>i. i < p \<or> p + length s < i \<longrightarrow> b' ! i = b ! i)"
  by (rule trim_whitespace_result [OF assms]) blast

theorem trim_whitespace_refines_witness:
  "\<exists>q b'. trim_whitespace (of_lit '' a b '') 0 = Some (q, b') \<and> str_at b' q = Some ''a b''"
proof -
  have "str_at (of_lit '' a b '') 0 = Some '' a b ''" by (simp add: str_at_def)
  from trim_whitespace_refines [OF this] show ?thesis
    by (auto simp: trim_spec_def rstrip_def is_ws_def)
qed

section \<open>split_string\<close>

text \<open>The fields of a string between the delimiters, before trimming.\<close>

function fields :: "char \<Rightarrow> string \<Rightarrow> string list" where
  "fields d s = (case strchr_split d s of None \<Rightarrow> [s] | Some (a, r) \<Rightarrow> a # fields d r)"
  by pat_completeness auto
termination
  by (relation "measure (\<lambda>(d, s). length s)") (auto simp: strchr_split_Some)

declare fields.simps [simp del]

lemma split_from_refines:
  assumes "str_at b p = Some s" and "d \<noteq> NUL"
  shows "\<exists>ts b'. split_from b d room (Some p) = Some (ts, b') \<and> length b' = length b \<and>
    list_all2 (\<lambda>t f. str_at b' t = Some (trim_spec f)) ts (take room (fields d s)) \<and>
    (\<forall>i. i < p \<or> p + length s < i \<longrightarrow> b' ! i = b ! i)"
  using assms(1)
proof (induction room arbitrary: b p s)
  case 0
  then show ?case by simp
next
  case (Suc room)
  note found = c_strchr_str_at [OF Suc.prems assms(2)]
  show ?case
  proof (cases "strchr_split d s")
    case None
    then have f: "fields d s = [s]" by (subst fields.simps) simp
    obtain q b1 where "trim_whitespace b p = Some (q, b1)" "str_at b1 q = Some (trim_spec s)"
      "length b1 = length b" "\<And>i. i < p \<or> p + length s < i \<Longrightarrow> b1 ! i = b ! i"
      by (rule trim_whitespace_result [OF Suc.prems]) blast
    moreover have "split_from b1 d room None = Some ([], b1)" by (cases room) simp_all
    ultimately show ?thesis using None found f by simp
  next
    case (Some ar)
    then obtain a r where sp: "strchr_split d s = Some (a, r)" by (cases ar) simp
    then have s: "s = a @ d # r" by (simp add: strchr_split_Some)
    have f: "fields d s = a # fields d r" using sp by (subst fields.simps) simp
    let ?q = "p + length a" and ?b0 = "b[p + length a := Some NUL]"
    have lt: "?q < length b" using Suc.prems s by (simp add: str_at_iff)
    have a: "str_at ?b0 p = Some a" using str_at_cut [OF Suc.prems, of "length a"] s by simp
    have "str_at b (Suc ?q) = Some r"
      using str_at_drop [OF Suc.prems, of "Suc (length a)"] s by simp
    then have r: "str_at ?b0 (Suc ?q) = Some r" by (rule str_at_cong) simp_all
    obtain t b1 where t: "trim_whitespace ?b0 p = Some (t, b1)" "str_at b1 t = Some (trim_spec a)"
      "length b1 = length ?b0" "p \<le> t" "t + length (trim_spec a) \<le> p + length a"
      "\<And>i. i < p \<or> p + length a < i \<Longrightarrow> b1 ! i = ?b0 ! i"
      by (rule trim_whitespace_result [OF a]) blast
    have r1: "str_at b1 (Suc ?q) = Some r"
      by (rule str_at_cong [OF r t(3)]) (use t(6) in simp)
    from Suc.IH [OF r1] obtain ts b' where ts: "split_from b1 d room (Some (Suc ?q)) = Some (ts, b')"
      "length b' = length b1" "list_all2 (\<lambda>t f. str_at b' t = Some (trim_spec f)) ts (take room (fields d r))"
      "\<And>i. i < Suc ?q \<or> Suc ?q + length r < i \<Longrightarrow> b' ! i = b1 ! i"
      by blast
    have "str_at b' t = Some (trim_spec a)"
      using t(2) ts(2) by (rule str_at_cong) (use t(5) ts(4) in auto)
    moreover have "split_from b d (Suc room) (Some p) = Some (t # ts, b')"
      using sp found lt t(1) ts(1) by (simp add: poke_def)
    moreover have "\<forall>i. i < p \<or> p + length s < i \<longrightarrow> b' ! i = b ! i"
      using ts(4) t(6) s by auto
    ultimately show ?thesis using ts(2,3) t(3) f by auto
  qed
qed

text \<open>C18. \<^verbatim>\<open>split_string\<close> on a string inside a buffer always returns: it stores a pointer for each
  of the first \<^verbatim>\<open>max_tokens\<close> fields between delimiters, every one of them still pointing to its
  trimmed field in the final buffer, and changes no byte outside the string. Fields beyond
  \<^verbatim>\<open>max_tokens\<close> are dropped.\<close>

theorem split_string_refines:
  assumes "str_at b p = Some s" and "d \<noteq> NUL"
  shows "\<exists>ts b'. split_string b p d max_tokens = Some (length ts, ts, b') \<and> length b' = length b \<and>
    map (str_at b') ts = map (Some \<circ> trim_spec) (take (nat max_tokens) (fields d s)) \<and>
    (\<forall>i. i < p \<or> p + length s < i \<longrightarrow> b' ! i = b ! i)"
proof -
  obtain ts b' where r: "split_from b d (nat max_tokens) (Some p) = Some (ts, b')"
    "length b' = length b" "\<forall>i. i < p \<or> p + length s < i \<longrightarrow> b' ! i = b ! i"
    and l: "list_all2 (\<lambda>t f. str_at b' t = Some (trim_spec f)) ts (take (nat max_tokens) (fields d s))"
    using split_from_refines [OF assms, of "nat max_tokens"] by blast
  from l have "map (str_at b') ts = map (Some \<circ> trim_spec) (take (nat max_tokens) (fields d s))"
    by (simp add: list_all2_conv_all_nth list_eq_iff_nth_eq)
  with r show ?thesis by (simp add: split_string_def)
qed

theorem split_string_refines_witness:
  "\<exists>ts b'. split_string (of_lit ''a, b ,c'') 0 CHR '','' 2 = Some (2, ts, b') \<and>
     map (str_at b') ts = [Some ''a'', Some ''b'']"
proof -
  have f: "take 2 (fields CHR '','' ''a, b ,c'') = [''a'', '' b '']"
    by (subst fields.simps, subst fields.simps, simp)
  have "str_at (of_lit ''a, b ,c'') 0 = Some ''a, b ,c''" by (simp add: str_at_def)
  from split_string_refines [OF this, of "CHR '',''" 2] f
  obtain ts b' where r: "split_string (of_lit ''a, b ,c'') 0 CHR '','' 2 = Some (length ts, ts, b')"
    and m: "map (str_at b') ts = [Some ''a'', Some ''b'']"
    by (auto simp: trim_spec_def rstrip_def is_ws_def)
  from m have "length ts = 2" by (metis One_nat_def Suc_1 length_Cons length_map list.size(3))
  with r m show ?thesis by auto
qed

end
