(* ===== verification/Utils.thy ===== *)
theory Utils
  imports Runtime_Types String_Utils
begin

text \<open>
  \<^verbatim>\<open>src/utils/utils.c\<close> but for its string utilities (theory \<open>String_Utils\<close>): logging,
  container identifiers, size strings, file access. The lemmas give the exact effect of each
  function; the floating-point code of \<^verbatim>\<open>parse_size\<close> and \<^verbatim>\<open>format_size\<close> is shown to agree with
  integer arithmetic.
\<close>

section \<open>Logging\<close>

primrec level_strings :: "log_level_t \<Rightarrow> string" where
  "level_strings LOG_DEBUG = ''DEBUG''"
| "level_strings LOG_INFO = ''INFO''"
| "level_strings LOG_WARN = ''WARN''"
| "level_strings LOG_ERROR = ''ERROR''"
| "level_strings LOG_FATAL = ''FATAL''"

definition ESC :: char where "ESC = CHR 0x1B"
definition COLOR_RESET :: string where "COLOR_RESET = ESC # ''[0m''"
definition COLOR_RED :: string where "COLOR_RED = ESC # ''[31m''"
definition COLOR_YELLOW :: string where "COLOR_YELLOW = ESC # ''[33m''"
definition COLOR_BLUE :: string where "COLOR_BLUE = ESC # ''[34m''"
definition COLOR_GRAY :: string where "COLOR_GRAY = ESC # ''[90m''"

primrec level_colors :: "log_level_t \<Rightarrow> string" where
  "level_colors LOG_DEBUG = COLOR_GRAY"
| "level_colors LOG_INFO = COLOR_BLUE"
| "level_colors LOG_WARN = COLOR_YELLOW"
| "level_colors LOG_ERROR = COLOR_RED"
| "level_colors LOG_FATAL = COLOR_RED"

definition cr_set_log_level :: "log_level_t \<Rightarrow> 'k st \<Rightarrow> 'k st" where
  "cr_set_log_level level s = s\<lparr>log_level := level\<rparr>"

text \<open>\<^verbatim>\<open>localtime\<close> delivers each field within its documented range.\<close>

definition localtime :: "'k kernel \<Rightarrow> int \<Rightarrow> tm" where
  "localtime K t =
     (let m = klocaltime K t
      in m\<lparr>tm_mon := tm_mon m mod 12, tm_mday := tm_mday m mod 32, tm_hour := tm_hour m mod 24,
           tm_min := tm_min m mod 60, tm_sec := tm_sec m mod 61\<rparr>)"

text \<open>\<^verbatim>\<open>strftime\<close> with the format \<^verbatim>\<open>%Y-%m-%d %H:%M:%S\<close>.\<close>

definition strftime_date :: "tm \<Rightarrow> string" where
  "strftime_date m =
     dec_int (sint (tm_year m) + 1900) @ ''-'' @ pad2 (tm_mon m + 1) @ ''-'' @ pad2 (tm_mday m) @
     '' '' @ pad2 (tm_hour m) @ '':'' @ pad2 (tm_min m) @ '':'' @ pad2 (tm_sec m)"

definition pad3 :: "nat \<Rightarrow> string" where
  "pad3 n = (if n < 100 then CHR ''0'' # pad2 n else dec_nat n)"

text \<open>
  The date and the milliseconds, as the buffer of the given size holds them. \<^verbatim>\<open>strftime\<close>
  would write nothing if the date did not fit; \<open>strftime_date_fits\<close> below shows that it does
  in the 32 bytes of the only caller.
\<close>

definition get_timestamp :: "'k kernel \<Rightarrow> nat \<Rightarrow> 'k st \<Rightarrow> string \<times> 'k st" where
  "get_timestamp K sz s =
     (let (r, s) = sys K Sys_gettimeofday s;
          d = strftime_date (localtime K (fst (tv r)));
          ms = nat (snd (tv r) mod 1000000) div 1000
      in (d @ snprintf (sz - length d) (''.'' @ pad3 ms), s))"

definition pad_right :: "nat \<Rightarrow> string \<Rightarrow> string" where
  "pad_right n str = str @ replicate (n - length str) CHR '' ''"

text \<open>\<^verbatim>\<open>cr_log(level, fmt, ...)\<close>, given the formatted message. Only \<^verbatim>\<open>LOG_FATAL\<close> exits.\<close>

definition cr_log :: "'k kernel \<Rightarrow> log_level_t \<Rightarrow> string \<Rightarrow> 'k st \<Rightarrow> 'k st" where
  "cr_log K level msg s =
     (if level < log_level s then s
      else
        let (timestamp, s) = get_timestamp K 32 s;
            (use_color, s) = sys K (Sys_isatty 2) s;
            header =
              (if ret use_color \<noteq> 0
               then COLOR_GRAY @ ''['' @ timestamp @ ''] '' @ level_colors level @
                    pad_right 5 (level_strings level) @ COLOR_RESET @ '' ''
               else ''['' @ timestamp @ ''] '' @ pad_right 5 (level_strings level) @ '' '');
            s = s\<lparr>err_out := err_out s @ header @ msg @ [CHR 0x0A]\<rparr>
        in if level = LOG_FATAL then s\<lparr>exit_code := Some 1\<rparr> else s)"

section \<open>Identifiers\<close>

definition charset :: string where "charset = ''0123456789abcdef''"

text \<open>The fallback loop: one call of \<^verbatim>\<open>rand\<close> for each of the \<open>n\<close> characters.\<close>

fun rand_chars :: "'k kernel \<Rightarrow> nat \<Rightarrow> 'k st \<Rightarrow> string \<times> 'k st" where
  "rand_chars K 0 s = ([], s)"
| "rand_chars K (Suc n) s =
     (let (x, s) = rand K s; (cs, s) = rand_chars K n s in (charset ! (x mod 16) # cs, s))"

definition hex_of_byte :: "char \<Rightarrow> char" where
  "hex_of_byte b = charset ! (of_char b mod 16)"

text \<open>
  \<^verbatim>\<open>generate_id(buffer, size)\<close>. The bytes of \<^verbatim>\<open>random_bytes[32]\<close> that \<^verbatim>\<open>fread\<close> did not
  deliver are indeterminate, and so are the characters made from them. With a size of 0 the
  last store is out of bounds.
\<close>

definition generate_id :: "'k kernel \<Rightarrow> cbuf \<Rightarrow> nat \<Rightarrow> 'k st \<Rightarrow> (cbuf \<times> 'k st) option" where
  "generate_id K buffer sz s =
     (if sz = 0 \<or> length buffer < sz then None
      else
        let (f, s) = sys K (Sys_fopen ''/dev/urandom'' ''r'') s in
        if ret f < 0 then
          (let (cs, s) = rand_chars K (sz - 1) (seed_from_clock K s)
           in Some (map Some cs @ Some NUL # drop sz buffer, s))
        else
          (let (r, s) = sys K (Sys_fread (ret f) 32) s;
               (_, s) = sys K (Sys_fclose (ret f)) s;
               random_bytes = take 32 (map Some (dat r) @ replicate 32 None);
               n = min (sz - 1) 32
           in Some (map (map_option hex_of_byte) (take n random_bytes) @
                    drop n (take (sz - 1) buffer) @ Some NUL # drop sz buffer, s)))"

section \<open>Sizes\<close>

text \<open>\<^verbatim>\<open>parse_size(str)\<close>: a number with an optional unit; \<open>-1\<close> if there is no number or the
  unit is unknown. The conversion to \<open>int64_t\<close> is undefined for values out of range.\<close>

definition size_multiplier :: "char \<Rightarrow> int option" where
  "size_multiplier c =
     (if c = CHR ''K'' \<or> c = CHR ''k'' then Some 1024
      else if c = CHR ''M'' \<or> c = CHR ''m'' then Some (1024 * 1024)
      else if c = CHR ''G'' \<or> c = CHR ''g'' then Some (1024 * 1024 * 1024)
      else if c = CHR ''T'' \<or> c = CHR ''t'' then Some (1024 * 1024 * 1024 * 1024)
      else None)"

definition parse_size :: "string \<Rightarrow> int option" where
  "parse_size str =
     (let (val, endptr) = strtod str in
      if endptr = str then Some (- 1)
      else
        case (if endptr = [] then Some 1 else size_multiplier (hd endptr)) of
          None \<Rightarrow> Some (- 1)
        | Some multiplier \<Rightarrow> int64_of_double (dmul val (double_of_int multiplier)))"

definition size_units :: "string list" where
  "size_units = [''B'', ''KB'', ''MB'', ''GB'', ''TB'']"

function scale_units :: "double \<Rightarrow> nat \<Rightarrow> double \<times> nat" where
  "scale_units val unit_idx =
     (if dge_int val 1024 \<and> unit_idx < 4 then scale_units (ddiv2 10 val) (Suc unit_idx)
      else (val, unit_idx))"
  by pat_completeness auto
termination
  by (relation "measure (\<lambda>(v, i). 4 - i)") auto

declare scale_units.simps [simp del]

definition size_text :: "64 word \<Rightarrow> string" where
  "size_text bytes =
     (let (val, unit_idx) = scale_units (double_of_int (sint bytes)) 0
      in if unit_idx = 0 then dec_int (sint bytes) @ '' '' @ size_units ! unit_idx
         else fmt_f2 val @ '' '' @ size_units ! unit_idx)"

definition format_size :: "64 word \<Rightarrow> cbuf \<Rightarrow> nat \<Rightarrow> cbuf option" where
  "format_size bytes buffer sz = c_snprintf buffer 0 sz (size_text bytes)"

section \<open>Files\<close>

definition file_exists :: "'k kernel \<Rightarrow> string \<Rightarrow> 'k st \<Rightarrow> bool \<times> 'k st" where
  "file_exists K path s = (let (r, s) = sys K (Sys_access path) s in (ret r = 0, s))"

text \<open>\<^verbatim>\<open>read_file(path)\<close>: the allocated buffer, or NULL. A size that \<^verbatim>\<open>ftell\<close> could not
  tell (\<open>-1\<close>) makes the code write before the buffer, and one of \<^verbatim>\<open>LONG_MAX\<close> overflows.\<close>

definition read_file :: "'k kernel \<Rightarrow> string \<Rightarrow> 'k st \<Rightarrow> (cbuf option \<times> 'k st) option" where
  "read_file K path s =
     (let (f, s) = sys K (Sys_fopen path ''r'') s in
      if ret f < 0 then Some (None, s)
      else
        let (_, s) = sys K (Sys_fseek_end (ret f)) s;
            (sz, s) = sys K (Sys_ftell (ret f)) s;
            (_, s) = sys K (Sys_fseek_set (ret f)) s
        in
        if \<not> in_int64 (ret sz + 1) then None
        else
          let (buffer, s) = sys K (Sys_malloc (nat ((ret sz + 1) mod 2 ^ 64))) s in
          if ret buffer < 0 then (let (_, s) = sys K (Sys_fclose (ret f)) s in Some (None, s))
          else if ret sz < 0 then None
          else
            let n = nat (ret sz);
                (r, s) = sys K (Sys_fread (ret f) n) s;
                bytes = map Some (take n (dat r));
                (_, s) = sys K (Sys_fclose (ret f)) s
            in Some (Some (bytes @ replicate (n - length bytes) None @ [Some NUL]), s))"

definition write_file :: "'k kernel \<Rightarrow> string \<Rightarrow> string \<Rightarrow> 'k st \<Rightarrow> int \<times> 'k st" where
  "write_file K path content s =
     (let (f, s) = sys K (Sys_fopen path ''w'') s in
      if ret f < 0 then (CR_ESYSCALL, s)
      else
        let (_, s) = sys K (Sys_fputs (ret f) content) s;
            (_, s) = sys K (Sys_fclose (ret f)) s
        in (CR_OK, s))"

section \<open>Logging: lemmas\<close>

lemma length_pad2: "n < 100 \<Longrightarrow> length (pad2 n) = 2"
  using length_dec_nat_le [of n 2] by (auto simp: pad2_def dec_nat.simps [of n] dec_nat.simps [of "n div 10"])

text \<open>The 32 bytes of \<^verbatim>\<open>cr_log\<close> always have room for the date and the milliseconds.\<close>

lemma strftime_date_fits: "length (strftime_date (localtime K t)) \<le> 26"
proof -
  have year: "length (dec_int (sint (y :: 32 word) + 1900)) \<le> 11" for y
  proof -
    have "- (2 ^ 31) \<le> sint y" "sint y < 2 ^ 31" using sint_ge [of y] sint_lt [of y] by simp_all
    then have "nat \<bar>sint y + 1900\<bar> < 10 ^ 10" by auto
    then have "length (dec_nat (nat \<bar>sint y + 1900\<bar>)) \<le> 10" by (rule length_dec_nat_le) simp
    then show ?thesis by (auto simp: dec_int_def)
  qed
  show ?thesis
    using year [of "tm_year (klocaltime K t)"]
    by (simp add: strftime_date_def localtime_def Let_def length_pad2
        order_less_trans [OF mod_less_divisor] order_le_less_trans [OF Suc_leI [OF mod_less_divisor]])
qed

lemma get_timestamp_frame: "get_timestamp K n s = (x, t) \<Longrightarrow> frame s t \<and> effects t = effects s"
  by (auto simp: get_timestamp_def Let_def split_beta effects_sys_snd frame_sys)

lemma cr_log_frame: "level \<noteq> LOG_FATAL \<Longrightarrow> frame s (cr_log K level msg s)"
proof (cases "level < log_level s")
  case False
  assume "level \<noteq> LOG_FATAL"
  obtain x s1 where 1: "get_timestamp K 32 s = (x, s1)" by force
  obtain r s2 where 2: "sys K (Sys_isatty 2) s1 = (r, s2)" by force
  have "frame s s2"
    using get_timestamp_frame [OF 1] frame_sysE [OF 2] frame_trans by blast
  with False \<open>level \<noteq> LOG_FATAL\<close> show ?thesis
    by (simp add: cr_log_def 1 2 Let_def frame_def)
qed (simp add: cr_log_def)

lemma frame_log_step [frame_rules]:
  "frame s t \<Longrightarrow> level \<noteq> LOG_FATAL \<Longrightarrow> frame s (cr_log K level msg t)"
  using cr_log_frame frame_trans by metis

lemma effects_cr_log [simp]: "effects (cr_log K level msg s) = effects s"
  by (simp add: cr_log_def Let_def split_beta effects_sys_snd get_timestamp_def)


section \<open>Identifiers: lemmas\<close>

lemma rand_chars_hex: "rand_chars K n s = (cs, t) \<Longrightarrow>
    length cs = n \<and> set cs \<subseteq> set charset \<and> frame s t \<and> effects t = effects s"
proof (induction n arbitrary: s cs t)
  case 0
  then show ?case by simp
next
  case (Suc n)
  obtain x s1 where 1: "rand K s = (x, s1)" by force
  obtain ds s2 where 2: "rand_chars K n s1 = (ds, s2)" by force
  have e: "effects s1 = effects s" using effects_rand [of K s] 1 by simp
  have "charset ! (x mod 16) \<in> set charset" by (rule nth_mem) (simp add: charset_def)
  with Suc.prems Suc.IH [OF 2] frame_rand [OF 1] e show ?case
    by (auto simp: 1 2 intro: frame_trans)
qed

lemma hex_of_byte_charset: "hex_of_byte b \<in> set charset"
  unfolding hex_of_byte_def by (rule nth_mem) (simp add: charset_def)

lemma charset_cstr: "set cs \<subseteq> set charset \<Longrightarrow> is_cstr cs"
  by (auto simp: is_cstr_def charset_def)

lemma generate_id_from_urandom:
  assumes "sys K (Sys_fopen ''/dev/urandom'' ''r'') s = (f, s1)" and "0 \<le> ret f"
    and "sys K (Sys_fread (ret f) 32) s1 = (r, s2)" and "32 \<le> length (dat r)"
  shows "\<exists>b t ident. generate_id K (zeroed 65) 65 s = Some (b, t) \<and> length b = 65 \<and>
    cbuf_str b = Some ident \<and> length ident = 32 \<and> set ident \<subseteq> set charset \<and> frame s t"
proof -
  let ?id = "map hex_of_byte (take 32 (dat r))"
  obtain c s3 where 3: "sys K (Sys_fclose (ret f)) s2 = (c, s3)" by force
  have set_id: "set ?id \<subseteq> set charset" using hex_of_byte_charset by auto
  have bytes: "take 32 (map Some (dat r) @ replicate 32 None) = map Some (take 32 (dat r))"
    using assms(4) by (simp add: take_map)
  have pad: "drop 32 (take 64 (zeroed 65)) @ Some NUL # drop 65 (zeroed 65)
      = Some NUL # replicate 32 (Some NUL)"
    by (simp add: zeroed_def replicate_append_same)
  have "generate_id K (zeroed 65) 65 s = Some (map Some ?id @ Some NUL # replicate 32 (Some NUL), s3)"
    using assms(2,4) pad
    by (simp add: generate_id_def assms(1,3) 3 bytes Let_def zeroed_def comp_def take_map)
  moreover have "cbuf_str (map Some ?id @ Some NUL # replicate 32 (Some NUL)) = Some ?id"
    using charset_cstr [OF set_id] by (rule cbuf_str_terminated)
  moreover have "frame s s3"
    using frame_sysE [OF assms(1)] frame_sysE [OF assms(3)] frame_sysE [OF 3] frame_trans by blast
  ultimately show ?thesis using set_id assms(4) by auto
qed

text \<open>An identifier made from \<^verbatim>\<open>/dev/urandom\<close> in the zeroed 65-byte field of a configuration
  has 32 hexadecimal digits, half of what the field holds.\<close>

theorem generate_id_urandom:
  assumes "sys K (Sys_fopen ''/dev/urandom'' ''r'') s = (f, s1)" and "0 \<le> ret f"
    and "sys K (Sys_fread (ret f) 32) s1 = (r, s2)" and "32 \<le> length (dat r)"
  shows "\<exists>b t ident. generate_id K (zeroed 65) 65 s = Some (b, t) \<and> length b = 65 \<and>
    cbuf_str b = Some ident \<and> length ident = 32 \<and> set ident \<subseteq> set charset \<and> frame s t"
  using assms by (rule generate_id_from_urandom)

text \<open>Without \<^verbatim>\<open>/dev/urandom\<close> the identifier comes from \<^verbatim>\<open>rand\<close> and fills the buffer: one
  hexadecimal digit less than its size.\<close>

theorem generate_id_fallback:
  assumes "sys K (Sys_fopen ''/dev/urandom'' ''r'') s = (f, s1)" and "ret f < 0"
    and "0 < n" and "n \<le> length buffer"
  shows "\<exists>b t ident. generate_id K buffer n s = Some (b, t) \<and> length b = length buffer \<and>
    cbuf_str b = Some ident \<and> length ident = n - 1 \<and> set ident \<subseteq> set charset \<and> frame s t"
proof -
  obtain cs s2 where 2: "rand_chars K (n - Suc 0) (seed_from_clock K s1) = (cs, s2)" by force
  note cs = rand_chars_hex [OF 2]
  have "generate_id K buffer n s = Some (map Some cs @ Some NUL # drop n buffer, s2)"
    using assms by (simp add: generate_id_def 2 Let_def)
  moreover have "cbuf_str (map Some cs @ Some NUL # drop n buffer) = Some cs"
    using cs charset_cstr by simp
  moreover have "frame s s2"
    using frame_sysE [OF assms(1)] frame_seed [of s1 K] cs frame_trans by blast
  ultimately show ?thesis using cs assms(3,4) by auto
qed

section \<open>Sizes: lemmas\<close>

lemma prefix_ci_dec_nat:
  assumes "\<not> is_digit p" shows "\<not> prefix_ci (p # ps) (dec_nat n @ r)"
proof -
  obtain c cs where c: "dec_nat n = c # cs" by (cases "dec_nat n") auto
  with hd_dec_nat [of n] have "is_digit c" by simp
  with assms c show ?thesis by (auto simp: prefix_ci_def)
qed

lemma not_hex_prefix:
  assumes "r = [] \<or> lower (hd r) \<noteq> CHR ''x''"
  shows "\<not> prefix_ci ''0x'' (dec_nat n @ r)"
proof -
  obtain c cs where c: "dec_nat n = c # cs" by (cases "dec_nat n") auto
  show ?thesis
  proof (cases cs)
    case Nil
    with c assms show ?thesis by (cases r) (auto simp: prefix_ci_def)
  next
    case (Cons d ds)
    with c dec_nat_digits [of d n] have "is_digit d" by simp
    then have "lower d = d \<and> d \<noteq> CHR ''x''" by (auto simp: is_digit_def)
    with Cons c show ?thesis by (auto simp: prefix_ci_def)
  qed
qed

text \<open>A character that cannot continue a decimal number.\<close>

definition ends_number :: "string \<Rightarrow> bool" where
  "ends_number r \<longleftrightarrow> (r = [] \<or> (\<not> is_digit (hd r) \<and> hd r \<noteq> CHR ''.'' \<and>
     lower (hd r) \<noteq> CHR ''e'' \<and> lower (hd r) \<noteq> CHR ''x''))"

lemma strtod_dec_nat:
  assumes "ends_number r"
  shows "strtod (dec_nat n @ r) = (round_double False n 1, r)"
proof -
  have d: "read_digits 0 (dec_nat n @ r) = (n, r)"
    using assms by (intro read_digits_dec_nat_stop) (auto simp: ends_number_def)
  have m: "read_mantissa read_digits (dec_nat n @ r) = Some (n, 0, r)"
    unfolding read_mantissa_def d Let_def prod.case
    using assms by (cases r) (auto simp: ends_number_def)
  have e: "read_exponent CHR ''e'' r = (0, r)"
    using assms by (cases r) (auto simp: read_exponent_def ends_number_def)
  have x: "\<not> prefix_ci ''0x'' (dec_nat n @ r)"
    using assms by (intro not_hex_prefix) (auto simp: ends_number_def)
  have l: "\<not> is_digit CHR ''i''" "\<not> is_digit CHR ''n''" by (simp_all add: is_digit_def)
  show ?thesis
    by (simp add: strtod_def dropWhile_space_dec_nat strip_sign_dec_nat x m e
        prefix_ci_dec_nat l)
qed

lemma size_multiplier_ends: "size_multiplier u = Some m \<Longrightarrow> ends_number (u # r)"
proof -
  assume "size_multiplier u = Some m"
  then have "u \<in> set ''KkMmGgTt''"
    by (rule contrapos_pp) (simp add: size_multiplier_def)
  then show ?thesis
    by (auto simp: ends_number_def is_digit_def lower_eq_ex lower_eq_x)
qed

lemma size_multiplier_range:
  "size_multiplier u \<in> {None, Some (2 ^ 10), Some (2 ^ 20), Some (2 ^ 30), Some (2 ^ 40)}"
  unfolding size_multiplier_def by simp

lemma size_multiplier_pow:
  assumes "size_multiplier u = Some m"
  obtains j where "m = 2 ^ j" and "j \<le> 40"
proof -
  have "m = 2 ^ 10 \<or> m = 2 ^ 20 \<or> m = 2 ^ 30 \<or> m = 2 ^ 40"
    using assms size_multiplier_range [of u] by simp
  then show thesis
    using that [of 10] that [of 20] that [of 30] that [of 40] by linarith
qed

text \<open>The unit letters and the power of 1024 each stands for.\<close>

definition unit_powers :: "(char \<times> nat) list" where
  "unit_powers = [(CHR ''K'', 1), (CHR ''k'', 1), (CHR ''M'', 2), (CHR ''m'', 2),
     (CHR ''G'', 3), (CHR ''g'', 3), (CHR ''T'', 4), (CHR ''t'', 4)]"

lemma size_multiplier_unit: "(u, k) \<in> set unit_powers \<Longrightarrow> size_multiplier u = Some (1024 ^ k)"
  by (simp add: unit_powers_def, elim disjE) (simp_all add: size_multiplier_def)

text \<open>C17. A whole number below \<open>2 ^ 53\<close> followed by one of the letters K, M, G, T, in either case, is
  parsed exactly, in spite of the detour through floating point: as the number times the power of
  1024 of the letter. Whatever follows the letter is ignored, so that \<^verbatim>\<open>10MB\<close>, \<^verbatim>\<open>10Mxyz\<close> and
  \<^verbatim>\<open>10M\<close> are the same size.\<close>

theorem parse_size_unit:
  assumes "n < 2 ^ 53" and "(u, k) \<in> set unit_powers" and "in_int64 (int n * 1024 ^ k)"
  shows "parse_size (dec_nat n @ u # rest) = Some (int n * 1024 ^ k)"
proof -
  note m = size_multiplier_unit [OF assms(2)]
  from m obtain j where j: "1024 ^ k = (2 :: int) ^ j" "j \<le> 40" by (rule size_multiplier_pow)
  have "strtod (dec_nat n @ u # rest) = (round_double False n 1, u # rest)"
    using size_multiplier_ends [OF m] by (rule strtod_dec_nat)
  moreover have "u # rest \<noteq> dec_nat n @ u # rest" by (metis append_self_conv2 dec_nat_nonempty)
  moreover have "int64_of_double (dmul (round_double False n 1) (double_of_int (1024 ^ k))) = Some (int n * 1024 ^ k)"
    using exact_scaling [OF assms(1) j(2)] assms(3) unfolding j(1) by simp
  ultimately show ?thesis using m unfolding parse_size_def by simp
qed

lemma parse_size_plain:
  assumes "n < 2 ^ 53"
  shows "parse_size (dec_nat n) = Some (int n)"
proof -
  have "strtod (dec_nat n) = (round_double False n 1, [])"
    using strtod_dec_nat [of "[]" n] by (simp add: ends_number_def)
  moreover have "in_int64 (int n)"
    using assms by (simp add: in_int64_def INT64_MIN_def INT64_MAX_def)
  then have "int64_of_double (dmul (round_double False n 1) (double_of_int 1)) = Some (int n)"
    using exact_scaling [OF assms, of 0] by simp
  ultimately show ?thesis unfolding parse_size_def by (simp add: dec_nat_nonempty [symmetric])
qed

text \<open>A number followed by a character that is no unit letter is the size \<open>-1\<close>, which the
  configuration reads as unlimited.\<close>

theorem parse_size_unknown_unit:
  assumes "ends_number (u # rest)" and "size_multiplier u = None"
  shows "parse_size (dec_nat n @ u # rest) = Some (- 1)"
proof -
  have "u # rest \<noteq> dec_nat n @ u # rest" by (metis append_self_conv2 dec_nat_nonempty)
  with strtod_dec_nat [OF assms(1), of n] assms(2) show ?thesis
    unfolding parse_size_def by simp
qed

theorem parse_size_unit_witness:
  "parse_size ''512MiB'' = Some 536870912"
proof -
  have "parse_size (dec_nat 512 @ CHR ''M'' # ''iB'') = Some (int 512 * 1024 ^ 2)"
    by (rule parse_size_unit) (simp_all add: unit_powers_def eval_simps)
  then show ?thesis by (simp add: eval_simps)
qed

theorem parse_size_unknown_unit_witness:
  "parse_size ''512 M'' = Some (- 1)"
proof -
  have "parse_size (dec_nat 512 @ CHR '' '' # ''M'') = Some (- 1)"
    by (rule parse_size_unknown_unit) (simp_all add: size_multiplier_def ends_number_def eval_simps)
  then show ?thesis by (simp add: eval_simps)
qed

section \<open>Formatting sizes: floating point against exact arithmetic\<close>

lemma round_half_even_scale:
  assumes "0 < c" shows "round_half_even (n * c) (d * c) = round_half_even n d"
proof -
  have "2 * (n mod d * c) < d * c \<longleftrightarrow> 2 * (n mod d) < d"
    using assms by (metis mult.assoc mult_less_cancel2)
  moreover have "2 * (n mod d * c) = d * c \<longleftrightarrow> 2 * (n mod d) = d"
    using assms by (metis mult.assoc mult_cancel2 neq0_conv)
  ultimately show ?thesis
    using assms by (simp add: round_half_even_def Let_def mult_mod_left [symmetric])
qed

text \<open>The number of units of 1024 that a size is divided by: at most four.\<close>

definition unit_of :: "nat \<Rightarrow> nat" where
  "unit_of n = (if n < 1024 then 0 else if n < 1024 ^ 2 then 1 else if n < 1024 ^ 3 then 2
                else if n < 1024 ^ 4 then 3 else 4)"

text \<open>The text of a size in exact integer arithmetic: hundredths of the unit, half to even.\<close>

definition size_spec :: "nat \<Rightarrow> string" where
  "size_spec n =
     (let j = unit_of n; q = round_half_even (100 * n) (1024 ^ j)
      in if j = 0 then dec_nat n @ '' B''
         else dec_nat (q div 100) @ ''.'' @ pad2 (q mod 100) @ '' '' @ size_units ! j)"

text \<open>The double that holds \<open>n / 1024 ^ i\<close> exactly.\<close>

definition scaled_double :: "nat \<Rightarrow> nat \<Rightarrow> double" where
  "scaled_double n i = Fin (int (n * 2 ^ (53 - bit_len n))) (- int (53 - bit_len n + 10 * i))"

lemma ddiv2_scaled_double:
  assumes "0 < n" and "n < 2 ^ 53" and "i \<le> 4"
  shows "ddiv2 10 (scaled_double n i) = scaled_double n (Suc i)"
proof -
  let ?l = "bit_len n" and ?b = "53 - bit_len n + 10 * Suc i"
  have e: "- int (53 - ?l + 10 * i) - int 10 = - int ?b" by simp
  have "ddiv2 10 (scaled_double n i) = double_of_dyadic (int (n * 2 ^ (53 - ?l))) (- int ?b)"
    unfolding scaled_double_def ddiv2.simps e ..
  also have "\<dots> = round_double False (n * 2 ^ (53 - ?l)) (2 ^ ?b)" by (rule double_of_dyadic_nat)
  also have "\<dots> = Fin (int n * 2 ^ (53 - ?l)) (int ?l + int (53 - ?l) - int ?b - 53)"
    using round_double_exact [of n ?b "53 - ?l" False] assms by simp
  also have "int ?l + int (53 - ?l) - int ?b - 53 = - int ?b"
    using bit_len_le [OF assms(2)] by simp
  finally show ?thesis by (simp add: scaled_double_def)
qed

lemma dge_dyadic: "dge_int (Fin m (- int b)) k \<longleftrightarrow> k * 2 ^ b \<le> m"
  by (cases "b = 0") simp_all

lemma dge_scaled_double:
  assumes "0 < n"
  shows "dge_int (scaled_double n i) 1024 \<longleftrightarrow> 1024 ^ Suc i \<le> n"
proof -
  let ?s = "53 - bit_len n"
  have p: "(2 :: nat) ^ (?s + 10 * i) = 2 ^ ?s * 1024 ^ i"
    by (simp add: power_add power_mult)
  have "dge_int (scaled_double n i) 1024 \<longleftrightarrow> 1024 * 2 ^ (?s + 10 * i) \<le> int (n * 2 ^ ?s)"
    unfolding scaled_double_def dge_dyadic ..
  also have "\<dots> \<longleftrightarrow> int (1024 * 2 ^ (?s + 10 * i)) \<le> int (n * 2 ^ ?s)" by simp
  also have "\<dots> \<longleftrightarrow> 1024 ^ Suc i * 2 ^ ?s \<le> n * 2 ^ ?s"
    unfolding of_nat_le_iff p by (simp add: ac_simps)
  finally show ?thesis by simp
qed

lemma unit_of_less: "i < 4 \<Longrightarrow> 1024 ^ Suc i \<le> n \<longleftrightarrow> i < unit_of n"
proof -
  assume "i < 4"
  then have "i \<in> {0, 1, 2, 3}" by auto
  then show ?thesis by (elim insertE emptyE) (simp_all add: unit_of_def)
qed

lemma unit_of_le: "unit_of n \<le> 4"
  by (simp add: unit_of_def)

lemma scale_units_exact:
  assumes "0 < n" and "n < 2 ^ 53" and "i \<le> unit_of n"
  shows "scale_units (scaled_double n i) i = (scaled_double n (unit_of n), unit_of n)"
  using assms(3)
proof (induction "4 - i" arbitrary: i)
  case 0
  then have "i = 4" "unit_of n = 4" using unit_of_le [of n] by auto
  then show ?case by (simp add: scale_units.simps)
next
  case (Suc k)
  then have "i < 4" by simp
  then have g: "dge_int (scaled_double n i) 1024 \<and> i < 4 \<longleftrightarrow> i < unit_of n"
    using dge_scaled_double [OF assms(1)] unit_of_less by blast
  show ?case
  proof (cases "i < unit_of n")
    case True
    with g have "dge_int (scaled_double n i) 1024" by blast
    with True Suc.hyps \<open>i < 4\<close> show ?thesis
      by (subst scale_units.simps) (simp add: ddiv2_scaled_double [OF assms(1,2)])
  next
    case False
    with g have stop: "\<not> (dge_int (scaled_double n i) 1024 \<and> i < 4)" by blast
    have "scale_units (scaled_double n i) i = (scaled_double n i, i)"
      by (subst scale_units.simps) (rule if_not_P [OF stop])
    with False Suc.prems show ?thesis by simp
  qed
qed

lemma fmt_f2_dyadic:
  "fmt_f2 (Fin (int a) (- int b)) =
     (let q = round_half_even (a * 100) (2 ^ b) in dec_nat (q div 100) @ ''.'' @ pad2 (q mod 100))"
  using round_half_even_exact [of 1 "a * 100"] by (cases "b = 0") (simp_all add: Let_def)

lemma fmt_f2_scaled:
  "fmt_f2 (scaled_double n j) =
     (let q = round_half_even (100 * n) (1024 ^ j) in dec_nat (q div 100) @ ''.'' @ pad2 (q mod 100))"
proof -
  let ?s = "53 - bit_len n"
  have "(2 :: nat) ^ (?s + 10 * j) = 1024 ^ j * 2 ^ ?s"
    by (simp add: power_add power_mult)
  then have "round_half_even (n * 2 ^ ?s * 100) (2 ^ (?s + 10 * j))
      = round_half_even (100 * n * 2 ^ ?s) (1024 ^ j * 2 ^ ?s)"
    by (simp add: ac_simps)
  also have "\<dots> = round_half_even (100 * n) (1024 ^ j)" by (rule round_half_even_scale) simp
  finally show ?thesis unfolding scaled_double_def fmt_f2_dyadic by (simp only: Let_def)
qed

text \<open>C39. \<^verbatim>\<open>format_size\<close> of a size below \<open>2 ^ 53\<close>: the loop of floating-point divisions prints
  what exact integer arithmetic gives, the size in the largest unit up to TB that leaves a value
  of at least 1, to two decimals rounded half to even.\<close>

theorem size_text_spec:
  assumes "sint bytes = int n" and "n < 2 ^ 53"
  shows "size_text bytes = size_spec n"
proof (cases "n = 0")
  case True
  then have "double_of_int (sint bytes) = Fin 0 0"
    using assms(1) by (simp add: double_of_int_def round_double_def)
  with assms(1) True show ?thesis
    by (simp add: size_text_def scale_units.simps size_spec_def unit_of_def size_units_def
        dec_int_def)
next
  case False
  then have n: "0 < n" by simp
  have "double_of_int (sint bytes) = scaled_double n 0"
    using round_double_nat_exact [OF n assms(2), of False] bit_len_le [OF assms(2)] assms(1)
    by (simp add: double_of_int_def scaled_double_def)
  then have "scale_units (double_of_int (sint bytes)) 0 = (scaled_double n (unit_of n), unit_of n)"
    using scale_units_exact [OF n assms(2), of 0] by simp
  with assms(1) show ?thesis
    by (simp add: size_text_def size_spec_def fmt_f2_scaled size_units_def dec_int_def Let_def)
qed

theorem size_text_spec_witness: "size_text 1536 = ''1.50 KB''"
proof -
  have "size_text 1536 = size_spec 1536" by (rule size_text_spec) simp_all
  then show ?thesis
    by (simp add: size_spec_def unit_of_def size_units_def eval_simps)
qed

section \<open>Files: lemmas\<close>

lemma frame_file_exists [frame_rules]: "frame s t \<Longrightarrow> frame s (snd (file_exists K path t))"
  by (simp add: file_exists_def split_beta frame_rules)

lemma frame_write_file [frame_rules]: "frame s t \<Longrightarrow> frame s (snd (write_file K path content t))"
  by (simp add: write_file_def split_beta Let_def frame_rules)

text \<open>\<^verbatim>\<open>write_file\<close> opens, writes and closes, and its result is \<^verbatim>\<open>CR_OK\<close> as soon as the file
  could be opened: whether the text reached the file (the results of \<^verbatim>\<open>fputs\<close> and \<^verbatim>\<open>fclose\<close>)
  plays no part.\<close>

theorem write_file_result:
  "\<exists>f r1 r2. if ret f < 0
     then fst (write_file K path content s) = CR_ESYSCALL \<and>
          effects (snd (write_file K path content s)) = effects s @ [(Sys_fopen path ''w'', f)]
     else fst (write_file K path content s) = CR_OK \<and>
          effects (snd (write_file K path content s)) = effects s @
            [(Sys_fopen path ''w'', f), (Sys_fputs (ret f) content, r1), (Sys_fclose (ret f), r2)]"
proof -
  obtain f s1 where 1: "sys K (Sys_fopen path ''w'') s = (f, s1)" by force
  obtain r1 s2 where 2: "sys K (Sys_fputs (ret f) content) s1 = (r1, s2)" by force
  obtain r2 s3 where 3: "sys K (Sys_fclose (ret f)) s2 = (r2, s3)" by force
  from effects_sys [OF 1] effects_sys [OF 2] effects_sys [OF 3] show ?thesis
    by (intro exI [of _ f] exI [of _ r1] exI [of _ r2]) (simp add: write_file_def 1 2 3)
qed

text \<open>A system on which the path names a readable regular file with the given contents, and
  which has memory left: what \<^verbatim>\<open>fopen\<close>, \<^verbatim>\<open>ftell\<close> at the end, \<^verbatim>\<open>malloc\<close> and \<^verbatim>\<open>fread\<close> then answer.\<close>

definition serves_file :: "'k kernel \<Rightarrow> string \<Rightarrow> string \<Rightarrow> bool" where
  "serves_file K path d \<longleftrightarrow>
     (\<forall>k. 0 \<le> ret (fst (kcall K (Sys_fopen path ''r'') k))) \<and>
     (\<forall>f k. ret (fst (kcall K (Sys_ftell f) k)) = int (length d)) \<and>
     (\<forall>n k. 0 \<le> ret (fst (kcall K (Sys_malloc n) k))) \<and>
     (\<forall>f k. dat (fst (kcall K (Sys_fread f (length d)) k)) = d)"

lemma fst_sys: "fst (sys K q s) = fst (kcall K q (kst s))"
  by (simp add: sys_def split_beta)

text \<open>\<^verbatim>\<open>read_file\<close> of a readable regular file returns a buffer that holds exactly the contents
  of the file, terminated.\<close>

theorem read_file_contents:
  assumes "serves_file K path d" and "is_cstr d" and "int (length d) < INT64_MAX"
  shows "\<exists>b t. read_file K path s = Some (Some b, t) \<and> cbuf_str b = Some d"
proof -
  have a: "in_int64 (int (length d) + 1)" "nat (int (length d)) = length d"
    using assms(3) by (simp_all add: in_int64_def INT64_MIN_def INT64_MAX_def)
  have "\<exists>t. read_file K path s = Some (Some (of_lit d), t)"
    using assms(1) a
    by (simp add: read_file_def serves_file_def Let_def split_beta fst_sys of_lit_def linorder_not_less)
  with assms(2) show ?thesis by auto
qed

definition opens_unseekable :: "'k kernel \<Rightarrow> string \<Rightarrow> bool" where
  "opens_unseekable K path \<longleftrightarrow>
     (\<forall>k. 0 \<le> ret (fst (kcall K (Sys_fopen path ''r'') k))) \<and>
     (\<forall>f k. ret (fst (kcall K (Sys_ftell f) k)) = - 1) \<and>
     (\<forall>n k. 0 \<le> ret (fst (kcall K (Sys_malloc n) k)))"

text \<open>\<^verbatim>\<open>read_file\<close> of a path that opens but cannot be sought (a pipe: \<^verbatim>\<open>ftell\<close> answers \<open>-1\<close>) is
  undefined: the terminator is stored before the start of the allocation.\<close>

theorem read_file_unseekable:
  assumes "opens_unseekable K path"
  shows "read_file K path s = None"
  using assms
  by (simp add: read_file_def opens_unseekable_def Let_def split_beta fst_sys linorder_not_less
      in_int64_def INT64_MIN_def INT64_MAX_def)

theorem read_file_contents_witness:
  "\<exists>b t. read_file (scripted (\<lambda>q. case q of Sys_ftell f \<Rightarrow> answer 4 [] | _ \<Rightarrow> answer 3 ''1234''))
      ''/etc/x'' st0 = Some (Some b, t) \<and> cbuf_str b = Some ''1234''"
  by (rule read_file_contents)
    (simp_all add: serves_file_def scripted_def answer_def INT64_MAX_def)

theorem read_file_unseekable_witness:
  "read_file (scripted (\<lambda>q. case q of Sys_ftell f \<Rightarrow> failure 29 | _ \<Rightarrow> answer 3 [])) ''/pipe'' st0 = None"
  by (rule read_file_unseekable)
    (simp add: opens_unseekable_def scripted_def answer_def failure_def)

theorem generate_id_urandom_witness:
  "\<exists>b t ident. generate_id (scripted (\<lambda>_. answer 3 (replicate 32 CHR ''a''))) (zeroed 65) 65 st0 = Some (b, t) \<and>
     cbuf_str b = Some ident \<and> length ident = 32"
proof -
  let ?K = "scripted (\<lambda>_. answer 3 (replicate 32 CHR ''a''))"
  obtain f s1 where 1: "sys ?K (Sys_fopen ''/dev/urandom'' ''r'') st0 = (f, s1)" by force
  obtain r s2 where 2: "sys ?K (Sys_fread (ret f) 32) s1 = (r, s2)" by force
  have "0 \<le> ret f" "32 \<le> length (dat r)" using 1 2 by (auto simp: sys_scripted answer_def)
  with generate_id_urandom [OF 1 _ 2] show ?thesis by blast
qed

theorem generate_id_fallback_witness:
  "\<exists>b t ident. generate_id (scripted (\<lambda>_. failure 2)) (zeroed 65) 65 st0 = Some (b, t) \<and>
     cbuf_str b = Some ident \<and> length ident = 64"
proof -
  let ?K = "scripted (\<lambda>_. failure 2)"
  obtain f s1 where 1: "sys ?K (Sys_fopen ''/dev/urandom'' ''r'') st0 = (f, s1)" by force
  have "ret f < 0" using 1 by (auto simp: sys_scripted failure_def)
  with generate_id_fallback [OF 1, of 65 "zeroed 65"] show ?thesis by (auto simp: zeroed_def)
qed

end
