(* ===== verification/Cgroups.thy ===== *)
theory Cgroups
  imports Utils
begin

text \<open>
  \<^verbatim>\<open>src/cgroup/cgroup.c\<close>: the cgroup v2 directory of a container and its control files. Every
  control goes through \<^verbatim>\<open>cgroup_write_file\<close>; what a sequence of requests has written is the
  list of its completed writes (path and value), and the interface \<open>file_writer\<close> states what
  the operations rely on: every write is one attempt at the file, and reports \<^verbatim>\<open>CR_OK\<close> exactly when the
  attempt was accepted as a whole.
  \<^verbatim>\<open>cgroup_apply_limits\<close> is compared with the table \<open>limit_writes\<close> of the controls a
  configuration asks for.
\<close>

section \<open>The code\<close>

definition CGROUP_ROOT :: string where "CGROUP_ROOT = ''/sys/fs/cgroup''"
definition CGROUP_CONTAINER_PREFIX :: string where "CGROUP_CONTAINER_PREFIX = ''cruntime''"

definition cgroup_write_file :: "'k kernel \<Rightarrow> string \<Rightarrow> string \<Rightarrow> 'k st \<Rightarrow> int \<times> 'k st" where
  "cgroup_write_file K path val s =
     (let (fd, s) = sys K (Sys_open path (O_WRONLY OR O_CREAT OR O_TRUNC) 420) s in
      if ret fd < 0 then
        (CR_ESYSCALL, cr_log K LOG_ERROR
           (''Failed to open cgroup file '' @ path @ '': '' @ strerror_errno K s) s)
      else
        let (n, s) = sys K (Sys_write (ret fd) val) s in
        if ret n \<noteq> int (length val) then
          (let s = cr_log K LOG_ERROR (''Failed to write to '' @ path @ '': '' @ strerror_errno K s) s;
               (_, s) = sys K (Sys_close (ret fd)) s
           in (CR_ESYSCALL, s))
        else
          (let (_, s) = sys K (Sys_close (ret fd)) s in (CR_OK, s)))"

text \<open>The string left in the buffer, when the file could be read: at most \<open>sz - 1\<close> bytes.\<close>

definition cgroup_read_file :: "'k kernel \<Rightarrow> string \<Rightarrow> nat \<Rightarrow> 'k st \<Rightarrow> (int \<times> string) \<times> 'k st" where
  "cgroup_read_file K path sz s =
     (let (fd, s) = sys K (Sys_open path O_RDONLY 0) s in
      if ret fd < 0 then ((CR_ESYSCALL, []), s)
      else
        let (bytes, s) = sys K (Sys_read (ret fd) (sz - 1)) s;
            (_, s) = sys K (Sys_close (ret fd)) s
        in if ret bytes < 0 then ((CR_ESYSCALL, []), s)
           else ((CR_OK, takeWhile (\<lambda>c. c \<noteq> NUL) (take (min (nat (ret bytes)) (sz - 1)) (dat bytes))), s))"

definition is_cgroup_v2 :: "'k kernel \<Rightarrow> 'k st \<Rightarrow> bool \<times> 'k st" where
  "is_cgroup_v2 K s =
     (let (st, s) = sys K (Sys_stat ''/sys/fs/cgroup/cgroup.controllers'') s in (ret st = 0, s))"

text \<open>\<^verbatim>\<open>cgroup_create(container_id, cgroup_path, path_len)\<close>: the result code and the string in
  \<^verbatim>\<open>cgroup_path\<close>, which keeps its old contents when nothing is formatted into it.\<close>

definition cgroup_create ::
  "'k kernel \<Rightarrow> string \<Rightarrow> string \<Rightarrow> nat \<Rightarrow> 'k st \<Rightarrow> (int \<times> string) \<times> 'k st" where
  "cgroup_create K container_id old path_len s =
     (let (v2, s) = is_cgroup_v2 K s in
      if \<not> v2 then ((CR_ERROR, old), cr_log K LOG_ERROR ''cgroups v2 required but not available'' s)
      else
        let path = (if path_len = 0 then old
                    else snprintf path_len
                      (CGROUP_ROOT @ ''/'' @ CGROUP_CONTAINER_PREFIX @ ''/'' @ container_id));
            parent_path = snprintf MAX_PATH_LEN (CGROUP_ROOT @ ''/'' @ CGROUP_CONTAINER_PREFIX);
            (_, s) = sys K (Sys_mkdir parent_path 493) s;
            (r, s) = sys K (Sys_mkdir path 493) s
        in
        if ret r < 0 \<and> errno s \<noteq> EEXIST then
          ((CR_ESYSCALL, path), cr_log K LOG_ERROR
             (''Failed to create cgroup directory '' @ path @ '': '' @ strerror_errno K s) s)
        else
          let subtree_path = snprintf MAX_PATH_LEN (parent_path @ ''/cgroup.subtree_control'');
              (_, s) = cgroup_write_file K subtree_path ''+cpu +memory +io +pids'' s
          in ((CR_OK, path), cr_log K LOG_DEBUG (''Created cgroup at '' @ path) s))"

text \<open>CPU shares (2 to 262144) to a weight (1 to 10000). The product overflows, undefined for a
  signed \<open>int64_t\<close>, above 922337203685477 shares.\<close>

definition cpu_weight :: "64 word \<Rightarrow> int option" where
  "cpu_weight shares =
     (let p = sint shares * 10000 in
      if in_int64 p then
        (let weight = p div 262144;
             weight = (if weight < 1 then 1 else weight)
         in Some (if 10000 < weight then 10000 else weight))
      else None)"

text \<open>One control: the write, and the warning or debug message about it.\<close>

definition apply_control :: "'k kernel \<Rightarrow> string \<Rightarrow> string \<Rightarrow> string \<Rightarrow> string \<Rightarrow> 'k st \<Rightarrow> 'k st" where
  "apply_control K file_path val warn dbg s =
     (let (rc, s) = cgroup_write_file K file_path val s
      in if rc \<noteq> CR_OK then cr_log K LOG_WARN warn s else cr_log K LOG_DEBUG dbg s)"

text \<open>\<^verbatim>\<open>if (c) { ... }\<close> around a step.\<close>

definition when_st :: "bool \<Rightarrow> ('s \<Rightarrow> 's) \<Rightarrow> 's \<Rightarrow> 's" where
  "when_st c f s = (if c then f s else s)"

definition cgroup_apply_limits ::
  "'k kernel \<Rightarrow> string \<Rightarrow> resource_limits_t \<Rightarrow> 'k st \<Rightarrow> (int \<times> 'k st) option" where
  "cgroup_apply_limits K cgroup_path lim s = do {
     let file = (\<lambda>name. snprintf MAX_PATH_LEN (cgroup_path @ name));
     let num = (\<lambda>w :: 64 word. dec_int (sint w));
     let s = when_st (0 < sint (memory_limit lim))
       (apply_control K (file ''/memory.max'') (snprintf 256 (num (memory_limit lim)))
          ''Failed to set memory limit''
          (''Set memory limit to '' @ num (memory_limit lim) @ '' bytes'')) s;
     let s = when_st (0 < sint (memory_swap lim))
       (\<lambda>s. snd (cgroup_write_file K (file ''/memory.swap.max'')
                  (snprintf 256 (num (memory_swap lim))) s)) s;
     s \<leftarrow> (if 0 < sint (cpu_shares lim)
           then do {
             weight \<leftarrow> cpu_weight (cpu_shares lim);
             Some (apply_control K (file ''/cpu.weight'') (snprintf 256 (dec_int weight))
                     ''Failed to set CPU weight'' (''Set CPU weight to '' @ dec_int weight) s)
           }
           else Some s);
     let s = when_st (0 < sint (cpu_quota lim) \<and> 0 < sint (cpu_period lim))
       (apply_control K (file ''/cpu.max'')
          (snprintf 256 (num (cpu_quota lim) @ '' '' @ num (cpu_period lim)))
          ''Failed to set CPU quota''
          (''Set CPU quota '' @ num (cpu_quota lim) @ ''/'' @ num (cpu_period lim))) s;
     let s = when_st (0 < sint (pids_limit lim))
       (apply_control K (file ''/pids.max'') (snprintf 256 (num (pids_limit lim)))
          ''Failed to set PIDs limit'' (''Set PIDs limit to '' @ num (pids_limit lim))) s;
     let s = when_st (0 < sint (blkio_weight lim))
       (apply_control K (file ''/io.weight'') (snprintf 256 (''default '' @ num (blkio_weight lim)))
          ''Failed to set I/O weight'' (''Set I/O weight to '' @ num (blkio_weight lim))) s;
     Some (CR_OK, s)
   }"

definition cgroup_add_process :: "'k kernel \<Rightarrow> string \<Rightarrow> 32 word \<Rightarrow> 'k st \<Rightarrow> int \<times> 'k st" where
  "cgroup_add_process K cgroup_path pid s =
     (let procs_path = snprintf MAX_PATH_LEN (cgroup_path @ ''/cgroup.procs'');
          pid_str = snprintf 32 (dec_int (sint pid));
          (rc, s) = cgroup_write_file K procs_path pid_str s
      in if rc \<noteq> CR_OK then
           (CR_ESYSCALL, cr_log K LOG_ERROR
              (''Failed to add process '' @ dec_int (sint pid) @ '' to cgroup'') s)
         else
           (CR_OK, cr_log K LOG_DEBUG
              (''Added process '' @ dec_int (sint pid) @ '' to cgroup '' @ cgroup_path) s))"

definition stats_line ::
  "'k kernel \<Rightarrow> string \<Rightarrow> string \<Rightarrow> string \<Rightarrow> nat \<Rightarrow> cbuf \<times> nat \<times> 'k st \<Rightarrow> (cbuf \<times> nat \<times> 'k st) option" where
  "stats_line K file before after buffer_size acc =
     (let (buf, offset, s) = acc; ((rc, val), s) = cgroup_read_file K file 256 s
      in if rc = CR_OK
         then map_option (\<lambda>(b, n). (b, n, s)) (stats_append buf offset buffer_size (before @ val @ after))
         else Some (buf, offset, s))"

definition cgroup_get_stats ::
  "'k kernel \<Rightarrow> string \<Rightarrow> cbuf \<Rightarrow> nat \<Rightarrow> 'k st \<Rightarrow> ((int \<times> cbuf) \<times> 'k st) option" where
  "cgroup_get_stats K cgroup_path stats_buffer buffer_size s = do {
     let file = (\<lambda>name. snprintf MAX_PATH_LEN (cgroup_path @ name));
     acc \<leftarrow> stats_line K (file ''/memory.current'') ''Memory: '' ('' bytes'' @ [CHR 0x0A]) buffer_size
              (stats_buffer, 0, s);
     acc \<leftarrow> stats_line K (file ''/memory.max'') ''Memory Limit: '' [CHR 0x0A] buffer_size acc;
     acc \<leftarrow> stats_line K (file ''/cpu.stat'') ''CPU Stats: '' [] buffer_size acc;
     (buf, offset, s) \<leftarrow> stats_line K (file ''/pids.current'') ''PIDs: '' [CHR 0x0A] buffer_size acc;
     Some ((CR_OK, buf), s)
   }"

definition cgroup_freeze :: "'k kernel \<Rightarrow> string \<Rightarrow> 'k st \<Rightarrow> int \<times> 'k st" where
  "cgroup_freeze K cgroup_path s =
     (let freeze_path = snprintf MAX_PATH_LEN (cgroup_path @ ''/cgroup.freeze'');
          (rc, s) = cgroup_write_file K freeze_path ''1'' s
      in if rc \<noteq> CR_OK then (CR_ESYSCALL, cr_log K LOG_ERROR ''Failed to freeze cgroup'' s)
         else (CR_OK, cr_log K LOG_DEBUG (''Froze cgroup '' @ cgroup_path) s))"

definition cgroup_unfreeze :: "'k kernel \<Rightarrow> string \<Rightarrow> 'k st \<Rightarrow> int \<times> 'k st" where
  "cgroup_unfreeze K cgroup_path s =
     (let freeze_path = snprintf MAX_PATH_LEN (cgroup_path @ ''/cgroup.freeze'');
          (rc, s) = cgroup_write_file K freeze_path ''0'' s
      in if rc \<noteq> CR_OK then (CR_ESYSCALL, cr_log K LOG_ERROR ''Failed to unfreeze cgroup'' s)
         else (CR_OK, cr_log K LOG_DEBUG (''Unfroze cgroup '' @ cgroup_path) s))"

definition cgroup_kill_all :: "'k kernel \<Rightarrow> string \<Rightarrow> 'k st \<Rightarrow> int \<times> 'k st" where
  "cgroup_kill_all K cgroup_path s =
     (let kill_path = snprintf MAX_PATH_LEN (cgroup_path @ ''/cgroup.kill'');
          (rc, s) = cgroup_write_file K kill_path ''1'' s
      in if rc \<noteq> CR_OK then (CR_ESYSCALL, cr_log K LOG_ERROR ''Failed to kill cgroup processes'' s)
         else (CR_OK, cr_log K LOG_DEBUG (''Killed all processes in cgroup '' @ cgroup_path) s))"

definition cgroup_destroy :: "'k kernel \<Rightarrow> string \<Rightarrow> 'k st \<Rightarrow> int \<times> 'k st" where
  "cgroup_destroy K cgroup_path s =
     (let (_, s) = cgroup_kill_all K cgroup_path s;
          (_, s) = sys K (Sys_usleep 100000) s;
          (r, s) = sys K (Sys_rmdir cgroup_path) s
      in if ret r < 0 \<and> errno s \<noteq> ENOENT then
           (CR_ESYSCALL, cr_log K LOG_ERROR
              (''Failed to remove cgroup '' @ cgroup_path @ '': '' @ strerror_errno K s) s)
         else (CR_OK, cr_log K LOG_DEBUG (''Destroyed cgroup '' @ cgroup_path) s))"

section \<open>Completed writes\<close>

definition opened_by :: "sysreq \<times> sysres \<Rightarrow> (string \<times> int) option" where
  "opened_by e = (case fst e of
     Sys_open p fl m \<Rightarrow> if 0 \<le> ret (snd e) then Some (p, ret (snd e)) else None
   | _ \<Rightarrow> None)"

definition written_by :: "sysreq \<times> sysres \<Rightarrow> (int \<times> string) option" where
  "written_by e = (case fst e of
     Sys_write fd v \<Rightarrow> if ret (snd e) = int (length v) then Some (fd, v) else None
   | _ \<Rightarrow> None)"

text \<open>The files written as a whole: an open that succeeded, and a full write to what it opened.\<close>

fun completed :: "(sysreq \<times> sysres) list \<Rightarrow> (string \<times> string) list" where
  "completed [] = []"
| "completed [e] = []"
| "completed (e # e' # es) =
     (case opened_by e of
        None \<Rightarrow> []
      | Some (p, fd) \<Rightarrow>
          (case written_by e' of None \<Rightarrow> [] | Some (fd', v) \<Rightarrow> if fd = fd' then [(p, v)] else []))
     @ completed (e' # es)"

definition written :: "'k st \<Rightarrow> (string \<times> string) list" where
  "written s = completed (effects s)"

lemma completed_append:
  "ys = [] \<or> written_by (hd ys) = None \<Longrightarrow> completed (xs @ ys) = completed xs @ completed ys"
proof (induction xs rule: completed.induct)
  case (2 e)
  then show ?case by (cases ys) (auto split: option.split)
qed auto

lemma completed_single [simp]: "written_by e = None \<Longrightarrow> completed (xs @ [e]) = completed xs"
  by (simp add: completed_append)

lemma written_cong: "effects t = effects s \<Longrightarrow> written t = written s"
  by (simp add: written_def)

lemma written_cr_log [simp]: "written (cr_log K level msg s) = written s"
  by (simp add: written_def)

lemma written_sys [simp]: "written_by (q, fst (sys K q s)) = None \<Longrightarrow> written (snd (sys K q s)) = written s"
  by (simp add: written_def effects_sys_snd)

text \<open>The requests of one attempt to write a control file: an open that fails, or an open, a write
  to what it opened and a close. The attempt is accepted if the write is complete.\<close>

fun attempt :: "string \<times> string \<Rightarrow> (sysreq \<times> sysres) list \<Rightarrow> bool" where
  "attempt (p, v) [(q, r)] \<longleftrightarrow> q = Sys_open p (O_WRONLY OR O_CREAT OR O_TRUNC) 420 \<and> ret r < 0"
| "attempt (p, v) [(q, r), (q', n), (q'', c)] \<longleftrightarrow>
     q = Sys_open p (O_WRONLY OR O_CREAT OR O_TRUNC) 420 \<and> 0 \<le> ret r \<and>
     q' = Sys_write (ret r) v \<and> q'' = Sys_close (ret r)"
| "attempt e es \<longleftrightarrow> False"

fun accepted :: "(sysreq \<times> sysres) list \<Rightarrow> bool" where
  "accepted [_, (Sys_write fd v, n), _] \<longleftrightarrow> ret n = int (length v)"
| "accepted es \<longleftrightarrow> False"

lemma attempt_cases:
  assumes "attempt (p, v) es"
  obtains (no_open) r where "ret r < 0" "es = [(Sys_open p (O_WRONLY OR O_CREAT OR O_TRUNC) 420, r)]"
  | (opened) r n c where "0 \<le> ret r" "es = [(Sys_open p (O_WRONLY OR O_CREAT OR O_TRUNC) 420, r),
      (Sys_write (ret r) v, n), (Sys_close (ret r), c)]"
  using assms by (cases "((p, v), es)" rule: attempt.cases) auto

lemma attempt_writes:
  assumes "attempt (p, v) es"
  shows "completed (xs @ es) = completed xs @ (if accepted es then [(p, v)] else [])"
  using assms by (cases rule: attempt_cases)
    (auto simp: completed_append written_by_def opened_by_def)

text \<open>The attempts of a step are those of a table, each made once and in its order, whatever became
  of the earlier ones.\<close>

definition wrote :: "bool \<Rightarrow> (string \<times> string) list \<Rightarrow> 'k st \<Rightarrow> 'k st \<Rightarrow> bool" where
  "wrote ok tbl s t \<longleftrightarrow> (\<exists>tries. list_all2 attempt tbl tries \<and> effects t = effects s @ concat tries \<and>
     (ok \<longrightarrow> list_all accepted tries))"

lemma wrote_Nil: "wrote ok [] s s"
  by (simp add: wrote_def)

lemma wrote_trans: "wrote ok y t u \<Longrightarrow> wrote ok x s t \<Longrightarrow> wrote ok (x @ y) s u"
  unfolding wrote_def
proof (elim exE conjE)
  fix b c
  assume "list_all2 attempt y b" "effects u = effects t @ concat b" "ok \<longrightarrow> list_all accepted b"
    and "list_all2 attempt x c" "effects t = effects s @ concat c" "ok \<longrightarrow> list_all accepted c"
  then show "\<exists>tries. list_all2 attempt (x @ y) tries \<and> effects u = effects s @ concat tries \<and> (ok \<longrightarrow> list_all accepted tries)"
    by (intro exI [of _ "c @ b"]) (simp add: list_all2_appendI)
qed

lemma attempts_written:
  "list_all2 attempt tbl tries \<Longrightarrow> effects t = effects s @ concat tries \<Longrightarrow>
   written t = written s @ map fst (filter (accepted \<circ> snd) (zip tbl tries))"
proof -
  assume a: "list_all2 attempt tbl tries" and e: "effects t = effects s @ concat tries"
  have "completed (xs @ concat tries) = completed xs @ map fst (filter (accepted \<circ> snd) (zip tbl tries))" for xs
    using a
  proof (induction arbitrary: xs rule: list_all2_induct)
    case (Cons e tbl es tries)
    obtain p v where "e = (p, v)" by (cases e)
    with Cons.hyps(1) Cons.IH [of "xs @ es"] show ?case by (simp add: attempt_writes)
  qed simp
  then show ?thesis by (simp add: written_def e)
qed

lemma subseq_map_filter_zip:
  "length xs = length ys \<Longrightarrow> subseq (map fst (filter P (zip xs ys))) xs"
  using subseq_map [OF subseq_filter_left, of fst P "zip xs ys"] by simp

lemma wrote_written:
  assumes "wrote ok tbl s t"
  shows "\<exists>ws. subseq ws tbl \<and> (ok \<longrightarrow> ws = tbl) \<and> written t = written s @ ws"
proof -
  obtain tries where t: "list_all2 attempt tbl tries" "effects t = effects s @ concat tries" "ok \<longrightarrow> list_all accepted tries"
    using assms by (auto simp: wrote_def)
  note l = list_all2_lengthD [OF t(1)]
  have "map fst (filter (accepted \<circ> snd) (zip tbl tries)) = tbl" if ok
    using that t(3) l by (subst filter_True) (auto simp: list_all_iff dest: set_zip_rightD)
  with attempts_written [OF t(1,2)] subseq_map_filter_zip [OF l] show ?thesis by blast
qed

section \<open>The file interface\<close>

text \<open>A write that is checked, and the report about it: the shape of the control operations.\<close>

definition checked_write ::
  "(string \<Rightarrow> string \<Rightarrow> 'k st \<Rightarrow> int \<times> 'k st) \<Rightarrow> string \<Rightarrow> string \<Rightarrow> ('k st \<Rightarrow> 'k st) \<Rightarrow> ('k st \<Rightarrow> 'k st) \<Rightarrow>
   'k st \<Rightarrow> int \<times> 'k st" where
  "checked_write wr p v on_fail on_ok s =
     (let (rc, s) = wr p v s
      in if rc \<noteq> CR_OK then (CR_ESYSCALL, on_fail s) else (CR_OK, on_ok s))"

locale file_writer =
  fixes wr :: "string \<Rightarrow> string \<Rightarrow> 'k st \<Rightarrow> int \<times> 'k st"
  assumes wr_frame: "frame s t \<Longrightarrow> frame s (snd (wr p v t))"
    and wr_rc: "fst (wr p v s) = CR_OK \<or> fst (wr p v s) = CR_ESYSCALL"
    and wr_attempt: "\<exists>es. effects (snd (wr p v s)) = effects s @ es \<and> attempt (p, v) es \<and> accepted es = (fst (wr p v s) = CR_OK)"
begin

lemma wr_written: "written (snd (wr p v s)) = written s @ (if fst (wr p v s) = CR_OK then [(p, v)] else [])"
  using wr_attempt [of p v s] by (auto simp: written_def attempt_writes)

lemma wrote_wr: "wrote (\<forall>p v s. fst (wr p v s) = CR_OK) [(p, v)] s (snd (wr p v s))"
proof -
  obtain es where "effects (snd (wr p v s)) = effects s @ es" "attempt (p, v) es" "accepted es = (fst (wr p v s) = CR_OK)"
    using wr_attempt by blast
  then show ?thesis unfolding wrote_def by (intro exI [of _ "[es]"]) auto
qed

lemma wrote_wr_when:
  "wrote (\<forall>p v s. fst (wr p v s) = CR_OK) (if c then [(p, v)] else []) s
     (when_st c (\<lambda>s. snd (wr p v s)) s)"
  using wrote_wr [of p v s] by (simp add: when_st_def wrote_Nil)

lemma checked_write_result:
  assumes "\<And>u. written (on_fail u) = written u" and "\<And>u. written (on_ok u) = written u"
    and "checked_write wr p v on_fail on_ok s = (rc, t)"
  shows "rc = CR_OK \<and> written t = written s @ [(p, v)] \<or> rc = CR_ESYSCALL \<and> written t = written s"
proof (cases "fst (wr p v s) = CR_OK")
  case True
  with assms wr_written [of p v s] show ?thesis by (auto simp: checked_write_def split_beta)
next
  case False
  with assms wr_written [of p v s] show ?thesis by (auto simp: checked_write_def split_beta)
qed

lemma checked_write_frame:
  assumes "\<And>u. frame s u \<Longrightarrow> frame s (on_fail u)" and "\<And>u. frame s u \<Longrightarrow> frame s (on_ok u)"
    and "frame s t"
  shows "frame s (snd (checked_write wr p v on_fail on_ok t))"
  using assms wr_frame [OF assms(3)] by (simp add: checked_write_def split_beta)

end

lemma frame_cgroup_write_file [frame_rules]:
  "frame s t \<Longrightarrow> frame s (snd (cgroup_write_file K p v t))"
  by (simp add: cgroup_write_file_def Let_def split_beta frame_rules)

text \<open>What a write adds to the effects: a failed open, or an open, a write and a close.\<close>

lemma effects_cgroup_write_file:
  assumes "cgroup_write_file K p v s = (rc, t)"
  obtains (no_open) r where "ret r < 0" "rc = CR_ESYSCALL"
      "effects t = effects s @ [(Sys_open p (O_WRONLY OR O_CREAT OR O_TRUNC) 420, r)]"
  | (opened) r n c where "0 \<le> ret r" "rc = (if ret n = int (length v) then CR_OK else CR_ESYSCALL)"
      "effects t = effects s @ [(Sys_open p (O_WRONLY OR O_CREAT OR O_TRUNC) 420, r),
         (Sys_write (ret r) v, n), (Sys_close (ret r), c)]"
proof -
  obtain r s1 where 1: "sys K (Sys_open p (O_WRONLY OR O_CREAT OR O_TRUNC) 420) s = (r, s1)" by force
  obtain n s2 where 2: "sys K (Sys_write (ret r) v) s1 = (n, s2)" by force
  note e = effects_sys [OF 1] effects_sys [OF 2]
  show thesis
  proof (cases "ret r < 0")
    case True
    with assms e no_open [of r] show thesis by (auto simp: cgroup_write_file_def 1)
  next
    case False
    show thesis
    proof (cases "ret n = int (length v)")
      case True
      with False assms e opened [of r n] show thesis
        by (auto simp: cgroup_write_file_def 1 2 effects_sys_snd split_beta)
    next
      case short: False
      with False assms e opened [of r n] show thesis
        by (auto simp: cgroup_write_file_def 1 2 effects_sys_snd split_beta)
    qed
  qed
qed

lemma attempt_cgroup_write_file:
  assumes "cgroup_write_file K p v s = (rc, t)"
  shows "\<exists>es. effects t = effects s @ es \<and> attempt (p, v) es \<and> accepted es = (rc = CR_OK)"
  using assms by (rule effects_cgroup_write_file) (force simp: CR_OK_def CR_ESYSCALL_def)+

interpretation cw: file_writer "cgroup_write_file K" for K :: "'k kernel"
proof
  show "fst (cgroup_write_file K p v s) = CR_OK \<or> fst (cgroup_write_file K p v s) = CR_ESYSCALL" for p v s
    by (simp add: cgroup_write_file_def Let_def split_beta)
qed (simp_all add: frame_rules attempt_cgroup_write_file)

section \<open>Control operations\<close>

lemmas control_defs = cgroup_freeze_def cgroup_unfreeze_def cgroup_kill_all_def cgroup_add_process_def

lemma control_checked:
  "cgroup_freeze K path = checked_write (cgroup_write_file K) (snprintf MAX_PATH_LEN (path @ ''/cgroup.freeze'')) ''1''
     (cr_log K LOG_ERROR ''Failed to freeze cgroup'') (cr_log K LOG_DEBUG (''Froze cgroup '' @ path))"
  "cgroup_unfreeze K path = checked_write (cgroup_write_file K) (snprintf MAX_PATH_LEN (path @ ''/cgroup.freeze'')) ''0''
     (cr_log K LOG_ERROR ''Failed to unfreeze cgroup'') (cr_log K LOG_DEBUG (''Unfroze cgroup '' @ path))"
  "cgroup_kill_all K path = checked_write (cgroup_write_file K) (snprintf MAX_PATH_LEN (path @ ''/cgroup.kill'')) ''1''
     (cr_log K LOG_ERROR ''Failed to kill cgroup processes'')
     (cr_log K LOG_DEBUG (''Killed all processes in cgroup '' @ path))"
  "cgroup_add_process K path pid = checked_write (cgroup_write_file K)
     (snprintf MAX_PATH_LEN (path @ ''/cgroup.procs'')) (snprintf 32 (dec_int (sint pid)))
     (cr_log K LOG_ERROR (''Failed to add process '' @ dec_int (sint pid) @ '' to cgroup''))
     (cr_log K LOG_DEBUG (''Added process '' @ dec_int (sint pid) @ '' to cgroup '' @ path))"
  by (rule ext, simp only: control_defs checked_write_def Let_def)+

lemma frame_control [frame_rules]:
  "frame s t \<Longrightarrow> frame s (snd (cgroup_freeze K path t))"
  "frame s t \<Longrightarrow> frame s (snd (cgroup_unfreeze K path t))"
  "frame s t \<Longrightarrow> frame s (snd (cgroup_kill_all K path t))"
  "frame s t \<Longrightarrow> frame s (snd (cgroup_add_process K path pid t))"
  by (simp_all add: control_defs Let_def split_beta frame_rules)

text \<open>Pause and resume: \<^verbatim>\<open>cgroup_freeze\<close> and \<^verbatim>\<open>cgroup_unfreeze\<close> report \<^verbatim>\<open>CR_OK\<close> exactly
  when they have written \<open>1\<close> or \<open>0\<close> to the freezer file of the cgroup, and on any failure
  report \<^verbatim>\<open>CR_ESYSCALL\<close> with nothing written.\<close>

theorem cgroup_freezer_result:
  "(let (rc, t) = (if freeze then cgroup_freeze K path s else cgroup_unfreeze K path s);
        entry = (snprintf MAX_PATH_LEN (path @ ''/cgroup.freeze''), if freeze then ''1'' else ''0'')
    in (rc, written t) \<in> {(CR_OK, written s @ [entry]), (CR_ESYSCALL, written s)} \<and> frame s t)"
proof -
  have "(let (rc, t) = cgroup_freeze K path s in
      (rc = CR_OK \<and> written t = written s @ [(snprintf MAX_PATH_LEN (path @ ''/cgroup.freeze''), ''1'')] \<or>
       rc = CR_ESYSCALL \<and> written t = written s))"
    unfolding control_checked by (auto split: prod.split dest!: cw.checked_write_result [rotated 2])
  moreover have "(let (rc, t) = cgroup_unfreeze K path s in
      (rc = CR_OK \<and> written t = written s @ [(snprintf MAX_PATH_LEN (path @ ''/cgroup.freeze''), ''0'')] \<or>
       rc = CR_ESYSCALL \<and> written t = written s))"
    unfolding control_checked by (auto split: prod.split dest!: cw.checked_write_result [rotated 2])
  moreover have "frame s (snd (cgroup_freeze K path s))" "frame s (snd (cgroup_unfreeze K path s))"
    by (simp_all add: frame_rules)
  ultimately show ?thesis by (auto simp: split_beta Let_def)
qed

text \<open>A process number is never cut off by the 32-byte array.\<close>

lemma pid_text_fits [simp]: "snprintf 32 (dec_int (sint (pid :: 32 word))) = dec_int (sint pid)"
proof -
  have "- (2 ^ 31) \<le> sint pid" "sint pid < 2 ^ 31" using sint_ge [of pid] sint_lt [of pid] by simp_all
  then have "nat \<bar>sint pid\<bar> < 10 ^ 10" by auto
  then have "length (dec_nat (nat \<bar>sint pid\<bar>)) \<le> 10" by (rule length_dec_nat_le) simp
  then show ?thesis by (auto simp: dec_int_def)
qed

text \<open>\<^verbatim>\<open>cgroup_add_process\<close> reports \<^verbatim>\<open>CR_OK\<close> exactly when it has written the whole decimal
  process number (never cut off by the 32-byte array) to \<^verbatim>\<open>cgroup.procs\<close>.\<close>

theorem cgroup_add_process_result:
  "(let (rc, t) = cgroup_add_process K path pid s;
        entry = (snprintf MAX_PATH_LEN (path @ ''/cgroup.procs''), dec_int (sint pid))
    in (rc, written t) \<in> {(CR_OK, written s @ [entry]), (CR_ESYSCALL, written s)} \<and> frame s t)"
proof -
  obtain rc t where r: "cgroup_add_process K path pid s = (rc, t)" by force
  have "rc = CR_OK \<and> written t = written s @ [(snprintf MAX_PATH_LEN (path @ ''/cgroup.procs''), dec_int (sint pid))]
      \<or> rc = CR_ESYSCALL \<and> written t = written s"
    by (rule cw.checked_write_result [OF _ _ r [unfolded control_checked pid_text_fits]]) simp_all
  moreover have "frame s t" using r by (metis frame_control(4) frame_refl snd_conv)
  ultimately show ?thesis by (auto simp: r)
qed

section \<open>Limits\<close>

text \<open>The table of controls that a set of limits asks for, in the order of the code.\<close>

definition limit_writes :: "string \<Rightarrow> resource_limits_t \<Rightarrow> (string \<times> string) list" where
  "limit_writes path lim =
     (let file = (\<lambda>name. snprintf MAX_PATH_LEN (path @ name)); num = (\<lambda>w :: 64 word. dec_int (sint w)) in
      (if 0 < sint (memory_limit lim) then [(file ''/memory.max'', num (memory_limit lim))] else []) @
      (if 0 < sint (memory_swap lim) then [(file ''/memory.swap.max'', num (memory_swap lim))] else []) @
      (if 0 < sint (cpu_shares lim)
       then [(file ''/cpu.weight'', dec_int (min 10000 (max 1 (sint (cpu_shares lim) * 10000 div 262144))))]
       else []) @
      (if 0 < sint (cpu_quota lim) \<and> 0 < sint (cpu_period lim)
       then [(file ''/cpu.max'', num (cpu_quota lim) @ '' '' @ num (cpu_period lim))] else []) @
      (if 0 < sint (pids_limit lim) then [(file ''/pids.max'', num (pids_limit lim))] else []) @
      (if 0 < sint (blkio_weight lim) then [(file ''/io.weight'', ''default '' @ num (blkio_weight lim))] else []))"

lemma cpu_weight_Some:
  "cpu_weight sh = (if in_int64 (sint sh * 10000)
     then Some (min 10000 (max 1 (sint sh * 10000 div 262144))) else None)"
  by (simp add: cpu_weight_def Let_def min_def max_def)

text \<open>The conversion of CPU shares lands in the range of cgroup v2 weights, is monotone, and
  maps the ends of the documented range of shares to the ends of the range of weights.\<close>

theorem cpu_weight_range:
  assumes "cpu_weight sh = Some w" and "cpu_weight sh' = Some w'" and "sint sh \<le> sint sh'"
  shows "1 \<le> w \<and> w' \<le> 10000 \<and> w \<le> w' \<and> cpu_weight 2 = Some 1 \<and> cpu_weight 262144 = Some 10000"
proof -
  have "sint sh * 10000 div 262144 \<le> sint sh' * 10000 div 262144"
    using assms(3) by (intro zdiv_mono1) simp_all
  moreover have w: "w = min 10000 (max 1 (sint sh * 10000 div 262144))"
    "w' = min 10000 (max 1 (sint sh' * 10000 div 262144))"
    using assms(1,2) unfolding cpu_weight_Some by (metis option.distinct(1) option.inject)+
  ultimately have "w \<le> w'" unfolding w by (intro min.mono max.mono order_refl)
  moreover have "1 \<le> w" "w' \<le> 10000" unfolding w by linarith+
  moreover have "cpu_weight 2 = Some 1" "cpu_weight 262144 = Some 10000"
    by (simp_all add: cpu_weight_Some in_int64_def INT64_MIN_def INT64_MAX_def)
  ultimately show ?thesis by blast
qed

theorem cpu_weight_range_witness: "(1 :: int) \<le> 39 \<and> cpu_weight 1024 = Some 39"
proof -
  have "cpu_weight 1024 = Some 39"
    by (simp add: cpu_weight_Some in_int64_def INT64_MIN_def INT64_MAX_def)
  from cpu_weight_range [OF this this] this show ?thesis by simp
qed

lemma effects_apply_control:
  "effects (apply_control K p v warn dbg s) = effects (snd (cgroup_write_file K p v s))"
  by (simp add: apply_control_def split_beta)

lemma frame_apply_control [frame_rules]:
  "frame s t \<Longrightarrow> frame s (apply_control K p v warn dbg t)"
  by (simp add: apply_control_def split_beta frame_rules)

text \<open>Every write to a control file is accepted.\<close>

definition accepts_writes :: "'k kernel \<Rightarrow> bool" where
  "accepts_writes K \<longleftrightarrow> (\<forall>p v s. fst (cgroup_write_file K p v s) = CR_OK)"

lemmas wrote_write_when = cw.wrote_wr_when [folded accepts_writes_def]

lemma wrote_control_when:
  "wrote (accepts_writes K) (if c then [(p, v)] else []) s (when_st c (apply_control K p v warn dbg) s)"
  using wrote_write_when [of K c p v s]
  by (cases c) (simp_all add: wrote_def effects_apply_control when_st_def)

lemma frame_when_st [frame_rules]:
  "frame s t \<Longrightarrow> (\<And>u. frame s u \<Longrightarrow> frame s (f u)) \<Longrightarrow> frame s (when_st c f t)"
  by (simp add: when_st_def)

text \<open>The values are short enough for the 256-byte array.\<close>

lemma value_fits [simp]:
  "snprintf 256 (dec_int (sint (w :: 64 word))) = dec_int (sint w)"
  "snprintf 256 (dec_int (sint (w :: 64 word)) @ '' '' @ dec_int (sint (v :: 64 word)))
     = dec_int (sint w) @ '' '' @ dec_int (sint v)"
  "snprintf 256 (''default '' @ dec_int (sint w)) = ''default '' @ dec_int (sint w)"
  "snprintf 256 (dec_int (min 10000 (max 1 x))) = dec_int (min 10000 (max 1 x))"
proof -
  note l = length_dec_sint64 [of w] length_dec_sint64 [of v]
  show "snprintf 256 (dec_int (sint w)) = dec_int (sint w)"
    using l by (intro snprintf_fits) linarith
  show "snprintf 256 (dec_int (sint w) @ '' '' @ dec_int (sint v)) = dec_int (sint w) @ '' '' @ dec_int (sint v)"
    using l by (intro snprintf_fits) simp
  show "snprintf 256 (''default '' @ dec_int (sint w)) = ''default '' @ dec_int (sint w)"
    using l by (intro snprintf_fits) simp
  have "nat (min 10000 (max 1 x)) < 10 ^ 5" by simp
  then have "length (dec_nat (nat (min 10000 (max 1 x)))) \<le> 5" by (rule length_dec_nat_le) simp
  then show "snprintf 256 (dec_int (min 10000 (max 1 x))) = dec_int (min 10000 (max 1 x))"
    using not_less [of 0 "min 10000 (max 1 x)"] by (intro snprintf_fits) (simp add: dec_int_def max_def min_def)
qed

lemma cgroup_apply_limits_wrote:
  assumes "in_int64 (sint (cpu_shares lim) * 10000)"
  shows "\<exists>t. cgroup_apply_limits K path lim s = Some (CR_OK, t) \<and>
    wrote (accepts_writes K) (limit_writes path lim) s t \<and> frame s t"
proof -
  let ?w = "min 10000 (max 1 (sint (cpu_shares lim) * 10000 div 262144))"
  have w: "cpu_weight (cpu_shares lim) = Some ?w" using assms by (simp add: cpu_weight_Some)
  have bind_if: "(if c then Some (f x) else Some x) = Some (when_st c f x)"
    for c and f :: "'a st \<Rightarrow> 'a st" and x by (simp add: when_st_def)
  let ?num = "\<lambda>w :: 64 word. dec_int (sint w)" and ?file = "\<lambda>name. snprintf MAX_PATH_LEN (path @ name)"
  show ?thesis
    unfolding cgroup_apply_limits_def limit_writes_def Let_def w bind.bind_lunit bind_if
      option.inject prod.inject value_fits
    unfolding append_assoc [symmetric]
    apply (rule exI, intro conjI, rule refl, rule refl)
     apply (rule wrote_trans, rule wrote_control_when wrote_write_when)+
     apply (rule wrote_control_when)
    apply (intro frame_rules frame_refl; simp)
    done
qed

text \<open>C7. \<^verbatim>\<open>cgroup_apply_limits\<close> (shares being in range) attempts to write every control of the table,
  each exactly once and in the order of the table, and makes no other request: a control that
  cannot be written does not stop the later ones, and a limit that is not positive never reaches
  the cgroup. The controls written are exactly those whose attempt the system accepted, all of
  them when it accepts every write. The result is \<^verbatim>\<open>CR_OK\<close> in any case.\<close>

theorem cgroup_apply_limits_table:
  assumes "in_int64 (sint (cpu_shares lim) * 10000)"
  shows "\<exists>t tries ws. cgroup_apply_limits K path lim s = Some (CR_OK, t) \<and> frame s t \<and>
    list_all2 attempt (limit_writes path lim) tries \<and> effects t = effects s @ concat tries \<and>
    written t = written s @ ws \<and> ws = map fst (filter (accepted \<circ> snd) (zip (limit_writes path lim) tries)) \<and>
    subseq ws (limit_writes path lim) \<and> (accepts_writes K \<longrightarrow> ws = limit_writes path lim)"
proof -
  obtain t where t: "cgroup_apply_limits K path lim s = Some (CR_OK, t)" "frame s t"
    and w: "wrote (accepts_writes K) (limit_writes path lim) s t"
    using cgroup_apply_limits_wrote [OF assms] by blast
  obtain tries where a: "list_all2 attempt (limit_writes path lim) tries" "effects t = effects s @ concat tries"
    using w by (auto simp: wrote_def)
  from wrote_written [OF w] attempts_written [OF a] t a show ?thesis by (metis append_same_eq same_append_eq)
qed

definition accepting_kernel :: "unit kernel" where
  "accepting_kernel = scripted (\<lambda>q. case q of
     Sys_open p fl m \<Rightarrow> answer 3 [] | Sys_write fd v \<Rightarrow> answer (int (length v)) [] | _ \<Rightarrow> answer 0 [])"

lemma accepting_kernel_accepts: "accepts_writes accepting_kernel"
  by (simp add: accepts_writes_def cgroup_write_file_def accepting_kernel_def sys_scripted answer_def)

theorem cgroup_apply_limits_table_witness:
  "\<exists>t. cgroup_apply_limits accepting_kernel ''/cg'' (zero_limits\<lparr>cpu_shares := 1024, pids_limit := 64\<rparr>) st0
       = Some (CR_OK, t) \<and>
     written t = [(''/cg/cpu.weight'', ''39''), (''/cg/pids.max'', ''64'')]"
proof -
  let ?lim = "zero_limits\<lparr>cpu_shares := 1024, pids_limit := 64\<rparr>"
  have "limit_writes ''/cg'' ?lim = [(''/cg/cpu.weight'', ''39''), (''/cg/pids.max'', ''64'')]"
    by (simp add: limit_writes_def zero_limits_def MAX_PATH_LEN_def eval_simps)
  moreover have "in_int64 (sint (cpu_shares ?lim) * 10000)" by (simp add: zero_limits_def eval_simps)
  moreover have "written st0 = []" by (simp add: written_def eval_simps)
  ultimately show ?thesis
    using cgroup_apply_limits_table [of ?lim accepting_kernel "''/cg''" st0] accepting_kernel_accepts
    by auto
qed

section \<open>Creating and destroying\<close>

lemma frame_cgroup_create [frame_rules]:
  "frame s t \<Longrightarrow> frame s (snd (cgroup_create K ident old path_len t))"
  by (simp add: cgroup_create_def is_cgroup_v2_def Let_def split_beta frame_rules)

lemma frame_cgroup_destroy [frame_rules]:
  "frame s t \<Longrightarrow> frame s (snd (cgroup_destroy K path t))"
  by (simp add: cgroup_destroy_def Let_def split_beta frame_rules)

lemma cgroup_create_cases:
  assumes "cgroup_create K ident old path_len s = ((rc, path), t)" and "0 < path_len"
  shows "\<exists>v2 m1 m2 ws.
    if ret v2 \<noteq> 0
    then rc = CR_ERROR \<and> path = old \<and>
         effects t = effects s @ [(Sys_stat ''/sys/fs/cgroup/cgroup.controllers'', v2)]
    else path = snprintf path_len (''/sys/fs/cgroup/cruntime/'' @ ident) \<and>
         effects t = effects s @ [(Sys_stat ''/sys/fs/cgroup/cgroup.controllers'', v2),
           (Sys_mkdir ''/sys/fs/cgroup/cruntime'' 493, m1), (Sys_mkdir path 493, m2)] @ ws \<and>
         (if ret m2 < 0 \<and> err m2 \<noteq> EEXIST then rc = CR_ESYSCALL \<and> ws = []
          else rc = CR_OK \<and> attempt
            (''/sys/fs/cgroup/cruntime/cgroup.subtree_control'', ''+cpu +memory +io +pids'') ws)"
proof -
  let ?sub = "''/sys/fs/cgroup/cruntime/cgroup.subtree_control''"
  define p where "p = snprintf path_len (''/sys/fs/cgroup/cruntime/'' @ ident)"
  have the_path: "(if path_len = 0 then old else p) = p" using assms(2) by simp
  have paths: "snprintf MAX_PATH_LEN (CGROUP_ROOT @ ''/'' @ CGROUP_CONTAINER_PREFIX) = ''/sys/fs/cgroup/cruntime''"
    "snprintf MAX_PATH_LEN (''/sys/fs/cgroup/cruntime'' @ ''/cgroup.subtree_control'') = ?sub"
    "CGROUP_ROOT @ ''/'' @ CGROUP_CONTAINER_PREFIX @ ''/'' @ ident = ''/sys/fs/cgroup/cruntime/'' @ ident"
    by (simp_all add: CGROUP_ROOT_def CGROUP_CONTAINER_PREFIX_def MAX_PATH_LEN_def)
  obtain v2 s1 where 1: "sys K (Sys_stat ''/sys/fs/cgroup/cgroup.controllers'') s = (v2, s1)" by force
  obtain m1 s2 where 2: "sys K (Sys_mkdir ''/sys/fs/cgroup/cruntime'' 493) s1 = (m1, s2)" by force
  obtain m2 s3 where 3: "sys K (Sys_mkdir p 493) s2 = (m2, s3)" by force
  obtain rc' s4 where 4: "cgroup_write_file K ?sub ''+cpu +memory +io +pids'' s3 = (rc', s4)" by force
  have e3: "effects s3 = effects s @ [(Sys_stat ''/sys/fs/cgroup/cgroup.controllers'', v2),
       (Sys_mkdir ''/sys/fs/cgroup/cruntime'' 493, m1), (Sys_mkdir p 493, m2)]"
    using effects_sys [OF 1] effects_sys [OF 2] effects_sys [OF 3] by simp
  obtain ws where ws: "effects s4 = effects s3 @ ws" "attempt (?sub, ''+cpu +memory +io +pids'') ws"
    using attempt_cgroup_write_file [OF 4] by blast
  show ?thesis
  proof (cases "ret v2 \<noteq> 0")
    case True
    with assms have "rc = CR_ERROR \<and> path = old \<and> effects t = effects s1"
      by (auto simp: cgroup_create_def is_cgroup_v2_def 1)
    with True effects_sys [OF 1] show ?thesis by (intro exI [of _ v2]) simp
  next
    case False
    show ?thesis
    proof (cases "ret m2 < 0 \<and> err m2 \<noteq> EEXIST")
      case True
      with assms False have "rc = CR_ESYSCALL \<and> path = p \<and> effects t = effects s3"
        unfolding cgroup_create_def is_cgroup_v2_def Let_def 1 paths p_def [symmetric] the_path prod.case
        by (auto simp: 2 3 errno_sys [OF 3])
      with True False e3 show ?thesis
        by (intro exI [of _ v2] exI [of _ m1] exI [of _ m2] exI [of _ "[]"]) (simp add: p_def)
    next
      case ok: False
      then have "\<not> (ret m2 < 0 \<and> errno s3 \<noteq> EEXIST)" using errno_sys [OF 3] by auto
      with assms False have "rc = CR_OK \<and> path = p \<and> effects t = effects s4"
        unfolding cgroup_create_def is_cgroup_v2_def Let_def 1 paths p_def [symmetric] the_path prod.case
        by (auto simp: 2 3 4)
      with ok False e3 ws show ?thesis
        by (intro exI [of _ v2] exI [of _ m1] exI [of _ m2] exI [of _ ws]) (simp add: p_def)
    qed
  qed
qed

text \<open>C24. \<^verbatim>\<open>cgroup_create\<close> needs cgroup v2; it then makes the prefix directory and the container's
  directory and fails exactly when the latter can neither be made nor exists already. Enabling
  the controllers is attempted last, and its failure is not reported.\<close>

theorem cgroup_create_result:
  "\<exists>rc path t v2 m1 m2 ws. cgroup_create K ident old (Suc n) s = ((rc, path), t) \<and> frame s t \<and>
   (if ret v2 \<noteq> 0
    then rc = CR_ERROR \<and> path = old \<and>
         effects t = effects s @ [(Sys_stat ''/sys/fs/cgroup/cgroup.controllers'', v2)]
    else path = snprintf (Suc n) (''/sys/fs/cgroup/cruntime/'' @ ident) \<and>
         effects t = effects s @ [(Sys_stat ''/sys/fs/cgroup/cgroup.controllers'', v2),
           (Sys_mkdir ''/sys/fs/cgroup/cruntime'' 493, m1), (Sys_mkdir path 493, m2)] @ ws \<and>
         (if ret m2 < 0 \<and> err m2 \<noteq> EEXIST then rc = CR_ESYSCALL \<and> ws = []
          else rc = CR_OK \<and> attempt
            (''/sys/fs/cgroup/cruntime/cgroup.subtree_control'', ''+cpu +memory +io +pids'') ws))"
proof -
  obtain rc path t where c: "cgroup_create K ident old (Suc n) s = ((rc, path), t)"
    by (metis prod.collapse)
  moreover have "frame s t" using frame_cgroup_create [OF frame_refl, of s K ident old "Suc n"] c by simp
  moreover note cgroup_create_cases [OF c zero_less_Suc]
  ultimately show ?thesis by blast
qed

text \<open>C25. \<^verbatim>\<open>cgroup_destroy\<close> attempts to write \<open>1\<close> to \<^verbatim>\<open>cgroup.kill\<close>, waits a tenth of a second
  and removes the directory, in this order and with no other request; it fails exactly when the
  directory is still there and cannot be removed, whether or not the kill was accepted.\<close>

theorem cgroup_destroy_result:
  "\<exists>rc t ks u r. cgroup_destroy K path s = (rc, t) \<and> frame s t \<and>
     attempt (snprintf MAX_PATH_LEN (path @ ''/cgroup.kill''), ''1'') ks \<and>
     effects t = effects s @ ks @ [(Sys_usleep 100000, u), (Sys_rmdir path, r)] \<and>
     rc = (if ret r < 0 \<and> err r \<noteq> ENOENT then CR_ESYSCALL else CR_OK)"
proof -
  let ?kill = "snprintf MAX_PATH_LEN (path @ ''/cgroup.kill'')"
  obtain kc s1 where 1: "cgroup_kill_all K path s = (kc, s1)" by force
  obtain wc s0 where 0: "cgroup_write_file K ?kill ''1'' s = (wc, s0)" by force
  have e1: "effects s1 = effects s0"
    using 1 by (auto simp: cgroup_kill_all_def Let_def 0 split: if_splits)
  obtain ks where ks: "effects s0 = effects s @ ks" "attempt (?kill, ''1'') ks"
    using attempt_cgroup_write_file [OF 0] by blast
  obtain u s2 where 2: "sys K (Sys_usleep 100000) s1 = (u, s2)" by force
  obtain r s3 where 3: "sys K (Sys_rmdir path) s2 = (r, s3)" by force
  obtain rc t where d: "cgroup_destroy K path s = (rc, t)" by force
  have "effects t = effects s3 \<and> rc = (if ret r < 0 \<and> err r \<noteq> ENOENT then CR_ESYSCALL else CR_OK)"
    using d errno_sys [OF 3] unfolding cgroup_destroy_def Let_def
    by (auto simp: 1 2 3 split: if_splits)
  moreover have "effects s3 = effects s @ ks @ [(Sys_usleep 100000, u), (Sys_rmdir path, r)]"
    using effects_sys [OF 2] effects_sys [OF 3] e1 ks(1) by simp
  moreover have "frame s t" using frame_cgroup_destroy [OF frame_refl, of s K path] d by simp
  ultimately show ?thesis using d ks(2)
    by (intro exI [of _ rc] exI [of _ t] exI [of _ ks] exI [of _ u] exI [of _ r]) simp
qed

section \<open>Statistics\<close>

text \<open>The report as a text: the files that can be read, in order, each with its label.\<close>

fun stats_report :: "'k kernel \<Rightarrow> (string \<times> string \<times> string) list \<Rightarrow> 'k st \<Rightarrow> string \<times> 'k st" where
  "stats_report K [] s = ([], s)"
| "stats_report K ((file, before, after) # fs) s =
     (let ((rc, val), s) = cgroup_read_file K file 256 s; (rest, s) = stats_report K fs s
      in ((if rc = CR_OK then before @ val @ after else []) @ rest, s))"

definition stats_files :: "string \<Rightarrow> (string \<times> string \<times> string) list" where
  "stats_files path = (let file = (\<lambda>name. snprintf MAX_PATH_LEN (path @ name)) in
     [(file ''/memory.current'', ''Memory: '', '' bytes'' @ [CHR 0x0A]),
      (file ''/memory.max'', ''Memory Limit: '', [CHR 0x0A]),
      (file ''/cpu.stat'', ''CPU Stats: '', []),
      (file ''/pids.current'', ''PIDs: '', [CHR 0x0A])])"

lemma cgroup_read_file_value:
  assumes "cgroup_read_file K file 256 s = ((rc, val), t)"
  shows "length val \<le> 255 \<and> is_cstr val \<and> frame s t"
proof -
  have "frame s (snd (cgroup_read_file K file 256 s))"
    by (simp add: cgroup_read_file_def Let_def split_beta frame_rules)
  moreover have "is_cstr (snd (fst (cgroup_read_file K file 256 s)))"
    by (auto simp: cgroup_read_file_def Let_def split_beta is_cstr_def dest: set_takeWhileD)
  moreover have "length (snd (fst (cgroup_read_file K file 256 s))) \<le> 255"
    by (auto simp: cgroup_read_file_def Let_def split_beta
        intro: order_trans [OF length_takeWhile_le])
  ultimately show ?thesis using assms by simp
qed

lemma stats_line_report:
  assumes "holds_text old txt b" and "is_cstr before" and "is_cstr after" and "before \<noteq> []"
    and "length txt + length before + length after + 255 < buffer_size" and "buffer_size \<le> length old"
  obtains b' txt' t where
    "stats_line K file before after buffer_size (b, length txt, s) = Some (b', length (txt @ txt'), t)"
    and "stats_report K [(file, before, after)] s = (txt', t)" and "holds_text old (txt @ txt') b'"
    and "length txt' \<le> length before + length after + 255"
proof -
  obtain rc val t where r: "cgroup_read_file K file 256 s = ((rc, val), t)" by (metis prod.collapse)
  note v = cgroup_read_file_value [OF r]
  show thesis
  proof (cases "rc = CR_OK")
    case True
    let ?str = "before @ val @ after"
    have "is_cstr ?str" "?str \<noteq> []" "length txt + length ?str < buffer_size" using assms v by auto
    then obtain b' where "stats_append b (length txt) buffer_size ?str = Some (b', length (txt @ ?str))"
      and "holds_text old (txt @ ?str) b'"
      using stats_append_fits [OF assms(1) _ _ _ assms(6), of ?str] by blast
    with True v show thesis by (intro that [of b' ?str t]) (auto simp: stats_line_def r)
  next
    case False
    with assms v show thesis by (intro that [of b "[]" t]) (auto simp: stats_line_def r)
  qed
qed

lemma stats_report_append:
  "stats_report K (xs @ ys) s =
     (let (a, s) = stats_report K xs s; (b, s) = stats_report K ys s in (a @ b, s))"
  by (induction xs arbitrary: s) (auto simp: split_beta Let_def)

lemma frame_stats_report [frame_rules]: "frame s t \<Longrightarrow> frame s (snd (stats_report K fs t))"
proof (induction fs arbitrary: t)
  case (Cons x fs)
  obtain f before after where x: "x = (f, before, after)" by (cases x)
  obtain rc val u where r: "cgroup_read_file K f 256 t = ((rc, val), u)" by (metis prod.collapse)
  have "frame s u" using Cons.prems cgroup_read_file_value [OF r] frame_trans by blast
  then show ?case using Cons.IH by (simp add: x r split_beta Let_def)
qed simp

text \<open>The four blocks of \<^verbatim>\<open>cgroup_get_stats\<close> as one pass over the table of files, and what a pass
  leaves in a buffer that has room for all lines, each with up to 255 bytes read.\<close>

fun stats_lines ::
  "'k kernel \<Rightarrow> nat \<Rightarrow> (string \<times> string \<times> string) list \<Rightarrow> cbuf \<times> nat \<times> 'k st \<Rightarrow> (cbuf \<times> nat \<times> 'k st) option" where
  "stats_lines K n [] acc = Some acc"
| "stats_lines K n ((file, before, after) # fs) acc = do {
     acc \<leftarrow> stats_line K file before after n acc;
     stats_lines K n fs acc
   }"

lemma cgroup_get_stats_lines:
  "cgroup_get_stats K path buf n s =
     do { (b, _, t) \<leftarrow> stats_lines K n (stats_files path) (buf, 0, s); Some ((CR_OK, b), t) }"
  by (simp add: cgroup_get_stats_def stats_files_def Let_def)

definition room_for :: "(string \<times> string \<times> string) list \<Rightarrow> nat" where
  "room_for fs = sum_list (map (\<lambda>(_, before, after). length before + length after + 255) fs)"

lemma stats_lines_report:
  assumes "holds_text old rep b" and "\<forall>(f, before, after) \<in> set fs. is_cstr before \<and> is_cstr after \<and> before \<noteq> []"
    and "length rep + room_for fs < buffer_size" and "buffer_size \<le> length old"
  shows "\<exists>b' rep' t. stats_lines K buffer_size fs (b, length rep, s) = Some (b', length (rep @ rep'), t) \<and>
    stats_report K fs s = (rep', t) \<and> holds_text old (rep @ rep') b'"
  using assms(1-3)
proof (induction fs arbitrary: b rep s)
  case (Cons x fs)
  obtain f before after where x: "x = (f, before, after)" by (cases x)
  have h: "is_cstr before" "is_cstr after" "before \<noteq> []" "length rep + length before + length after + 255 < buffer_size"
    using Cons.prems(2,3) by (auto simp: x room_for_def)
  obtain b1 t1 s1 where 1: "stats_line K f before after buffer_size (b, length rep, s) = Some (b1, length (rep @ t1), s1)"
    "stats_report K [(f, before, after)] s = (t1, s1)" "holds_text old (rep @ t1) b1"
    "length t1 \<le> length before + length after + 255"
    by (rule stats_line_report [OF Cons.prems(1) h assms(4), of K f s])
  have "length (rep @ t1) + room_for fs < buffer_size" using Cons.prems(3) 1(4) by (simp add: x room_for_def)
  then have "\<exists>b' rep' t. stats_lines K buffer_size fs (b1, length (rep @ t1), s1) =
      Some (b', length ((rep @ t1) @ rep'), t) \<and> stats_report K fs s1 = (rep', t) \<and>
      holds_text old ((rep @ t1) @ rep') b'"
    by (intro Cons.IH [OF 1(3)]) (use Cons.prems(2) in auto)
  then obtain b2 t2 s2 where
    2: "stats_lines K buffer_size fs (b1, length (rep @ t1), s1) = Some (b2, length ((rep @ t1) @ t2), s2)"
    "stats_report K fs s1 = (t2, s2)" "holds_text old ((rep @ t1) @ t2) b2" by blast
  have "stats_report K (x # fs) s = (t1 @ t2, s2)"
    using stats_report_append [of K "[(f, before, after)]" fs s] 1(2) 2(2) by (simp add: x)
  with 1(1) 2 show ?case by (intro exI [of _ b2] exI [of _ "t1 @ t2"] exI [of _ s2]) (simp add: x)
qed simp

text \<open>C26. With a buffer of at least 1069 bytes \<^verbatim>\<open>cgroup_get_stats\<close> has no undefined behaviour, and
  leaves in it the whole report: the labelled contents of the control files that can be read, in
  their order. If none can be read, the buffer keeps its old contents, terminated or not.\<close>

theorem cgroup_get_stats_report:
  assumes "1069 \<le> buffer_size" and "buffer_size \<le> length buf"
  shows "\<exists>b t rep. cgroup_get_stats K path buf buffer_size s = Some ((CR_OK, b), t) \<and>
    stats_report K (stats_files path) s = (rep, t) \<and> frame s t \<and>
    (if rep = [] then b = buf else cbuf_str b = Some rep)"
proof -
  have "holds_text buf [] buf" by (simp add: holds_text_def)
  moreover have "\<forall>(f, before, after) \<in> set (stats_files path). is_cstr before \<and> is_cstr after \<and> before \<noteq> []"
    by (simp add: stats_files_def is_cstr_def Let_def)
  moreover have "length ([] :: string) + room_for (stats_files path) < buffer_size"
    using assms(1) by (simp add: room_for_def stats_files_def Let_def)
  ultimately obtain b rep t where r: "stats_lines K buffer_size (stats_files path) (buf, 0, s) = Some (b, length rep, t)"
    "stats_report K (stats_files path) s = (rep, t)" "holds_text buf rep b"
    using stats_lines_report [OF _ _ _ assms(2), of "[]" buf "stats_files path" K s] by auto
  then have "cgroup_get_stats K path buf buffer_size s = Some ((CR_OK, b), t)"
    by (simp add: cgroup_get_stats_lines)
  moreover have "frame s t" using frame_stats_report [OF frame_refl, of s K "stats_files path"] r(2) by simp
  ultimately show ?thesis using r(2,3) by (auto simp: holds_text_def split: if_splits)
qed

lemma stats_lines_append:
  "stats_lines K n (fs @ gs) acc = do { acc \<leftarrow> stats_lines K n fs acc; stats_lines K n gs acc }"
  by (induction fs arbitrary: acc) (auto split: bind_split)

text \<open>The offset grows by the length of every line, stored or not, and no line is stored past the end.\<close>

lemma stats_lines_offset:
  "stats_lines K n fs (b, i, s) = Some (b', i', t) \<Longrightarrow>
   \<exists>rep. stats_report K fs s = (rep, t) \<and> i' = i + length rep \<and> (n < i \<longrightarrow> rep = [])"
proof (induction fs arbitrary: b i s)
  case (Cons x fs)
  obtain f before after where x: "x = (f, before, after)" by (cases x)
  obtain rc val u where r: "cgroup_read_file K f 256 s = ((rc, val), u)" by (metis prod.collapse)
  show ?case
  proof (cases "rc = CR_OK")
    case True
    with Cons.prems obtain b1 where "\<not> n < i"
      and "stats_lines K n fs (b1, i + length (before @ val @ after), u) = Some (b', i', t)"
      by (auto simp: x r stats_line_def stats_append_def bind_eq_Some_conv split: if_splits)
    with Cons.IH [of b1 "i + length (before @ val @ after)" u] True show ?thesis by (auto simp: x r)
  next
    case False
    with Cons.prems have "stats_lines K n fs (b, i, u) = Some (b', i', t)" by (simp add: x r stats_line_def)
    with Cons.IH [of b i u] False show ?thesis by (auto simp: x r)
  qed
qed simp

text \<open>C40. Once the lines of the files read so far are longer than the buffer, the next file that can be
  read makes \<^verbatim>\<open>cgroup_get_stats\<close> store out of bounds: the lines were cut, but the offset has passed
  the end of the buffer, and \<^verbatim>\<open>buffer_size - offset\<close> wraps around to a huge size.\<close>

theorem cgroup_get_stats_overflow:
  assumes "stats_files path = fs @ gs" and "stats_report K fs s = (rep, u)" and "buffer_size < length rep"
    and "fst (stats_report K gs u) \<noteq> []"
  shows "cgroup_get_stats K path buf buffer_size s = None"
proof (rule ccontr)
  assume "cgroup_get_stats K path buf buffer_size s \<noteq> None"
  then obtain b i t b' i' t' where 1: "stats_lines K buffer_size fs (buf, 0, s) = Some (b, i, t)"
    and 2: "stats_lines K buffer_size gs (b, i, t) = Some (b', i', t')"
    by (auto simp: cgroup_get_stats_lines assms(1) stats_lines_append bind_eq_None_conv)
  from stats_lines_offset [OF 1] assms(2) have "i = length rep" "t = u" by auto
  with stats_lines_offset [OF 2] assms(3,4) show False by auto
qed

definition stats_kernel :: "unit kernel" where
  "stats_kernel = scripted (\<lambda>q. case q of Sys_read fd n \<Rightarrow> answer 2 ''42'' | _ \<Rightarrow> answer 3 [])"

lemma stats_kernel_reads: "\<exists>t. cgroup_read_file stats_kernel p 256 s = ((CR_OK, ''42''), t)"
  by (simp add: cgroup_read_file_def stats_kernel_def eval_simps)

theorem cgroup_get_stats_report_witness:
  "\<exists>b t. cgroup_get_stats stats_kernel ''/cg'' (uninit 2048) 2048 st0 = Some ((CR_OK, b), t)"
  using cgroup_get_stats_report [of 2048 "uninit 2048" stats_kernel "''/cg''" st0]
  by (auto simp: uninit_def)

lemma stats_kernel_report:
  "fst (stats_report stats_kernel ((f, before, after) # fs) s) =
     before @ ''42'' @ after @ fst (stats_report stats_kernel fs (snd (cgroup_read_file stats_kernel f 256 s)))"
  using stats_kernel_reads [of f s] by (auto simp: split_beta)

theorem cgroup_get_stats_overflow_witness:
  "cgroup_get_stats stats_kernel ''/cg'' (uninit 30) 30 st0 = None"
proof -
  have files: "stats_files ''/cg'' = take 2 (stats_files ''/cg'') @ drop 2 (stats_files ''/cg'')" by simp
  have "30 < length (fst (stats_report stats_kernel (take 2 (stats_files ''/cg'')) st0))"
    by (simp add: stats_files_def Let_def stats_kernel_report numeral_2_eq_2 del: stats_report.simps(2))
  moreover have "fst (stats_report stats_kernel (drop 2 (stats_files ''/cg'')) u) \<noteq> []" for u
    by (simp add: stats_files_def Let_def stats_kernel_report numeral_2_eq_2 del: stats_report.simps(2))
  ultimately show ?thesis
    by (intro cgroup_get_stats_overflow [OF files surjective_pairing])
qed

end
