(* ===== verification/Simulation.thy ===== *)
theory Simulation
  imports Kernel_Iface
begin

text \<open>
  Sequences of operations against an abstract machine. A component whose operations are called
  in any order promises that each of them, with the code it returns, is a step of its machine;
  a client may rely on whole runs being runs of the machine.
\<close>

section \<open>Runs\<close>

fun run_all :: "('a \<Rightarrow> 's \<Rightarrow> (int \<times> 's) option) \<Rightarrow> 'a list \<Rightarrow> 's \<Rightarrow> (int list \<times> 's) option" where
  "run_all exec [] s = Some ([], s)"
| "run_all exec (a # as) s = do {
     (rc, s) \<leftarrow> exec a s;
     (rcs, s) \<leftarrow> run_all exec as s;
     Some (rc # rcs, s)
   }"

inductive machine_run :: "('m \<Rightarrow> 'a \<times> int \<Rightarrow> 'm \<Rightarrow> bool) \<Rightarrow> 'm \<Rightarrow> ('a \<times> int) list \<Rightarrow> 'm \<Rightarrow> bool" for mstep where
  stop: "machine_run mstep m [] m"
| step: "mstep m l m' \<Longrightarrow> machine_run mstep m' ls m'' \<Longrightarrow> machine_run mstep m (l # ls) m''"

inductive_simps machine_run_Nil [simp]: "machine_run mstep m [] m'"

text \<open>A view of the state that follows the labels, step by step, follows them along a run.\<close>

lemma machine_run_view:
  "machine_run mstep m ls m' \<Longrightarrow> (\<And>m l m'. mstep m l m' \<Longrightarrow> view m' = upd l (view m)) \<Longrightarrow> view m' = fold upd ls (view m)"
  by (induction rule: machine_run.induct) auto

lemma run_all_length: "run_all exec as s = Some (rcs, t) \<Longrightarrow> length rcs = length as"
  by (induction as arbitrary: s rcs) (auto simp: bind_eq_Some_conv)

section \<open>The contract\<close>

locale simulation =
  fixes exec :: "'a \<Rightarrow> 'k st \<Rightarrow> (int \<times> 'k st) option"
    and mstep :: "'m \<Rightarrow> 'a \<times> int \<Rightarrow> 'm \<Rightarrow> bool"
    and abs :: "'k st \<Rightarrow> 'm"
    and pre :: "'a \<Rightarrow> bool"
  assumes simulates: "pre a \<Longrightarrow> exec a s = Some (rc, t) \<Longrightarrow> mstep (abs s) (a, rc) (abs t) \<and> frame s t"
begin

lemma run_simulates:
  "run_all exec as s = Some (rcs, t) \<Longrightarrow> \<forall>a \<in> set as. pre a \<Longrightarrow>
   machine_run mstep (abs s) (zip as rcs) (abs t) \<and> frame s t"
proof (induction as arbitrary: s rcs)
  case (Cons a as)
  then obtain rc u rcs' where "exec a s = Some (rc, u)" "run_all exec as u = Some (rcs', t)" "rcs = rc # rcs'" "pre a"
    by (auto simp: bind_eq_Some_conv)
  with simulates [of a s rc u] Cons.IH [of u rcs'] Cons.prems(2) show ?case
    by (auto intro: machine_run.step frame_trans)
qed simp

end

text \<open>Operations that always return.\<close>

locale total_simulation = simulation +
  assumes returns: "pre a \<Longrightarrow> exec a s \<noteq> None"
begin

lemma run_returns: "\<forall>a \<in> set as. pre a \<Longrightarrow> \<exists>rcs t. run_all exec as s = Some (rcs, t)"
proof (induction as arbitrary: s)
  case (Cons a as)
  obtain rc u where "exec a s = Some (rc, u)" using returns [of a s] Cons.prems by force
  moreover obtain rcs t where "run_all exec as u = Some (rcs, t)" using Cons.IH [of u] Cons.prems by auto
  ultimately show ?case by simp
qed simp

end

end
