(* ===== verification/Cgroup_Control.thy ===== *)
theory Cgroup_Control
  imports Cgroups Simulation
begin

text \<open>
  A cgroup under a sequence of control operations of \<^verbatim>\<open>src/cgroup/cgroup.c\<close>: limits, new
  processes, pause, resume and kill, in any order. Its abstract state is the value last written
  as a whole to each control file; \<open>cg_step\<close> is the machine the operations implement, with the
  result codes as its labels. Nothing is assumed of the system.
\<close>

section \<open>The operations of a cgroup\<close>

datatype control_op =
  Op_limits resource_limits_t | Op_add "32 word" | Op_freeze | Op_unfreeze | Op_kill

fun run_op :: "'k kernel \<Rightarrow> string \<Rightarrow> control_op \<Rightarrow> 'k st \<Rightarrow> (int \<times> 'k st) option" where
  "run_op K path (Op_limits lim) s = cgroup_apply_limits K path lim s"
| "run_op K path (Op_add pid) s = Some (cgroup_add_process K path pid s)"
| "run_op K path Op_freeze s = Some (cgroup_freeze K path s)"
| "run_op K path Op_unfreeze s = Some (cgroup_unfreeze K path s)"
| "run_op K path Op_kill s = Some (cgroup_kill_all K path s)"

section \<open>The abstract machine\<close>

type_synonym cg_state = "string \<Rightarrow> string option"

definition controls :: "'k st \<Rightarrow> cg_state" where
  "controls s = map_of (rev (written s))"

definition control_file :: "string \<Rightarrow> string \<Rightarrow> string" where
  "control_file path name = snprintf MAX_PATH_LEN (path @ name)"

text \<open>The writes of an operation all of whose requests succeed.\<close>

fun op_writes :: "string \<Rightarrow> control_op \<Rightarrow> (string \<times> string) list" where
  "op_writes path (Op_limits lim) = limit_writes path lim"
| "op_writes path (Op_add pid) = [(control_file path ''/cgroup.procs'', dec_int (sint pid))]"
| "op_writes path Op_freeze = [(control_file path ''/cgroup.freeze'', ''1'')]"
| "op_writes path Op_unfreeze = [(control_file path ''/cgroup.freeze'', ''0'')]"
| "op_writes path Op_kill = [(control_file path ''/cgroup.kill'', ''1'')]"

definition all_writes :: "string \<Rightarrow> control_op \<Rightarrow> cg_state \<Rightarrow> cg_state" where
  "all_writes path a m = m ++ map_of (rev (op_writes path a))"

definition is_limits :: "control_op \<Rightarrow> bool" where
  "is_limits a = (case a of Op_limits _ \<Rightarrow> True | _ \<Rightarrow> False)"

text \<open>Limits are best effort and always succeed; every other operation is all or nothing.\<close>

inductive cg_step :: "string \<Rightarrow> cg_state \<Rightarrow> control_op \<times> int \<Rightarrow> cg_state \<Rightarrow> bool" for path where
  limits: "subseq ws (limit_writes path lim) \<Longrightarrow> cg_step path m (Op_limits lim, CR_OK) (m ++ map_of (rev ws))"
| success: "\<not> is_limits a \<Longrightarrow> cg_step path m (a, CR_OK) (all_writes path a m)"
| failure: "\<not> is_limits a \<Longrightarrow> cg_step path m (a, CR_ESYSCALL) m"

section \<open>The operations implement the machine\<close>

lemma controls_append: "written t = written s @ ws \<Longrightarrow> controls t = controls s ++ map_of (rev ws)"
  by (simp add: controls_def)

text \<open>Every operation but the limits is one checked write with its two messages.\<close>

lemma run_op_checked:
  assumes "\<not> is_limits a"
  obtains p v why what where "op_writes path a = [(p, v)]"
    and "\<And>s. run_op K path a s =
      Some (checked_write (cgroup_write_file K) p v (cr_log K LOG_ERROR why) (cr_log K LOG_DEBUG what) s)"
  using assms by (cases a) (simp_all add: is_limits_def control_checked control_file_def)

text \<open>An operation, as the writes it has completed.\<close>

lemma run_op_writes:
  assumes "\<And>lim. a = Op_limits lim \<Longrightarrow> in_int64 (sint (cpu_shares lim) * 10000)"
  shows "\<exists>rc t ws. run_op K path a s = Some (rc, t) \<and> frame s t \<and> written t = written s @ ws \<and>
    (if is_limits a then rc = CR_OK \<and> subseq ws (op_writes path a)
     else rc = CR_OK \<and> ws = op_writes path a \<or> rc = CR_ESYSCALL \<and> ws = []) \<and>
    (accepts_writes K \<longrightarrow> rc = CR_OK \<and> ws = op_writes path a)"
proof (cases "is_limits a")
  case True
  then obtain lim where a: "a = Op_limits lim" by (auto simp: is_limits_def split: control_op.splits)
  from cgroup_apply_limits_wrote [OF assms [OF a], of K path s] obtain t where
    t: "run_op K path a s = Some (CR_OK, t)" "frame s t" "wrote (accepts_writes K) (op_writes path a) s t"
    by (auto simp: a)
  from wrote_written [OF t(3)] obtain ws where "written t = written s @ ws" "subseq ws (op_writes path a)"
    "accepts_writes K \<longrightarrow> ws = op_writes path a" by blast
  with True show ?thesis by (intro exI [of _ CR_OK] exI [of _ t] exI [of _ ws]) (use t in auto)
next
  case False
  from False obtain p v why what where w: "op_writes path a = [(p, v)]"
    and r: "run_op K path a s = Some (checked_write (cgroup_write_file K) p v (cr_log K LOG_ERROR why) (cr_log K LOG_DEBUG what) s)"
    by (rule run_op_checked [where K = K and path = path]) blast
  obtain rc t where c: "checked_write (cgroup_write_file K) p v (cr_log K LOG_ERROR why) (cr_log K LOG_DEBUG what) s = (rc, t)"
    by force
  have "rc = CR_OK \<and> written t = written s @ [(p, v)] \<or> rc = CR_ESYSCALL \<and> written t = written s"
    by (rule cw.checked_write_result [OF _ _ c]) simp_all
  moreover have "frame s (snd (checked_write (cgroup_write_file K) p v (cr_log K LOG_ERROR why) (cr_log K LOG_DEBUG what) s))"
    by (rule cw.checked_write_frame) (simp_all add: frame_rules)
  moreover have "rc = CR_OK" if "accepts_writes K"
    using that c by (auto simp: accepts_writes_def checked_write_def split_beta split: if_splits)
  ultimately show ?thesis using False w r c
    by (intro exI [of _ rc] exI [of _ t] exI [of _ "if rc = CR_OK then [(p, v)] else []"])
      (auto simp: CR_OK_def CR_ESYSCALL_def)
qed

text \<open>The only undefined behaviour is the overflow of the CPU shares.\<close>

definition shares_ok :: "control_op \<Rightarrow> bool" where
  "shares_ok a = (case a of Op_limits lim \<Rightarrow> in_int64 (sint (cpu_shares lim) * 10000) | _ \<Rightarrow> True)"

lemma run_op_step:
  assumes "shares_ok a"
  shows "\<exists>rc t. run_op K path a s = Some (rc, t) \<and> frame s t \<and> cg_step path (controls s) (a, rc) (controls t) \<and>
    (accepts_writes K \<longrightarrow> rc = CR_OK \<and> controls t = all_writes path a (controls s))"
proof -
  have "\<And>lim. a = Op_limits lim \<Longrightarrow> in_int64 (sint (cpu_shares lim) * 10000)" using assms by (simp add: shares_ok_def)
  then obtain rc t ws where r: "run_op K path a s = Some (rc, t)" "frame s t" and w: "written t = written s @ ws"
    and o: "if is_limits a then rc = CR_OK \<and> subseq ws (op_writes path a)
      else rc = CR_OK \<and> ws = op_writes path a \<or> rc = CR_ESYSCALL \<and> ws = []"
    and k: "accepts_writes K \<longrightarrow> rc = CR_OK \<and> ws = op_writes path a"
    using run_op_writes [of a K path s] by blast
  note c = controls_append [OF w]
  have "cg_step path (controls s) (a, rc) (controls t)"
  proof (cases "is_limits a")
    case True
    with o c show ?thesis by (auto simp: is_limits_def intro: cg_step.limits split: control_op.splits)
  next
    case False
    with o c cg_step.success [OF False] cg_step.failure [OF False] show ?thesis by (auto simp: all_writes_def)
  qed
  with r k c show ?thesis by (auto simp: all_writes_def)
qed

interpretation cg: total_simulation "run_op K path" "cg_step path" controls shares_ok for K :: "'k kernel" and path
proof
  show "cg_step path (controls s) (a, rc) (controls t) \<and> frame s t"
    if "shares_ok a" "run_op K path a s = Some (rc, t)" for a rc and s t :: "'k st"
    using run_op_step [OF that(1), of K path s] that(2) by auto
  show "run_op K path a s \<noteq> None" if "shares_ok a" for a and s :: "'k st"
    using run_op_step [OF that, of K path s] by auto
qed

lemma run_ops_accepted:
  "run_all (run_op K path) as s = Some (rcs, t) \<Longrightarrow> \<forall>a \<in> set as. shares_ok a \<Longrightarrow> accepts_writes K \<Longrightarrow>
   set rcs \<subseteq> {CR_OK} \<and> controls t = fold (all_writes path) as (controls s)"
proof (induction as arbitrary: s rcs)
  case (Cons a as)
  then obtain rc u rcs' where "run_op K path a s = Some (rc, u)" "run_all (run_op K path) as u = Some (rcs', t)"
    "rcs = rc # rcs'" "shares_ok a" by (auto simp: bind_eq_Some_conv)
  with run_op_step [of a K path s] Cons.IH [of u rcs'] Cons.prems(2,3) show ?case by auto
qed simp

text \<open>C4. Any sequence of control operations implements the abstract machine: no sequence is
  undefined (CPU shares being in range), the reported codes and the final values of the control
  files are those of a run of the machine, and the other parts of the state are left alone. When the
  system accepts every write, every operation reports \<^verbatim>\<open>CR_OK\<close> and the control files hold what the
  operations ask for, the later ones overriding the earlier.\<close>

theorem control_ops_refine:
  assumes "\<forall>a \<in> set as. shares_ok a"
  shows "\<exists>rcs t. run_all (run_op K path) as s = Some (rcs, t) \<and> frame s t \<and>
    machine_run (cg_step path) (controls s) (zip as rcs) (controls t) \<and> length rcs = length as \<and>
    (accepts_writes K \<longrightarrow> set rcs \<subseteq> {CR_OK} \<and> controls t = fold (all_writes path) as (controls s))"
proof -
  obtain rcs t where r: "run_all (run_op K path) as s = Some (rcs, t)" using cg.run_returns [OF assms] by blast
  from r cg.run_simulates [OF r assms] run_all_length [OF r] run_ops_accepted [OF r assms] show ?thesis by blast
qed

section \<open>The freezer\<close>

text \<open>The state of the freezer that the caller can work out from the reported codes alone.\<close>

fun freezer :: "control_op \<times> int \<Rightarrow> string option \<Rightarrow> string option" where
  "freezer (a, rc) f =
     (if rc = CR_OK \<and> a = Op_freeze then Some ''1'' else if rc = CR_OK \<and> a = Op_unfreeze then Some ''0'' else f)"

text \<open>No other control has the freezer's file, as long as the paths are not cut off.\<close>

lemma limit_writes_freezer:
  assumes "length path + 20 < MAX_PATH_LEN"
  shows "control_file path ''/cgroup.freeze'' \<notin> fst ` set (limit_writes path lim)"
  using assms by (auto simp: limit_writes_def control_file_def Let_def)

lemma cg_step_freezer:
  assumes "cg_step path m l m'" and "length path + 20 < MAX_PATH_LEN"
  shows "m' (control_file path ''/cgroup.freeze'') = freezer l (m (control_file path ''/cgroup.freeze''))"
  using assms(1)
proof cases
  case (limits ws lim)
  then have "set ws \<subseteq> set (limit_writes path lim)" by (auto dest: list_emb_set)
  then have "map_of (rev ws) (control_file path ''/cgroup.freeze'') = None"
    using limit_writes_freezer [OF assms(2), of lim] by (auto simp: map_of_eq_None_iff)
  with limits show ?thesis by (simp add: map_add_def)
next
  case (success a)
  with assms(2) show ?thesis by (cases a) (auto simp: all_writes_def is_limits_def control_file_def)
next
  case (failure a)
  then show ?thesis by (simp add: CR_OK_def CR_ESYSCALL_def)
qed

text \<open>C15. Whether a container is frozen can be worked out from the reported codes: after any sequence
  of control operations, on any system, \<^verbatim>\<open>cgroup.freeze\<close> holds the value of the last
  \<^verbatim>\<open>cgroup_freeze\<close> or \<^verbatim>\<open>cgroup_unfreeze\<close> that reported \<^verbatim>\<open>CR_OK\<close>, and what it held before if there
  was none: one that fails does not change it, nor do limits, new processes and kills.\<close>

theorem freezer_state:
  assumes "run_all (run_op K path) as s = Some (rcs, t)" and "length path + 20 < MAX_PATH_LEN"
    and "\<forall>a \<in> set as. shares_ok a"
  shows "controls t (path @ ''/cgroup.freeze'') = fold freezer (zip as rcs) (controls s (path @ ''/cgroup.freeze''))"
proof -
  have "machine_run (cg_step path) (controls s) (zip as rcs) (controls t)"
    using cg.run_simulates [OF assms(1,3)] by simp
  from machine_run_view [OF this, of "\<lambda>m. m (control_file path ''/cgroup.freeze'')" freezer] cg_step_freezer [OF _ assms(2)] assms(2)
  show ?thesis by (simp add: control_file_def)
qed

section \<open>Instances\<close>

lemma shares_ok_simps [simp]: "shares_ok (Op_add pid)" "shares_ok Op_freeze" "shares_ok Op_unfreeze" "shares_ok Op_kill"
  by (simp_all add: shares_ok_def)

theorem control_ops_refine_witness:
  "\<exists>rcs t. run_all (run_op accepting_kernel ''/cg'') [Op_add 7, Op_freeze, Op_unfreeze] st0 = Some (rcs, t) \<and>
     set rcs \<subseteq> {CR_OK} \<and> controls t ''/cg/cgroup.freeze'' = Some ''0''"
proof -
  have "fold (all_writes ''/cg'') [Op_add 7, Op_freeze, Op_unfreeze] (controls st0) ''/cg/cgroup.freeze'' = Some ''0''"
    by (simp add: all_writes_def control_file_def MAX_PATH_LEN_def eval_simps)
  with control_ops_refine [of "[Op_add 7, Op_freeze, Op_unfreeze]" accepting_kernel "''/cg''" st0]
  show ?thesis using accepting_kernel_accepts by auto
qed

theorem freezer_state_witness:
  "\<exists>rcs t. run_all (run_op accepting_kernel ''/cg'') [Op_freeze, Op_kill] st0 = Some (rcs, t) \<and>
     controls t ''/cg/cgroup.freeze'' = Some ''1''"
proof -
  let ?as = "[Op_freeze, Op_kill]"
  have ok: "\<forall>a \<in> set ?as. shares_ok a" by simp
  then obtain rcs t where r: "run_all (run_op accepting_kernel ''/cg'') ?as st0 = Some (rcs, t)"
    using cg.run_returns by blast
  have "length rcs = 2" using run_all_length [OF r] by simp
  with run_ops_accepted [OF r ok accepting_kernel_accepts] have "rcs = [CR_OK, CR_OK]"
    by (auto simp: eval_nat_numeral length_Suc_conv)
  with freezer_state [OF r _ ok] r show ?thesis by (simp add: MAX_PATH_LEN_def)
qed

end
