(* ===== verification/Scripts.thy ===== *)
theory Scripts
  imports Utils
begin

text \<open>
  Scripts: the abstract specification of the operations that issue a fixed list of requests and
  stop at the first answer they do not tolerate (mounting a root file system, configuring a
  network device). A script lists the requests, each with the answers that abort it;
  \<open>follows\<close> relates a script to the requests a run has made, and \<open>performs sc s t ab\<close> says that
  the run from \<open>s\<close> to \<open>t\<close> has followed the script, aborting or not, and has changed nothing
  outside the frame. The rules of the last section prove \<open>performs\<close> along the code.
\<close>

type_synonym script = "(sysreq \<times> (sysres \<Rightarrow> bool)) list"

text \<open>Answers that abort: none, a negative result, and for commands any result but 0.\<close>

definition tolerated :: "sysres \<Rightarrow> bool" where "tolerated r \<longleftrightarrow> False"
definition must :: "sysres \<Rightarrow> bool" where "must r \<longleftrightarrow> ret r < 0"
definition failed :: "sysres \<Rightarrow> bool" where "failed r \<longleftrightarrow> ret r \<noteq> 0"

fun follows :: "script \<Rightarrow> (sysreq \<times> sysres) list \<Rightarrow> bool \<Rightarrow> bool" where
  "follows [] es ab \<longleftrightarrow> es = [] \<and> \<not> ab"
| "follows ((q, bad) # sc) [] ab \<longleftrightarrow> False"
| "follows ((q, bad) # sc) ((q', r) # es) ab \<longleftrightarrow>
     q' = q \<and> (if bad r then es = [] \<and> ab else follows sc es ab)"

definition quiet :: "'k st \<Rightarrow> 'k st \<Rightarrow> bool" where
  "quiet s t \<longleftrightarrow> frame s t \<and> effects t = effects s"

definition performs :: "script \<Rightarrow> 'k st \<Rightarrow> 'k st \<Rightarrow> bool \<Rightarrow> bool" where
  "performs sc s t ab \<longleftrightarrow> frame s t \<and> (\<exists>es. effects t = effects s @ es \<and> follows sc es ab)"

text \<open>An operation that returns a code implements a script: whatever the state, it performs the
  script, and reports an error exactly when it aborts.\<close>

definition implements :: "script \<Rightarrow> ('k st \<Rightarrow> int \<times> 'k st) \<Rightarrow> bool" where
  "implements sc f \<longleftrightarrow> (\<forall>s. performs sc s (snd (f s)) (fst (f s) \<noteq> CR_OK))"

section \<open>What a script guarantees\<close>

text \<open>The requests made are the script's, in its order, from its start.\<close>

lemma follows_prefix: "follows sc es ab \<Longrightarrow> prefix (map fst es) (map fst sc)"
  by (induction sc es ab rule: follows.induct) (auto split: if_splits)

lemma follows_complete: "follows sc es False \<Longrightarrow> map fst es = map fst sc"
  by (induction sc es False rule: follows.induct) (auto split: if_splits)

text \<open>Without an abort every answer was tolerated; with one the last answer was not.\<close>

lemma follows_ok: "follows sc es False \<Longrightarrow> list_all2 (\<lambda>(q, bad) (q', r). q' = q \<and> \<not> bad r) sc es"
  by (induction sc es False rule: follows.induct) (auto split: if_splits)

lemma follows_abort:
  "follows sc es True \<Longrightarrow> \<exists>i < length sc. length es = Suc i \<and> snd (sc ! i) (snd (es ! i)) \<and>
     (\<forall>j < i. \<not> snd (sc ! j) (snd (es ! j)))"
proof (induction sc es True rule: follows.induct)
  case (3 q bad sc q' r es)
  show ?case
  proof (cases "bad r")
    case True
    with 3 show ?thesis by (intro exI [of _ 0]) simp
  next
    case False
    with 3 obtain i where "i < length sc" "length es = Suc i" "snd (sc ! i) (snd (es ! i))"
      "\<forall>j < i. \<not> snd (sc ! j) (snd (es ! j))" by auto
    with False show ?thesis by (intro exI [of _ "Suc i"]) (auto simp: less_Suc_eq_0_disj)
  qed
qed auto

lemma follows_append:
  "follows (a @ b) es ab \<longleftrightarrow>
     (if ab then follows a es True \<or> (\<exists>xs ys. es = xs @ ys \<and> follows a xs False \<and> follows b ys True)
      else (\<exists>xs ys. es = xs @ ys \<and> follows a xs False \<and> follows b ys False))"
proof (induction a arbitrary: es)
  case (Cons p a)
  obtain q bad where p: "p = (q, bad)" by force
  show ?case
  proof (cases es)
    case Nil
    then show ?thesis by (auto simp: p)
  next
    case (Cons e es')
    obtain q' r where e: "e = (q', r)" by force
    have "\<And>xs ys. (q', r) # es' = xs @ ys \<Longrightarrow> follows ((q, bad) # a) xs False \<longleftrightarrow>
        (\<exists>xs'. xs = (q', r) # xs' \<and> es' = xs' @ ys \<and> q' = q \<and> \<not> bad r \<and> follows a xs' False)"
      by (case_tac xs) (auto)
    then have "(\<exists>xs ys. (q', r) # es' = xs @ ys \<and> follows ((q, bad) # a) xs False \<and> follows b ys c) \<longleftrightarrow>
        q' = q \<and> \<not> bad r \<and> (\<exists>xs ys. es' = xs @ ys \<and> follows a xs False \<and> follows b ys c)" for c
      by (metis append_Cons)
    with Cons.IH [of es'] show ?thesis by (auto simp: p Cons e)
  qed
qed auto

section \<open>Running a script\<close>

lemma quiet_refl [simp]: "quiet s s"
  by (simp add: quiet_def)

lemma quiet_trans: "quiet s t \<Longrightarrow> quiet t u \<Longrightarrow> quiet s u"
  unfolding quiet_def using frame_trans by metis

lemma quiet_log [simp]: "level \<noteq> LOG_FATAL \<Longrightarrow> quiet s (cr_log K level msg s)"
  by (simp add: quiet_def cr_log_frame)

lemma performs_frame: "performs sc s t ab \<Longrightarrow> frame s t"
  by (simp add: performs_def)

lemma performs_Nil: "quiet s t \<Longrightarrow> \<not> ab \<Longrightarrow> performs [] s t ab"
  by (simp add: performs_def quiet_def)

lemma performs_Cons:
  assumes "\<not> is_obs q"
    and "bad (fst (sys K q s)) \<Longrightarrow> quiet (snd (sys K q s)) t \<and> ab"
    and "\<not> bad (fst (sys K q s)) \<Longrightarrow> performs sc (snd (sys K q s)) t ab"
  shows "performs ((q, bad) # sc) s t ab"
proof -
  obtain r s1 where r: "sys K q s = (r, s1)" by force
  note e = effects_sys [OF r] and f = frame_sysE [OF r]
  show ?thesis
  proof (cases "bad r")
    case True
    with assms e f r show ?thesis
      unfolding performs_def quiet_def by (auto intro: frame_trans)
  next
    case False
    with assms(3) r obtain es where "frame s1 t" "effects t = effects s1 @ es" "follows sc es ab"
      by (auto simp: performs_def)
    with False e f assms(1) show ?thesis
      unfolding performs_def by (intro conjI exI [of _ "(q, r) # es"]) (auto intro: frame_trans)
  qed
qed

text \<open>The same rule with the result of the request named, for a step that goes on and for the one
  that aborts.\<close>

lemma performs_request:
  "sys K q s = (r, s1) \<Longrightarrow> \<not> is_obs q \<Longrightarrow> (bad r \<Longrightarrow> quiet s1 t \<and> ab) \<Longrightarrow>
   (\<not> bad r \<Longrightarrow> performs sc s1 t ab) \<Longrightarrow> performs ((q, bad) # sc) s t ab"
  by (rule performs_Cons [where K = K]) simp_all

lemma performs_step:
  "sys K q s = (r, s1) \<Longrightarrow> \<not> bad r \<Longrightarrow> \<not> is_obs q \<Longrightarrow> performs sc s1 t ab \<Longrightarrow>
   performs ((q, bad) # sc) s t ab"
  by (rule performs_Cons [where K = K]) simp_all

lemma performs_stop:
  "sys K q s = (r, s1) \<Longrightarrow> bad r \<Longrightarrow> \<not> is_obs q \<Longrightarrow> quiet s1 t \<Longrightarrow> performs ((q, bad) # sc) s t True"
  by (rule performs_Cons [where K = K]) simp_all

lemma performs_optional:
  assumes "(if c then sys K (fst q) s else (x, s)) = (r, s')" and "c \<Longrightarrow> \<not> snd q r \<and> \<not> is_obs (fst q)"
    and "performs rest s' t ab"
  shows "performs ((if c then [q] else []) @ rest) s t ab"
  using assms by (cases q; cases c) (auto intro: performs_step)

lemma not_tolerated [simp]: "\<not> tolerated r"
  by (simp add: tolerated_def)

lemma performs_quiet: "quiet s u \<Longrightarrow> performs sc u t ab \<Longrightarrow> performs sc s t ab"
  unfolding performs_def quiet_def by (metis frame_trans)

lemma performs_append:
  assumes "performs a s u False" and "performs b u t ab"
  shows "performs (a @ b) s t ab"
proof -
  from assms obtain xs ys where "effects u = effects s @ xs" "follows a xs False"
    "effects t = effects u @ ys" "follows b ys ab" by (auto simp: performs_def)
  then have "effects t = effects s @ (xs @ ys)" "follows (a @ b) (xs @ ys) ab"
    unfolding follows_append by (cases ab; auto)+
  with assms show ?thesis unfolding performs_def by (blast intro: frame_trans)
qed

lemma performs_append_abort: "performs a s t True \<Longrightarrow> performs (a @ b) s t True"
  unfolding performs_def by (auto simp: follows_append)

lemma performs_quiet_end: "performs sc s t ab \<Longrightarrow> quiet t u \<Longrightarrow> performs sc s u ab"
  unfolding performs_def quiet_def by (metis frame_trans)

lemma performs_tolerated_single: "performs [(q, bad)] s t ab \<Longrightarrow> performs [(q, tolerated)] s t False"
proof -
  assume "performs [(q, bad)] s t ab"
  then obtain es where "frame s t" "effects t = effects s @ es" "follows [(q, bad)] es ab"
    by (auto simp: performs_def)
  then show ?thesis unfolding performs_def by (cases es) (auto split: if_splits)
qed

lemma implements_log: "level \<noteq> LOG_FATAL \<Longrightarrow> implements [] (\<lambda>s. (CR_OK, cr_log K level msg s))"
  by (simp add: implements_def performs_Nil)

lemma implements_performs: "implements sc f \<Longrightarrow> f s = (rc, t) \<Longrightarrow> performs sc s t (rc \<noteq> CR_OK)"
  by (metis fst_conv implements_def snd_conv)

lemma performs_mounts:
  assumes "performs sc s t ab"
  obtains ms where "mounts_done t = mounts_done s @ ms"
    and "prefix (map fst ms) (List.map_filter (\<lambda>(q, b). map_option fst (mount_of (q, answer 0 []))) sc)"
proof -
  from assms obtain es where es: "effects t = effects s @ es" "follows sc es ab"
    by (auto simp: performs_def)
  have "prefix (map fst (List.map_filter mount_of es))
      (List.map_filter (\<lambda>(q, b). map_option fst (mount_of (q, answer 0 []))) sc)"
    using es(2)
  proof (induction sc es ab rule: follows.induct)
    case (3 q bad sc q' r es ab)
    then show ?case
      by (cases q) (auto simp: List.map_filter_simps split: if_splits)
  qed (simp_all add: List.map_filter_simps)
  with es(1) show thesis by (intro that [of "List.map_filter mount_of es"]) (simp_all add: mounts_done_def)
qed

end
