(* ===== verification/Namespaces.thy ===== *)
theory Namespaces
  imports Scripts
begin

text \<open>
  \<^verbatim>\<open>src/namespace/namespace.c\<close>: the clone flags of a container, the mounts of its root file
  system, \<^verbatim>\<open>pivot_root\<close>, host name, user mappings, joining and persisting a namespace. The
  operations that issue a fixed sequence of requests are compared with scripts: the mounts of the
  root file system, the steps of \<^verbatim>\<open>pivot_root\<close>.
\<close>

section \<open>The code\<close>

definition CLONE_NEWNS :: "32 word" where "CLONE_NEWNS = 0x00020000"
definition CLONE_NEWCGROUP :: "32 word" where "CLONE_NEWCGROUP = 0x02000000"
definition CLONE_NEWUTS :: "32 word" where "CLONE_NEWUTS = 0x04000000"
definition CLONE_NEWIPC :: "32 word" where "CLONE_NEWIPC = 0x08000000"
definition CLONE_NEWUSER :: "32 word" where "CLONE_NEWUSER = 0x10000000"
definition CLONE_NEWPID :: "32 word" where "CLONE_NEWPID = 0x20000000"
definition CLONE_NEWNET :: "32 word" where "CLONE_NEWNET = 0x40000000"

lemmas clone_defs = CLONE_NEWNS_def CLONE_NEWCGROUP_def CLONE_NEWUTS_def CLONE_NEWIPC_def
  CLONE_NEWUSER_def CLONE_NEWPID_def CLONE_NEWNET_def

definition get_clone_flags :: "namespace_config_t \<Rightarrow> 32 word" where
  "get_clone_flags ns_config =
     (let flags = 0;
          flags = (if ns_pid ns_config then flags OR CLONE_NEWPID else flags);
          flags = (if ns_net ns_config then flags OR CLONE_NEWNET else flags);
          flags = (if ns_mnt ns_config then flags OR CLONE_NEWNS else flags);
          flags = (if ns_uts ns_config then flags OR CLONE_NEWUTS else flags);
          flags = (if ns_ipc ns_config then flags OR CLONE_NEWIPC else flags);
          flags = (if ns_user ns_config then flags OR CLONE_NEWUSER else flags);
          flags = (if ns_cgroup ns_config then flags OR CLONE_NEWCGROUP else flags)
      in flags)"

definition namespace_get_clone_flags :: "namespace_config_t \<Rightarrow> 32 word" where
  "namespace_get_clone_flags config = get_clone_flags config"

text \<open>A directory and a file system mounted on it, with a warning when the mount fails.\<close>

definition mount_special ::
  "'k kernel \<Rightarrow> string \<Rightarrow> string \<Rightarrow> string \<Rightarrow> 64 word \<Rightarrow> string option \<Rightarrow> string \<Rightarrow> 'k st \<Rightarrow> 'k st" where
  "mount_special K path source fstype flags data what s =
     (let (_, s) = sys K (Sys_mkdir path 493) s;
          (r, s) = sys K (Sys_mount (Some source) path (Some fstype) flags data) s
      in if ret r < 0
         then cr_log K LOG_WARN (''Failed to mount '' @ what @ '': '' @ strerror_errno K s) s else s)"

text \<open>The loop over the first \<open>n\<close> cells of \<^verbatim>\<open>config->mounts\<close>.\<close>

fun mount_volumes ::
  "'k kernel \<Rightarrow> string \<Rightarrow> mount_point_t list \<Rightarrow> nat \<Rightarrow> 'k st \<Rightarrow> (int \<times> 'k st) option" where
  "mount_volumes K root mps 0 s = Some (CR_OK, s)"
| "mount_volumes K root [] (Suc n) s = None"
| "mount_volumes K root (mp # mps) (Suc n) s =
     (let target = snprintf MAX_PATH_LEN (root @ mp_target mp);
          (_, s) = sys K (Sys_mkdir target 493) s;
          (r, s) = sys K (Sys_mount (Some (mp_source mp)) target (Some (mp_fstype mp)) (mp_flags mp)
                     (Some (mp_options mp))) s
      in
      if ret r < 0 then
        Some (CR_ESYSCALL, cr_log K LOG_ERROR
          (''Failed to mount '' @ mp_source mp @ '' to '' @ target @ '': '' @ strerror_errno K s) s)
      else
        mount_volumes K root mps n
          (cr_log K LOG_DEBUG (''Mounted '' @ mp_source mp @ '' to '' @ target) s))"

text \<open>The special file systems of \<^verbatim>\<open>namespace_setup_mounts\<close>.\<close>

definition mount_specials :: "'k kernel \<Rightarrow> string \<Rightarrow> 'k st \<Rightarrow> 'k st" where
  "mount_specials K root s =
     (let at = (\<lambda>name. snprintf MAX_PATH_LEN (root @ name));
          s = mount_special K (at ''/proc'') ''proc'' ''proc'' 0 None ''/proc'' s;
          s = mount_special K (at ''/sys'') ''sysfs'' ''sysfs'' 0 None ''/sys'' s;
          s = mount_special K (at ''/dev'') ''devtmpfs'' ''devtmpfs'' (MS_NOSUID OR MS_STRICTATIME)
                (Some ''mode=755'') ''/dev'' s;
          s = mount_special K (at ''/dev/pts'') ''devpts'' ''devpts'' 0
                (Some ''newinstance,ptmxmode=0666'') ''/dev/pts'' s;
          (_, s) = sys K (Sys_mkdir (at ''/tmp'') 1023) s;
          (_, s) = sys K (Sys_mount (Some ''tmpfs'') (at ''/tmp'') (Some ''tmpfs'')
                     (MS_NOSUID OR MS_NODEV) (Some ''mode=1777'')) s;
          (_, s) = sys K (Sys_mkdir (at ''/run'') 493) s;
          (_, s) = sys K (Sys_mount (Some ''tmpfs'') (at ''/run'') (Some ''tmpfs'')
                     (MS_NOSUID OR MS_NODEV OR MS_NOEXEC) (Some ''mode=755'')) s
      in s)"

definition namespace_setup_mounts :: "'k kernel \<Rightarrow> container_config_t \<Rightarrow> 'k st \<Rightarrow> (int \<times> 'k st) option" where
  "namespace_setup_mounts K config s =
     (let root = cfg_rootfs config;
          (r, s) = sys K (Sys_mount None ''/'' None (MS_PRIVATE OR MS_REC) None) s
      in
      if ret r < 0 then
        Some (CR_ESYSCALL, cr_log K LOG_ERROR (''Failed to make / private: '' @ strerror_errno K s) s)
      else
      let (r, s) = sys K (Sys_mount (Some root) root None (MS_BIND OR MS_REC) None) s in
      if ret r < 0 then
        Some (CR_ESYSCALL, cr_log K LOG_ERROR (''Failed to bind mount rootfs: '' @ strerror_errno K s) s)
      else
      let (ro, s) = (if cfg_readonly_rootfs config
                     then sys K (Sys_mount None root None (MS_BIND OR MS_REMOUNT OR MS_RDONLY) None) s
                     else (answer 0 [], s))
      in
      if ret ro < 0 then
        Some (CR_ESYSCALL, cr_log K LOG_ERROR (''Failed to make rootfs readonly: '' @ strerror_errno K s) s)
      else
      mount_volumes K root (cfg_mounts config) (nat (sint (cfg_num_mounts config))) (mount_specials K root s))"

definition namespace_pivot_root :: "'k kernel \<Rightarrow> string \<Rightarrow> 'k st \<Rightarrow> int \<times> 'k st" where
  "namespace_pivot_root K new_root s =
     (let old_root = snprintf MAX_PATH_LEN (new_root @ ''/.oldroot'');
          (_, s) = sys K (Sys_mkdir old_root 448) s;
          (r, s) = sys K (Sys_pivot_root new_root old_root) s
      in
      if ret r < 0 then
        (CR_ESYSCALL, cr_log K LOG_ERROR (''pivot_root failed: '' @ strerror_errno K s) s)
      else
      let (r, s) = sys K (Sys_chdir ''/'') s in
      if ret r < 0 then
        (CR_ESYSCALL, cr_log K LOG_ERROR (''chdir(/) failed: '' @ strerror_errno K s) s)
      else
      let (r, s) = sys K (Sys_umount2 ''/.oldroot'' MNT_DETACH) s in
      if ret r < 0 then
        (CR_ESYSCALL, cr_log K LOG_ERROR (''umount2(/.oldroot) failed: '' @ strerror_errno K s) s)
      else
      let (_, s) = sys K (Sys_rmdir ''/.oldroot'') s in (CR_OK, s))"

definition namespace_setup_uts :: "'k kernel \<Rightarrow> string \<Rightarrow> 'k st \<Rightarrow> int \<times> 'k st" where
  "namespace_setup_uts K hostname s =
     (let (r, s) = sys K (Sys_sethostname hostname) s in
      if ret r < 0 then
        (CR_ESYSCALL, cr_log K LOG_ERROR (''sethostname failed: '' @ strerror_errno K s) s)
      else (CR_OK, cr_log K LOG_DEBUG (''Set hostname to '' @ hostname) s))"

text \<open>The text of an identity map: \<^verbatim>\<open>%d\<close> prints the unsigned \<^verbatim>\<open>uid_t\<close> as a signed number.\<close>

definition map_data :: "32 word \<Rightarrow> string" where
  "map_data ident = ''0 '' @ dec_int (sint ident) @ '' 1''"

text \<open>One of the two map files; the code has this block once for \<^verbatim>\<open>uid_map\<close> and once for
  \<^verbatim>\<open>gid_map\<close>.\<close>

definition write_map :: "'k kernel \<Rightarrow> string \<Rightarrow> 32 word \<Rightarrow> 'k st \<Rightarrow> int \<times> 'k st" where
  "write_map K name ident s =
     (let (fd, s) = sys K (Sys_open (''/proc/self/'' @ name) O_WRONLY 0) s in
      if ret fd < 0 then
        (CR_ESYSCALL, cr_log K LOG_ERROR (''Failed to open '' @ name @ '': '' @ strerror_errno K s) s)
      else
      let (n, s) = sys K (Sys_write (ret fd) (map_data ident)) s in
      if ret n < 0 then
        (let s = cr_log K LOG_ERROR (''Failed to write '' @ name @ '': '' @ strerror_errno K s) s;
             (_, s) = sys K (Sys_close (ret fd)) s
         in (CR_ESYSCALL, s))
      else
        (let (_, s) = sys K (Sys_close (ret fd)) s in (CR_OK, s)))"

definition namespace_setup_user :: "'k kernel \<Rightarrow> 32 word \<Rightarrow> 32 word \<Rightarrow> 'k st \<Rightarrow> int \<times> 'k st" where
  "namespace_setup_user K uid gid s =
     (let (fd, s) = sys K (Sys_open ''/proc/self/setgroups'' O_WRONLY 0) s;
          s = (if 0 \<le> ret fd
               then snd (sys K (Sys_close (ret fd)) (snd (sys K (Sys_write (ret fd) ''deny'') s)))
               else s);
          (rc, s) = write_map K ''uid_map'' uid s
      in
      if rc \<noteq> CR_OK then (rc, s)
      else
      let (rc, s) = write_map K ''gid_map'' gid s in
      if rc \<noteq> CR_OK then (rc, s)
      else
        (CR_OK, cr_log K LOG_DEBUG (''Mapped UID '' @ dec_int (sint uid) @ '' and GID '' @
           dec_int (sint gid) @ '' to container root'') s))"

definition namespace_join :: "'k kernel \<Rightarrow> string \<Rightarrow> 32 word \<Rightarrow> 'k st \<Rightarrow> int \<times> 'k st" where
  "namespace_join K ns_path ns_type s =
     (let (fd, s) = sys K (Sys_open ns_path O_RDONLY 0) s in
      if ret fd < 0 then
        (CR_ESYSCALL, cr_log K LOG_ERROR
           (''Failed to open namespace '' @ ns_path @ '': '' @ strerror_errno K s) s)
      else
      let (r, s) = sys K (Sys_setns (ret fd) (sint ns_type)) s in
      if ret r < 0 then
        (let s = cr_log K LOG_ERROR
           (''Failed to join namespace '' @ ns_path @ '': '' @ strerror_errno K s) s;
             (_, s) = sys K (Sys_close (ret fd)) s
         in (CR_ESYSCALL, s))
      else
        (let (_, s) = sys K (Sys_close (ret fd)) s in (CR_OK, s)))"

text \<open>\<^verbatim>\<open>strrchr(path, '/')\<close> and the cut at its result: the part before the last slash.\<close>

definition before_last_slash :: "string \<Rightarrow> string option" where
  "before_last_slash p =
     (if CHR ''/'' \<in> set p then Some (rev (tl (dropWhile (\<lambda>c. c \<noteq> CHR ''/'') (rev p)))) else None)"

text \<open>\<^verbatim>\<open>namespace_persist\<close>: a failing \<^verbatim>\<open>strdup\<close> is dereferenced.\<close>

definition namespace_persist ::
  "'k kernel \<Rightarrow> 32 word \<Rightarrow> string \<Rightarrow> string \<Rightarrow> 'k st \<Rightarrow> (int \<times> 'k st) option" where
  "namespace_persist K pid ns_name persist_path s =
     (let src = snprintf 256 (''/proc/'' @ dec_int (sint pid) @ ''/ns/'' @ ns_name);
          (dir, s) = sys K (Sys_malloc (length persist_path + 1)) s
      in
      if ret dir < 0 then None
      else
      let s = (case before_last_slash persist_path of
                 None \<Rightarrow> s | Some d \<Rightarrow> snd (sys K (Sys_mkdir d 493) s));
          (fd, s) = sys K (Sys_open persist_path (O_RDONLY OR O_CREAT OR O_EXCL) 292) s
      in
      if ret fd < 0 then
        Some (CR_ESYSCALL, cr_log K LOG_ERROR
          (''Failed to create namespace persist file: '' @ strerror_errno K s) s)
      else
      let (_, s) = sys K (Sys_close (ret fd)) s;
          (r, s) = sys K (Sys_mount (Some src) persist_path None MS_BIND None) s
      in
      if ret r < 0 then
        (let s = cr_log K LOG_ERROR (''Failed to bind mount namespace: '' @ strerror_errno K s) s;
             (_, s) = sys K (Sys_unlink persist_path) s
         in Some (CR_ESYSCALL, s))
      else
        Some (CR_OK, cr_log K LOG_DEBUG
          (''Persisted namespace '' @ ns_name @ '' to '' @ persist_path) s))"

section \<open>Clone flags\<close>

text \<open>C27. The clone flags are the union of the requested namespaces: each requested namespace
  sets its own bit, one that is not requested leaves it clear, no other bit is set, and so
  different configurations have different flags.\<close>

theorem clone_flags_exact:
  "let flags = namespace_get_clone_flags c in
     (flags AND CLONE_NEWPID \<noteq> 0) = ns_pid c \<and> (flags AND CLONE_NEWNET \<noteq> 0) = ns_net c \<and>
     (flags AND CLONE_NEWNS \<noteq> 0) = ns_mnt c \<and> (flags AND CLONE_NEWUTS \<noteq> 0) = ns_uts c \<and>
     (flags AND CLONE_NEWIPC \<noteq> 0) = ns_ipc c \<and> (flags AND CLONE_NEWUSER \<noteq> 0) = ns_user c \<and>
     (flags AND CLONE_NEWCGROUP \<noteq> 0) = ns_cgroup c \<and>
     flags AND NOT (CLONE_NEWPID OR CLONE_NEWNET OR CLONE_NEWNS OR CLONE_NEWUTS OR CLONE_NEWIPC OR
       CLONE_NEWUSER OR CLONE_NEWCGROUP) = 0"
proof -
  have bit: "(w OR v) AND m = (w AND m) OR (v AND m)" for w v m :: "32 word"
    by (simp add: bit.conj_disj_distrib2)
  have flags: "namespace_get_clone_flags c =
      (if ns_pid c then CLONE_NEWPID else 0) OR (if ns_net c then CLONE_NEWNET else 0) OR
      (if ns_mnt c then CLONE_NEWNS else 0) OR (if ns_uts c then CLONE_NEWUTS else 0) OR
      (if ns_ipc c then CLONE_NEWIPC else 0) OR (if ns_user c then CLONE_NEWUSER else 0) OR
      (if ns_cgroup c then CLONE_NEWCGROUP else 0)"
    by (simp add: namespace_get_clone_flags_def get_clone_flags_def Let_def or.assoc or.commute or.left_commute)
  have if_and: "(if b then x else 0) AND m = (if b then x AND m else 0)" for b and x m :: "32 word" by simp
  show ?thesis
    unfolding Let_def flags bit if_and by (simp add: clone_defs)
qed

section \<open>The root file system\<close>

definition special_script :: "string \<Rightarrow> nat \<Rightarrow> string \<Rightarrow> string \<Rightarrow> 64 word \<Rightarrow> string option \<Rightarrow> script" where
  "special_script path mode source fstype flags data =
     [(Sys_mkdir path mode, tolerated), (Sys_mount (Some source) path (Some fstype) flags data, tolerated)]"

definition volume_script :: "string \<Rightarrow> mount_point_t \<Rightarrow> script" where
  "volume_script root mp =
     [(Sys_mkdir (snprintf MAX_PATH_LEN (root @ mp_target mp)) 493, tolerated),
      (Sys_mount (Some (mp_source mp)) (snprintf MAX_PATH_LEN (root @ mp_target mp)) (Some (mp_fstype mp))
        (mp_flags mp) (Some (mp_options mp)), must)]"

text \<open>The mounts that isolate the file system of a container.\<close>

definition isolation_script :: "string \<Rightarrow> bool \<Rightarrow> script" where
  "isolation_script root ro =
     [(Sys_mount None ''/'' None (MS_PRIVATE OR MS_REC) None, must),
      (Sys_mount (Some root) root None (MS_BIND OR MS_REC) None, must)] @
     (if ro then [(Sys_mount None root None (MS_BIND OR MS_REMOUNT OR MS_RDONLY) None, must)] else [])"

definition specials_script :: "string \<Rightarrow> script" where
  "specials_script root =
     (let at = (\<lambda>name. snprintf MAX_PATH_LEN (root @ name)) in
      special_script (at ''/proc'') 493 ''proc'' ''proc'' 0 None @
      special_script (at ''/sys'') 493 ''sysfs'' ''sysfs'' 0 None @
      special_script (at ''/dev'') 493 ''devtmpfs'' ''devtmpfs'' (MS_NOSUID OR MS_STRICTATIME) (Some ''mode=755'') @
      special_script (at ''/dev/pts'') 493 ''devpts'' ''devpts'' 0 (Some ''newinstance,ptmxmode=0666'') @
      special_script (at ''/tmp'') 1023 ''tmpfs'' ''tmpfs'' (MS_NOSUID OR MS_NODEV) (Some ''mode=1777'') @
      special_script (at ''/run'') 493 ''tmpfs'' ''tmpfs'' (MS_NOSUID OR MS_NODEV OR MS_NOEXEC) (Some ''mode=755''))"

definition rootfs_script :: "container_config_t \<Rightarrow> script" where
  "rootfs_script config =
     isolation_script (cfg_rootfs config) (cfg_readonly_rootfs config) @
     specials_script (cfg_rootfs config) @
     concat (map (volume_script (cfg_rootfs config))
       (take (nat (sint (cfg_num_mounts config))) (cfg_mounts config)))"

lemma performs_special:
  assumes "performs sc (mount_special K path source fstype flags data what s) t ab"
  shows "performs (special_script path 493 source fstype flags data @ sc) s t ab"
  unfolding special_script_def append.simps
proof (rule performs_Cons [where K = K], simp, simp, rule performs_Cons [where K = K], simp, simp)
  let ?u = "snd (sys K (Sys_mount (Some source) path (Some fstype) flags data) (snd (sys K (Sys_mkdir path 493) s)))"
  have "quiet ?u (mount_special K path source fstype flags data what s)"
    by (simp add: mount_special_def Let_def split_beta)
  then show "performs sc ?u t ab" using assms by (rule performs_quiet)
qed

lemma performs_plain_special:
  assumes "performs sc (snd (sys K (Sys_mount (Some source) path (Some fstype) flags data)
      (snd (sys K (Sys_mkdir path mode) s)))) t ab"
  shows "performs (special_script path mode source fstype flags data @ sc) s t ab"
  unfolding special_script_def append.simps
  by (rule performs_Cons [where K = K], simp, simp, rule performs_Cons [where K = K]) (use assms in simp_all)

lemma mount_volumes_performs:
  "n \<le> length mps \<Longrightarrow> \<exists>rc t. mount_volumes K root mps n s = Some (rc, t) \<and>
     rc \<in> {CR_OK, CR_ESYSCALL} \<and>
     performs (concat (map (volume_script root) (take n mps))) s t (rc \<noteq> CR_OK)"
proof (induction n arbitrary: mps s)
  case 0
  then show ?case by (simp add: performs_Nil)
next
  case (Suc n all)
  then obtain mp mps where all: "all = mp # mps" and n: "n \<le> length mps" by (cases all) auto
  let ?target = "snprintf MAX_PATH_LEN (root @ mp_target mp)"
  obtain a s1 where 1: "sys K (Sys_mkdir ?target 493) s = (a, s1)" by force
  obtain r s2 where 2: "sys K (Sys_mount (Some (mp_source mp)) ?target (Some (mp_fstype mp)) (mp_flags mp)
      (Some (mp_options mp))) s1 = (r, s2)" by force
  show ?case
  proof (cases "ret r < 0")
    case True
    let ?t = "cr_log K LOG_ERROR (''Failed to mount '' @ mp_source mp @ '' to '' @ ?target @ '': '' @ strerror_errno K s2) s2"
    have "performs (volume_script root mp @ sc) s ?t True" for sc
      unfolding volume_script_def append.simps
      by (rule performs_step [OF 1], simp, simp, rule performs_stop [OF 2])
        (simp_all add: must_def True)
    with True show ?thesis by (simp add: all 1 2)
  next
    case False
    let ?s3 = "cr_log K LOG_DEBUG (''Mounted '' @ mp_source mp @ '' to '' @ ?target) s2"
    obtain rc t where t: "mount_volumes K root mps n ?s3 = Some (rc, t)"
      "rc \<in> {CR_OK, CR_ESYSCALL}"
      "performs (concat (map (volume_script root) (take n mps))) ?s3 t (rc \<noteq> CR_OK)"
      using Suc.IH [OF n, of ?s3] by blast
    have "performs (concat (map (volume_script root) (take n mps))) s2 t (rc \<noteq> CR_OK)"
      using t(3) by (intro performs_quiet [of s2 ?s3]) auto
    then have "performs (volume_script root mp @ concat (map (volume_script root) (take n mps))) s t (rc \<noteq> CR_OK)"
      unfolding volume_script_def append.simps
      by (rule performs_step [OF 1, rotated 2, OF performs_step [OF 2, rotated 2]])
        (simp_all add: must_def False)
    with t False show ?thesis by (simp add: all 1 2)
  qed
qed

lemma specials_perform:
  assumes "performs sc (mount_specials K root s) t ab"
  shows "performs (specials_script root @ sc) s t ab"
  unfolding specials_script_def Let_def append_assoc
  by (intro performs_special [where K = K and what = "''/proc''"] performs_special [where K = K and what = "''/sys''"]
      performs_special [where K = K and what = "''/dev''"] performs_special [where K = K and what = "''/dev/pts''"]
      performs_plain_special [where K = K])
    (use assms in \<open>simp only: mount_specials_def Let_def split_beta\<close>)

lemma specials_volumes_perform:
  assumes "n \<le> length ms"
  obtains rc t where "mount_volumes K root ms n (mount_specials K root s) = Some (rc, t)" and "rc \<in> {CR_OK, CR_ESYSCALL}"
    and "performs (specials_script root @ concat (map (volume_script root) (take n ms))) s t (rc \<noteq> CR_OK)"
proof -
  obtain rc t where v: "mount_volumes K root ms n (mount_specials K root s) = Some (rc, t)" "rc \<in> {CR_OK, CR_ESYSCALL}"
    "performs (concat (map (volume_script root) (take n ms))) (mount_specials K root s) t (rc \<noteq> CR_OK)"
    using mount_volumes_performs [OF assms] by blast
  show thesis by (rule that [OF v(1,2) specials_perform [OF v(3)]])
qed

lemma setup_mounts_performs:
  assumes "wf_config config"
  shows "\<exists>rc t. namespace_setup_mounts K config s = Some (rc, t) \<and> rc \<in> {CR_OK, CR_ESYSCALL} \<and>
    performs (rootfs_script config) s t (rc \<noteq> CR_OK)"
proof -
  let ?root = "cfg_rootfs config"
  let ?vols = "concat (map (volume_script ?root) (take (nat (sint (cfg_num_mounts config))) (cfg_mounts config)))"
  let ?rest = "specials_script ?root @ ?vols"
  let ?ro = "(Sys_mount None ?root None (MS_BIND OR MS_REMOUNT OR MS_RDONLY) None, must)"
  have n: "nat (sint (cfg_num_mounts config)) \<le> length (cfg_mounts config)"
    using assms by (auto simp: wf_config_def)
  obtain r1 s1 where 1: "sys K (Sys_mount None ''/'' None (MS_PRIVATE OR MS_REC) None) s = (r1, s1)" by force
  obtain r2 s2 where 2: "sys K (Sys_mount (Some ?root) ?root None (MS_BIND OR MS_REC) None) s1 = (r2, s2)" by force
  obtain r3 s3 where 3: "(if cfg_readonly_rootfs config then sys K (fst ?ro) s2 else (answer 0 [], s2)) = (r3, s3)"
    by force
  have script: "rootfs_script config =
      (Sys_mount None ''/'' None (MS_PRIVATE OR MS_REC) None, must) #
      (Sys_mount (Some ?root) ?root None (MS_BIND OR MS_REC) None, must) #
      (if cfg_readonly_rootfs config then [?ro] else []) @ ?rest"
    by (simp add: rootfs_script_def isolation_script_def)
  note defs = namespace_setup_mounts_def Let_def 1 2 3 [unfolded fst_conv] prod.case
  consider "ret r1 < 0" | "\<not> ret r1 < 0" "ret r2 < 0" | "\<not> ret r1 < 0" "\<not> ret r2 < 0" "ret r3 < 0"
    | "\<not> ret r1 < 0" "\<not> ret r2 < 0" "\<not> ret r3 < 0" by blast
  then show ?thesis
  proof cases
    case a: 1
    then show ?thesis unfolding defs script
      by (auto intro!: performs_stop [OF 1] simp: must_def)
  next
    case a: 2
    then show ?thesis unfolding defs script
      by (auto intro!: performs_step [OF 1] performs_stop [OF 2] simp: must_def)
  next
    case a: 3
    then have ro: "cfg_readonly_rootfs config" "sys K (fst ?ro) s2 = (r3, s3)"
      using 3 by (auto simp: answer_def split: if_splits)
    have "quiet s3 t \<Longrightarrow> performs (rootfs_script config) s t True" for t
      unfolding script using ro(1) a
      by (auto intro!: performs_step [OF 1] performs_step [OF 2] performs_stop [OF ro(2) [unfolded fst_conv]] simp: must_def)
    with a show ?thesis unfolding defs by auto
  next
    case a: 4
    obtain rc t where v: "mount_volumes K ?root (cfg_mounts config) (nat (sint (cfg_num_mounts config)))
        (mount_specials K ?root s3) = Some (rc, t)" "rc \<in> {CR_OK, CR_ESYSCALL}" "performs ?rest s3 t (rc \<noteq> CR_OK)"
      using n by (rule specials_volumes_perform)
    have "performs ((if cfg_readonly_rootfs config then [?ro] else []) @ ?rest) s2 t (rc \<noteq> CR_OK)"
      by (rule performs_optional [OF 3 _ v(3)]) (simp add: must_def a)
    then have "performs (rootfs_script config) s t (rc \<noteq> CR_OK)"
      unfolding script
      by (intro performs_step [OF 1] performs_step [OF 2]) (assumption | simp add: must_def a)+
    with a v show ?thesis unfolding defs by simp
  qed
qed

text \<open>C6. \<^verbatim>\<open>namespace_setup_mounts\<close> follows the script of the root file system: the root is made
  private before anything else is mounted, the bind mount of the new root comes next (read-only if
  requested), then the special file systems, whose failures are tolerated, then the volumes of
  the configuration in order; it stops with \<^verbatim>\<open>CR_ESYSCALL\<close> exactly at the first failure of a mount
  that is not tolerated, and a well-formed configuration has no undefined behaviour.\<close>

theorem namespace_setup_mounts_script:
  assumes "wf_config config"
  shows "\<exists>rc t. namespace_setup_mounts K config s = Some (rc, t) \<and> rc \<in> {CR_OK, CR_ESYSCALL} \<and>
    performs (rootfs_script config) s t (rc \<noteq> CR_OK)"
  using assms by (rule setup_mounts_performs)

text \<open>A configuration with one volume, on a system where everything succeeds but the mount of
  \<^verbatim>\<open>/proc\<close>: the mounts that reach the kernel.\<close>

definition volume_config :: container_config_t where
  "volume_config = zero_config\<lparr>cfg_rootfs := ''/r'', cfg_num_mounts := 1,
     cfg_mounts := zero_mount\<lparr>mp_source := ''/data'', mp_target := ''/d'', mp_flags := MS_BIND\<rparr> #
       replicate 63 zero_mount\<rparr>"

lemma wf_volume_config: "wf_config volume_config"
  by (simp add: volume_config_def wf_config_def zero_config_def wf_network_def zero_network_def wf_mount_def
      zero_mount_def wf_port_def zero_port_def fits_def MAX_PATH_LEN_def MAX_MOUNTS_def)

theorem namespace_setup_mounts_script_witness:
  "\<exists>rc t. namespace_setup_mounts (scripted (\<lambda>_. answer 0 [])) volume_config st0 = Some (rc, t) \<and>
     frame st0 t"
  using namespace_setup_mounts_script [OF wf_volume_config, of "scripted (\<lambda>_. answer 0 [])" st0]
  by (auto dest: performs_frame)

section \<open>Pivot root\<close>

definition pivot_script :: "string \<Rightarrow> script" where
  "pivot_script new_root =
     (let old_root = snprintf MAX_PATH_LEN (new_root @ ''/.oldroot'') in
      [(Sys_mkdir old_root 448, tolerated), (Sys_pivot_root new_root old_root, must), (Sys_chdir ''/'', must),
       (Sys_umount2 ''/.oldroot'' MNT_DETACH, must), (Sys_rmdir ''/.oldroot'', tolerated)])"

text \<open>C10. \<^verbatim>\<open>namespace_pivot_root\<close> performs its five steps in order and reports \<^verbatim>\<open>CR_OK\<close> exactly when
  the pivot, the change of directory and the unmounting of the old root all succeed; the first of
  them that fails is the last request made. The old root is thus detached before \<^verbatim>\<open>CR_OK\<close> is
  reported.\<close>

theorem namespace_pivot_root_script:
  "(let (rc, t) = namespace_pivot_root K new_root s
    in rc \<in> {CR_OK, CR_ESYSCALL} \<and> performs (pivot_script new_root) s t (rc \<noteq> CR_OK))"
proof -
  let ?old = "snprintf MAX_PATH_LEN (new_root @ ''/.oldroot'')"
  obtain r1 s1 where 1: "sys K (Sys_mkdir ?old 448) s = (r1, s1)" by force
  obtain r2 s2 where 2: "sys K (Sys_pivot_root new_root ?old) s1 = (r2, s2)" by force
  obtain r3 s3 where 3: "sys K (Sys_chdir ''/'') s2 = (r3, s3)" by force
  obtain r4 s4 where 4: "sys K (Sys_umount2 ''/.oldroot'' MNT_DETACH) s3 = (r4, s4)" by force
  obtain r5 s5 where 5: "sys K (Sys_rmdir ''/.oldroot'') s4 = (r5, s5)" by force
  show ?thesis
    unfolding namespace_pivot_root_def pivot_script_def Let_def 1 2 3 4 5 prod.case
    by (auto intro!: performs_request [OF 1] performs_request [OF 2] performs_request [OF 3]
        performs_request [OF 4] performs_request [OF 5] performs_Nil simp: must_def)
qed

section \<open>Host name, user mappings\<close>

text \<open>\<^verbatim>\<open>namespace_setup_uts\<close> sets exactly the given host name, once, and reports its result.\<close>

theorem namespace_setup_uts_result:
  "(let (rc, t) = namespace_setup_uts K hostname s
    in rc \<in> {CR_OK, CR_ESYSCALL} \<and> performs [(Sys_sethostname hostname, must)] s t (rc \<noteq> CR_OK))"
proof -
  obtain r s1 where 1: "sys K (Sys_sethostname hostname) s = (r, s1)" by force
  show ?thesis
    by (auto simp: namespace_setup_uts_def 1 must_def intro!: performs_request [OF 1] performs_Nil)
qed

text \<open>The requests of one attempt to write a map file, and whether it went through.\<close>

fun map_attempt :: "string \<Rightarrow> 32 word \<Rightarrow> (sysreq \<times> sysres) list \<Rightarrow> bool \<Rightarrow> bool" where
  "map_attempt name ident [(q, r)] ok \<longleftrightarrow>
     q = Sys_open (''/proc/self/'' @ name) O_WRONLY 0 \<and> ret r < 0 \<and> \<not> ok"
| "map_attempt name ident [(q, r), (q', w), (q'', c)] ok \<longleftrightarrow>
     q = Sys_open (''/proc/self/'' @ name) O_WRONLY 0 \<and> 0 \<le> ret r \<and>
     q' = Sys_write (ret r) (map_data ident) \<and> q'' = Sys_close (ret r) \<and> ok = (0 \<le> ret w)"
| "map_attempt name ident _ ok \<longleftrightarrow> False"

text \<open>The requests that deny \<^verbatim>\<open>setgroups\<close>, as far as the file can be opened.\<close>

fun setgroups_denied :: "(sysreq \<times> sysres) list \<Rightarrow> bool" where
  "setgroups_denied [(q, r)] \<longleftrightarrow> q = Sys_open ''/proc/self/setgroups'' O_WRONLY 0 \<and> ret r < 0"
| "setgroups_denied [(q, r), (q', w), (q'', c)] \<longleftrightarrow>
     q = Sys_open ''/proc/self/setgroups'' O_WRONLY 0 \<and> 0 \<le> ret r \<and>
     q' = Sys_write (ret r) ''deny'' \<and> q'' = Sys_close (ret r)"
| "setgroups_denied _ \<longleftrightarrow> False"

lemma frame_write_map [frame_rules]:
  "frame s t \<Longrightarrow> frame s (snd (write_map K name ident t))"
  by (simp add: write_map_def Let_def split_beta frame_rules)

lemma write_map_attempt:
  assumes "write_map K name ident s = (rc, t)"
  obtains es where "effects t = effects s @ es" "map_attempt name ident es (rc = CR_OK)"
    "rc \<in> {CR_OK, CR_ESYSCALL}"
proof -
  obtain r s1 where 1: "sys K (Sys_open (''/proc/self/'' @ name) O_WRONLY 0) s = (r, s1)" by force
  obtain w s2 where 2: "sys K (Sys_write (ret r) (map_data ident)) s1 = (w, s2)" by force
  note e = effects_sys [OF 1] effects_sys [OF 2]
  consider "ret r < 0" | "0 \<le> ret r" "ret w < 0" | "0 \<le> ret r" "0 \<le> ret w" by linarith
  then show thesis
  proof cases
    case a: 1
    have "effects t = effects s @ [(Sys_open (''/proc/self/'' @ name) O_WRONLY 0, r)] \<and> rc = CR_ESYSCALL"
      using assms e a unfolding write_map_def Let_def 1 prod.case by auto
    with a show thesis
      by (intro that [of "[(Sys_open (''/proc/self/'' @ name) O_WRONLY 0, r)]"]) simp_all
  next
    case a: 2
    let ?s3 = "cr_log K LOG_ERROR (''Failed to write '' @ name @ '': '' @ strerror_errno K s2) s2"
    obtain c s4 where 3: "sys K (Sys_close (ret r)) ?s3 = (c, s4)" by force
    have "t = s4 \<and> rc = CR_ESYSCALL"
      using assms a unfolding write_map_def Let_def 1 2 3 prod.case by simp
    with a e effects_sys [OF 3] show thesis
      by (intro that [of "[(Sys_open (''/proc/self/'' @ name) O_WRONLY 0, r), (Sys_write (ret r) (map_data ident), w),
            (Sys_close (ret r), c)]"]) simp_all
  next
    case a: 3
    obtain c s4 where 3: "sys K (Sys_close (ret r)) s2 = (c, s4)" by force
    have "t = s4 \<and> rc = CR_OK"
      using assms a unfolding write_map_def Let_def 1 2 3 prod.case by simp
    with a e effects_sys [OF 3] show thesis
      by (intro that [of "[(Sys_open (''/proc/self/'' @ name) O_WRONLY 0, r), (Sys_write (ret r) (map_data ident), w),
            (Sys_close (ret r), c)]"]) simp_all
  qed
qed

text \<open>C22. \<^verbatim>\<open>namespace_setup_user\<close> denies \<^verbatim>\<open>setgroups\<close> before it maps anything, maps the user before
  the group, does not try the group when the user map fails, closes what it opens, and reports
  \<^verbatim>\<open>CR_OK\<close> exactly when both writes went through.\<close>

theorem namespace_setup_user_result:
  "\<exists>rc t sg um gm. namespace_setup_user K uid gid s = (rc, t) \<and> rc \<in> {CR_OK, CR_ESYSCALL} \<and>
     frame s t \<and> effects t = effects s @ sg @ um @ gm \<and> setgroups_denied sg \<and>
     (if map_attempt ''uid_map'' uid um True then map_attempt ''gid_map'' gid gm (rc = CR_OK)
      else map_attempt ''uid_map'' uid um False \<and> gm = [] \<and> rc = CR_ESYSCALL)"
proof -
  obtain rc t where d: "namespace_setup_user K uid gid s = (rc, t)" by force
  obtain r s1 where 1: "sys K (Sys_open ''/proc/self/setgroups'' O_WRONLY 0) s = (r, s1)" by force
  obtain w s2 where 2: "sys K (Sys_write (ret r) ''deny'') s1 = (w, s2)" by force
  obtain c s3 where 3: "sys K (Sys_close (ret r)) s2 = (c, s3)" by force
  define s4 where "s4 = (if 0 \<le> ret r then s3 else s1)"
  define sg where "sg = (if 0 \<le> ret r then [(Sys_open ''/proc/self/setgroups'' O_WRONLY 0, r),
      (Sys_write (ret r) ''deny'', w), (Sys_close (ret r), c)] else [(Sys_open ''/proc/self/setgroups'' O_WRONLY 0, r)])"
  have sg: "effects s4 = effects s @ sg" "setgroups_denied sg"
    using effects_sys [OF 1] effects_sys [OF 2] effects_sys [OF 3] by (simp_all add: s4_def sg_def)
  obtain rc1 s5 where 5: "write_map K ''uid_map'' uid s4 = (rc1, s5)" by force
  obtain rc2 s6 where 6: "write_map K ''gid_map'' gid s5 = (rc2, s6)" by force
  obtain um where um: "effects s5 = effects s4 @ um" "map_attempt ''uid_map'' uid um (rc1 = CR_OK)"
    "rc1 \<in> {CR_OK, CR_ESYSCALL}" by (rule write_map_attempt [OF 5])
  obtain gm where gm: "effects s6 = effects s5 @ gm" "map_attempt ''gid_map'' gid gm (rc2 = CR_OK)"
    "rc2 \<in> {CR_OK, CR_ESYSCALL}" by (rule write_map_attempt [OF 6])
  have excl: "\<not> (map_attempt name ident es True \<and> map_attempt name ident es False)" for name ident es
    by (induction name ident es True rule: map_attempt.induct) auto
  have t: "(rc, effects t) = (if rc1 \<noteq> CR_OK then (rc1, effects s5) else (rc2, effects s6))"
    using d unfolding namespace_setup_user_def Let_def 1 2 3 prod.case snd_conv s4_def [symmetric] 5 6
    by (auto split: if_splits)
  have "frame s t"
  proof -
    have "frame s (snd (namespace_setup_user K uid gid s))"
      by (simp add: namespace_setup_user_def Let_def split_beta frame_rules)
    with d show ?thesis by simp
  qed
  show ?thesis
  proof (cases "rc1 = CR_OK")
    case True
    with t sg um gm d \<open>frame s t\<close> show ?thesis
      by (intro exI [of _ rc] exI [of _ t] exI [of _ sg] exI [of _ um] exI [of _ gm]) simp
  next
    case False
    with t sg um d \<open>frame s t\<close> excl [of "''uid_map''" uid um] show ?thesis
      by (intro exI [of _ rc] exI [of _ t] exI [of _ sg] exI [of _ um] exI [of _ "[]"]) auto
  qed
qed

text \<open>The map maps the given identifier only below \<open>2 ^ 31\<close>: a larger one is printed as a
  negative number.\<close>

theorem map_data_signed:
  "map_data ident =
     (if unat ident < 2 ^ 31 then ''0 '' @ dec_nat (unat ident) @ '' 1''
      else ''0 -'' @ dec_nat (2 ^ 32 - unat ident) @ '' 1'')"
proof -
  have u: "unat ident < 2 ^ 32" using unsigned_less [of ident] by simp
  define i where "i = int (unat ident)"
  have i: "0 \<le> i" "i < 2 ^ 32" "i < 2 ^ 31 \<longleftrightarrow> unat ident < 2 ^ 31"
    using u unfolding i_def by (metis (mono_tags) of_nat_0_le_iff of_nat_less_iff of_nat_numeral of_nat_power)+
  have "(i + 2 ^ 31) mod 2 ^ 32 = (if i < 2 ^ 31 then i + 2 ^ 31 else i - 2 ^ 31)"
  proof (cases "i < 2 ^ 31")
    case False
    have "(i - 2 ^ 31 + 2 ^ 32) mod 2 ^ 32 = i - 2 ^ 31"
      using i False by (simp only: mod_add_self2) (intro mod_pos_pos_trivial; simp)
    then show ?thesis using False by (simp add: add.commute)
  qed (use i in simp)
  then have "signed_take_bit 31 i = (if i < 2 ^ 31 then i else i - 2 ^ 32)"
    by (simp add: signed_take_bit_eq_take_bit_shift take_bit_eq_mod)
  then have "sint ident = (if unat ident < 2 ^ 31 then int (unat ident) else int (unat ident) - 2 ^ 32)"
    using i(3) by (simp add: sint_uint i_def)
  moreover have "uint ident < 2 ^ 32" using uint_lt2p [of ident] by simp
  ultimately show ?thesis using u by (auto simp: map_data_def dec_int_def nat_diff_distrib of_nat_diff)
qed

section \<open>Joining and persisting\<close>

text \<open>\<^verbatim>\<open>namespace_join\<close> enters the namespace through the file it has opened, closes the file on
  every path, and reports \<^verbatim>\<open>CR_OK\<close> exactly when both calls succeed.\<close>

theorem namespace_join_result:
  "\<exists>rc t r n c. namespace_join K ns_path ns_type s = (rc, t) \<and> frame s t \<and>
     (if ret r < 0
      then rc = CR_ESYSCALL \<and> effects t = effects s @ [(Sys_open ns_path O_RDONLY 0, r)]
      else rc = (if ret n < 0 then CR_ESYSCALL else CR_OK) \<and>
        effects t = effects s @ [(Sys_open ns_path O_RDONLY 0, r), (Sys_setns (ret r) (sint ns_type), n),
          (Sys_close (ret r), c)])"
proof -
  obtain rc t where d: "namespace_join K ns_path ns_type s = (rc, t)" by force
  obtain r s1 where 1: "sys K (Sys_open ns_path O_RDONLY 0) s = (r, s1)" by force
  obtain n s2 where 2: "sys K (Sys_setns (ret r) (sint ns_type)) s1 = (n, s2)" by force
  let ?s3 = "if ret n < 0 then cr_log K LOG_ERROR (''Failed to join namespace '' @ ns_path @ '': '' @ strerror_errno K s2) s2
      else s2"
  obtain c s4 where 3: "sys K (Sys_close (ret r)) ?s3 = (c, s4)" by force
  have "frame s (snd (namespace_join K ns_path ns_type s))"
    by (simp add: namespace_join_def Let_def split_beta frame_rules)
  then have f: "frame s t" using d by simp
  have e: "effects s4 = effects s @ [(Sys_open ns_path O_RDONLY 0, r), (Sys_setns (ret r) (sint ns_type), n),
      (Sys_close (ret r), c)]"
    using effects_sys [OF 1] effects_sys [OF 2] effects_sys [OF 3] by simp
  consider "ret r < 0" | "\<not> ret r < 0" "ret n < 0" | "\<not> ret r < 0" "\<not> ret n < 0" by blast
  then have "if ret r < 0 then rc = CR_ESYSCALL \<and> effects t = effects s1
      else rc = (if ret n < 0 then CR_ESYSCALL else CR_OK) \<and> t = s4"
    using d 3 unfolding namespace_join_def Let_def 1 2 prod.case by cases auto
  with e effects_sys [OF 1] f d show ?thesis
    by (intro exI [of _ rc] exI [of _ t] exI [of _ r] exI [of _ n] exI [of _ c]) (auto split: if_splits)
qed

lemma before_last_slash_Some:
  "before_last_slash p = Some d \<longleftrightarrow> (\<exists>b. p = d @ CHR ''/'' # b \<and> CHR ''/'' \<notin> set b)"
proof
  assume a: "before_last_slash p = Some d"
  let ?P = "\<lambda>c. c \<noteq> CHR ''/''"
  from a have "CHR ''/'' \<in> set (rev p)" and d: "d = rev (tl (dropWhile ?P (rev p)))"
    by (auto simp: before_last_slash_def split: if_splits)
  from split_list_first [OF this(1)] obtain u v where uv: "rev p = u @ CHR ''/'' # v" "CHR ''/'' \<notin> set u"
    by blast
  then have "p = rev v @ CHR ''/'' # rev u" by (metis append.assoc append_Cons append_Nil rev.simps(2) rev_append rev_rev_ident)
  with uv d show "\<exists>b. p = d @ CHR ''/'' # b \<and> CHR ''/'' \<notin> set b"
    by (intro exI [of _ "rev u"]) simp
qed (auto simp: before_last_slash_def)

lemma before_last_slash_None: "before_last_slash p = None \<longleftrightarrow> CHR ''/'' \<notin> set p"
  by (simp add: before_last_slash_def)

text \<open>The directory for the file.\<close>

lemma persist_parent:
  obtains mk where "effects (case before_last_slash path of None \<Rightarrow> s | Some d \<Rightarrow> snd (sys K (Sys_mkdir d 493) s)) = effects s @ mk"
    "frame s (case before_last_slash path of None \<Rightarrow> s | Some d \<Rightarrow> snd (sys K (Sys_mkdir d 493) s))"
    "map fst mk = (if CHR ''/'' \<in> set path then [Sys_mkdir (the (before_last_slash path)) 493] else [])"
  by (cases "before_last_slash path")
    (auto simp: before_last_slash_def effects_sys_snd frame_sys split: if_splits)

text \<open>C23. \<^verbatim>\<open>namespace_persist\<close> makes the parent directory (the part before the last slash, if there is
  one), creates the file exclusively, closes it and binds the namespace to it; when the bind fails
  it removes the file again, so no failure leaves a file behind.\<close>

theorem namespace_persist_result:
  assumes "sys K (Sys_malloc (length path + 1)) s = (m, s0)" and "0 \<le> ret m"
  shows "\<exists>rc t mk r c b u. namespace_persist K pid name path s = Some (rc, t) \<and> frame s t \<and>
     map fst mk = (if CHR ''/'' \<in> set path then [Sys_mkdir (the (before_last_slash path)) 493] else []) \<and>
     effects t = effects s0 @ mk @ [(Sys_open path (O_RDONLY OR O_CREAT OR O_EXCL) 292, r)] @
       (if ret r < 0 then []
        else [(Sys_close (ret r), c),
              (Sys_mount (Some (snprintf 256 (''/proc/'' @ dec_int (sint pid) @ ''/ns/'' @ name))) path None MS_BIND None, b)] @
             (if ret b < 0 then [(Sys_unlink path, u)] else [])) \<and>
     rc = (if ret r < 0 \<or> ret b < 0 then CR_ESYSCALL else CR_OK)"
proof -
  let ?src = "snprintf 256 (''/proc/'' @ dec_int (sint pid) @ ''/ns/'' @ name)"
  define s1 where "s1 = (case before_last_slash path of None \<Rightarrow> s0 | Some d \<Rightarrow> snd (sys K (Sys_mkdir d 493) s0))"
  obtain mk where mk: "effects s1 = effects s0 @ mk" "frame s0 s1"
    "map fst mk = (if CHR ''/'' \<in> set path then [Sys_mkdir (the (before_last_slash path)) 493] else [])"
    unfolding s1_def by (rule persist_parent)
  obtain r s2 where 2: "sys K (Sys_open path (O_RDONLY OR O_CREAT OR O_EXCL) 292) s1 = (r, s2)" by force
  obtain c s3 where 3: "sys K (Sys_close (ret r)) s2 = (c, s3)" by force
  obtain b s4 where 4: "sys K (Sys_mount (Some ?src) path None MS_BIND None) s3 = (b, s4)" by force
  let ?s5 = "cr_log K LOG_ERROR (''Failed to bind mount namespace: '' @ strerror_errno K s4) s4"
  obtain u s6 where 6: "sys K (Sys_unlink path) ?s5 = (u, s6)" by force
  have fr2: "frame s s2" using frame_sysE [OF assms(1)] mk(2) frame_sysE [OF 2] by (blast intro: frame_trans)
  have fr4: "frame s s4" using fr2 frame_sysE [OF 3] frame_sysE [OF 4] by (blast intro: frame_trans)
  have fr6: "frame s s6" using frame_log_step [OF fr4, of LOG_ERROR] frame_sysE [OF 6] by (blast intro: frame_trans)
  note fr = fr2 fr4 fr6
  note eqs = namespace_persist_def Let_def assms(1) prod.case s1_def [symmetric] 2 3 4 6
  note e = mk(1) effects_sys [OF 2] effects_sys [OF 3] effects_sys [OF 4] effects_sys [OF 6]
  have m: "\<not> ret m < 0" using assms(2) by simp
  consider "ret r < 0" | "\<not> ret r < 0" "ret b < 0" | "\<not> ret r < 0" "\<not> ret b < 0" by blast
  then show ?thesis
  proof cases
    case a: 1
    have "\<exists>t. namespace_persist K pid name path s = Some (CR_ESYSCALL, t) \<and> effects t = effects s2 \<and> frame s t"
      unfolding eqs using m a fr by (auto simp: frame_rules)
    then obtain t where "namespace_persist K pid name path s = Some (CR_ESYSCALL, t)"
      "effects t = effects s2" "frame s t" by blast
    with a e mk(3) show ?thesis
      by (intro exI [of _ CR_ESYSCALL] exI [of _ t] exI [of _ mk] exI [of _ r] exI [of _ c] exI [of _ b] exI [of _ u])
        simp
  next
    case a: 2
    have "namespace_persist K pid name path s = Some (CR_ESYSCALL, s6)" unfolding eqs using m a by simp
    with a e mk(3) fr show ?thesis
      by (intro exI [of _ CR_ESYSCALL] exI [of _ s6] exI [of _ mk] exI [of _ r] exI [of _ c] exI [of _ b] exI [of _ u]) simp
  next
    case a: 3
    have "\<exists>t. namespace_persist K pid name path s = Some (CR_OK, t) \<and> effects t = effects s4 \<and> frame s t"
      unfolding eqs using m a fr by (auto simp: frame_rules)
    then obtain t where "namespace_persist K pid name path s = Some (CR_OK, t)" "effects t = effects s4" "frame s t" by blast
    with a e mk(3) show ?thesis
      by (intro exI [of _ CR_OK] exI [of _ t] exI [of _ mk] exI [of _ r] exI [of _ c] exI [of _ b] exI [of _ u]) simp
  qed
qed

theorem namespace_persist_result_witness:
  "\<exists>rc t. namespace_persist (scripted (\<lambda>_. answer 0 [])) 7 ''net'' ''/run/ns/x'' st0 = Some (rc, t)"
  using namespace_persist_result [where K = "scripted (\<lambda>_. answer 0 [])" and path = "''/run/ns/x''" and s = st0
      and pid = 7 and name = "''net''", OF sys_scripted]
  by (auto simp: answer_def)

end
