(* ===== verification/Inet.thy ===== *)
theory Inet
  imports C_Numbers
begin

text \<open>
  IPv4 addresses as \<^verbatim>\<open>network.c\<close> uses them: the four bytes of a \<^verbatim>\<open>struct in_addr\<close>, the byte
  order of \<^verbatim>\<open>htonl\<close> and \<^verbatim>\<open>ntohl\<close>, and the text forms of \<^verbatim>\<open>inet_pton\<close> (glibc's strict dotted
  quad: four decimal numbers up to 255 without leading zeros) and \<^verbatim>\<open>inet_ntop\<close>. The text forms
  are a codec in the sense of theory \<open>C_Numbers\<close>.
\<close>

section \<open>Addresses\<close>

text \<open>The bytes of \<^verbatim>\<open>s_addr\<close> in memory, that is in network order.\<close>

datatype in_addr = In_addr "8 word" "8 word" "8 word" "8 word"

text \<open>\<^verbatim>\<open>ntohl(addr.s_addr)\<close> and the store of \<^verbatim>\<open>htonl(w)\<close> into \<^verbatim>\<open>s_addr\<close>.\<close>

primrec ntohl :: "in_addr \<Rightarrow> 32 word" where
  "ntohl (In_addr a b c d) =
     word_of_int (uint a * 2 ^ 24 + uint b * 2 ^ 16 + uint c * 2 ^ 8 + uint d)"

definition htonl :: "32 word \<Rightarrow> in_addr" where
  "htonl w = In_addr (word_of_int (uint w div 2 ^ 24)) (word_of_int (uint w div 2 ^ 16))
     (word_of_int (uint w div 2 ^ 8)) (word_of_int (uint w))"

primrec inet_ntop :: "in_addr \<Rightarrow> string" where
  "inet_ntop (In_addr a b c d) =
     dec_nat (unat a) @ ''.'' @ dec_nat (unat b) @ ''.'' @ dec_nat (unat c) @ ''.'' @ dec_nat (unat d)"

text \<open>The scanner of \<^verbatim>\<open>inet_pton\<close>: the finished numbers, and the one that is being read.\<close>

fun pton_scan :: "nat list \<Rightarrow> nat option \<Rightarrow> string \<Rightarrow> nat list option" where
  "pton_scan acc None [] = None"
| "pton_scan acc (Some v) [] = (if length acc = 3 then Some (acc @ [v]) else None)"
| "pton_scan acc cur (c # cs) =
     (if is_digit c then
        (case cur of
           None \<Rightarrow> pton_scan acc (Some (digit_val c)) cs
         | Some v \<Rightarrow>
             if v = 0 \<or> 255 < 10 * v + digit_val c then None
             else pton_scan acc (Some (10 * v + digit_val c)) cs)
      else if c = CHR ''.'' then
        (case cur of
           None \<Rightarrow> None
         | Some v \<Rightarrow> if length acc = 3 then None else pton_scan (acc @ [v]) None cs)
      else None)"

text \<open>\<^verbatim>\<open>inet_pton(AF_INET, text, &addr)\<close>: \<open>None\<close> when the text is not an address, and then \<^verbatim>\<open>addr\<close>
  is not written.\<close>

definition inet_pton :: "string \<Rightarrow> in_addr option" where
  "inet_pton text =
     (case pton_scan [] None text of
        Some [a, b, c, d] \<Rightarrow> Some (In_addr (of_nat a) (of_nat b) (of_nat c) (of_nat d))
      | _ \<Rightarrow> None)"

declare htonl_def [eval_simps] inet_pton_def [eval_simps]

section \<open>Byte order\<close>

lemma uint8_bound: "0 \<le> uint (a :: 8 word) \<and> uint a < 256"
  using uint_lt2p [of a] by simp

lemma unat8_bound: "unat (a :: 8 word) < 256"
proof -
  have "unat a < 2 ^ LENGTH(8)" by (rule unsigned_less)
  then show ?thesis by simp
qed

lemma byte_div: "0 \<le> y \<Longrightarrow> y < 256 \<Longrightarrow> (x * 256 + y) div 256 = (x :: int)"
  by simp

lemma div_bytes: "i div 2 ^ 8 = i div 256" "i div 2 ^ 16 = i div 256 div 256" "i div 2 ^ 24 = i div 256 div 256 div 256" for i :: int
  by (simp_all add: zdiv_zmult2_eq [symmetric])

lemma uint_ntohl: "uint (ntohl (In_addr a b c d)) = ((uint a * 256 + uint b) * 256 + uint c) * 256 + uint d"
proof -
  have "uint (ntohl (In_addr a b c d)) = (uint a * 2 ^ 24 + uint b * 2 ^ 16 + uint c * 2 ^ 8 + uint d) mod 2 ^ 32"
    unfolding ntohl.simps uint_word_of_int by simp
  also have "uint a * 16777216 + uint b * 65536 + uint c * 256 + uint d < 4294967296"
    using uint8_bound [of a] uint8_bound [of b] uint8_bound [of c] uint8_bound [of d] by linarith
  then have "(uint a * 2 ^ 24 + uint b * 2 ^ 16 + uint c * 2 ^ 8 + uint d) mod 2 ^ 32 =
      uint a * 2 ^ 24 + uint b * 2 ^ 16 + uint c * 2 ^ 8 + uint d"
    by (intro mod_pos_pos_trivial) simp_all
  finally show ?thesis by simp
qed

lemma word_byte: "(word_of_int (x * 256 + uint y) :: 8 word) = y"
proof (rule word_uint_eqI)
  have "uint (word_of_int (x * 256 + uint y) :: 8 word) = (x * 256 + uint y) mod 256"
    unfolding uint_word_of_int by simp
  also have "\<dots> = uint y" using uint8_bound [of y] by simp
  finally show "uint (word_of_int (x * 256 + uint y) :: 8 word) = uint y" .
qed

lemma htonl_ntohl [simp]: "htonl (ntohl addr) = addr"
proof (cases addr)
  case (In_addr a b c d)
  note b = uint8_bound [of a] uint8_bound [of b] uint8_bound [of c] uint8_bound [of d]
  have "(word_of_int (uint a) :: 8 word) = a" by simp
  moreover have "uint (ntohl addr) div 2 ^ 8 = (uint a * 256 + uint b) * 256 + uint c"
    unfolding In_addr uint_ntohl div_bytes using b by (simp only: byte_div)
  moreover have "uint (ntohl addr) div 2 ^ 16 = uint a * 256 + uint b"
    unfolding In_addr uint_ntohl div_bytes using b by (simp only: byte_div)
  moreover have "uint (ntohl addr) div 2 ^ 24 = uint a"
    unfolding In_addr uint_ntohl div_bytes using b by (simp only: byte_div)
  ultimately show ?thesis
    unfolding htonl_def by (simp only: word_byte) (simp only: In_addr uint_ntohl word_byte)
qed

lemma ntohl_htonl [simp]: "ntohl (htonl w) = w"
proof (rule word_uint_eqI)
  let ?i = "uint w"
  have i: "0 \<le> ?i" "?i < 2 ^ 32" using uint_lt2p [of w] by simp_all
  have w8: "uint (word_of_int x :: 8 word) = x mod 256" for x unfolding uint_word_of_int by simp
  have "?i div 256 div 256 div 256 < 256" using i by (simp add: zdiv_zmult2_eq [symmetric] div_less_iff_less_mult)
  then have "?i div 256 div 256 div 256 mod 256 = ?i div 256 div 256 div 256"
    using i by (intro mod_pos_pos_trivial) (auto simp: pos_imp_zdiv_nonneg_iff)
  moreover have "x div 256 * 256 + x mod 256 = x" for x :: int by simp
  ultimately show "uint (ntohl (htonl w)) = ?i"
    unfolding htonl_def uint_ntohl w8 div_bytes by simp
qed

section \<open>Text forms\<close>

lemma is_digit_char: "d < 10 \<Longrightarrow> is_digit (digit_char d) \<and> digit_val (digit_char d) = d"
  by (simp add: is_digit_def digit_val_def digit_char_def)

lemma digit_char_val: "is_digit c \<Longrightarrow> digit_val c < 10 \<and> digit_char (digit_val c) = c"
  by (auto simp: is_digit_def digit_val_def digit_char_def)

lemma pton_scan_dec_nat:
  "n \<le> 255 \<Longrightarrow> pton_scan acc None (dec_nat n @ r) = pton_scan acc (Some n) r"
proof (induction n arbitrary: r rule: dec_nat.induct)
  case (1 n)
  show ?case
  proof (cases "n < 10")
    case True
    then show ?thesis using is_digit_char [OF True] by (simp add: dec_nat.simps [of n])
  next
    case False
    moreover have "n mod 10 < 10" by simp
    note is_digit_char [OF this]
    moreover have "10 * (n div 10) + n mod 10 = n" "n div 10 \<noteq> 0" using False by auto
    moreover have "n div 10 \<le> 255" using "1.prems" by simp
    ultimately show ?thesis using 1 by (simp add: dec_nat.simps [of n])
  qed
qed

fun dotted :: "nat list \<Rightarrow> string" where
  "dotted [] = []"
| "dotted [n] = dec_nat n"
| "dotted (n # ns) = dec_nat n @ CHR ''.'' # dotted ns"

lemma dotted_Cons: "ns \<noteq> [] \<Longrightarrow> dotted (n # ns) = dec_nat n @ CHR ''.'' # dotted ns"
  by (cases ns) simp_all

text \<open>What the scanner accepts is exactly the canonical text of the numbers it returns.\<close>

lemma pton_scan_dotted:
  "pton_scan acc cur s = Some ns \<Longrightarrow> (\<forall>v. cur = Some v \<longrightarrow> v \<le> 255) \<Longrightarrow>
   \<exists>ms. ns = acc @ ms \<and> ms \<noteq> [] \<and> length ns = 4 \<and> (\<forall>m \<in> set ms. m \<le> 255) \<and>
     dotted ms = (case cur of None \<Rightarrow> s | Some v \<Rightarrow> dec_nat v @ s)"
proof (induction acc cur s rule: pton_scan.induct)
  case (3 acc cur c cs)
  show ?case
  proof (cases "is_digit c")
    case digit: True
    note d = digit_char_val [OF digit]
    show ?thesis
    proof (cases cur)
      case None
      with 3 digit d show ?thesis by (auto simp: dec_nat.simps [of "digit_val c"])
    next
      case (Some v)
      with "3.prems" digit have v: "v \<noteq> 0" "10 * v + digit_val c \<le> 255"
        "pton_scan acc (Some (10 * v + digit_val c)) cs = Some ns"
        by (auto split: if_splits)
      moreover have "dec_nat (10 * v + digit_val c) = dec_nat v @ [c]"
        using v(1) d by (subst dec_nat.simps) (auto simp: div_add1_eq)
      ultimately show ?thesis using "3.IH"(2) [OF digit Some] Some by auto
    qed
  next
    case False
    with "3.prems" obtain v where v: "c = CHR ''.''" "cur = Some v" "length acc \<noteq> 3"
      "pton_scan (acc @ [v]) None cs = Some ns" by (auto split: if_splits option.splits)
    from "3.IH"(3) [OF False v(1-3) v(4)] obtain ms where ms: "ns = (acc @ [v]) @ ms" "ms \<noteq> []"
      "length ns = 4" "\<forall>m \<in> set ms. m \<le> 255" "dotted ms = cs" by auto
    with v "3.prems"(2) show ?thesis by (intro exI [of _ "v # ms"]) (simp add: dotted_Cons)
  qed
qed (auto split: if_splits)

lemma inet_pton_Some: "inet_pton text = Some addr \<longleftrightarrow> text = inet_ntop addr"
proof
  assume a: "inet_pton text = Some addr"
  then obtain a b c d where s: "pton_scan [] None text = Some [a, b, c, d]"
    and addr: "addr = In_addr (of_nat a) (of_nat b) (of_nat c) (of_nat d)"
    by (auto simp: inet_pton_def split: option.splits list.splits)
  from pton_scan_dotted [OF s] have t: "dotted [a, b, c, d] = text" "\<forall>m \<in> set [a, b, c, d]. m \<le> 255"
    by auto
  have "unat (of_nat n :: 8 word) = n" if "n \<le> 255" for n
    using that by (simp add: unat_of_nat)
  with t show "text = inet_ntop addr" unfolding addr by simp
next
  assume t: "text = inet_ntop addr"
  obtain a b c d where addr: "addr = In_addr a b c d" by (cases addr)
  have u: "unat x \<le> 255" for x :: "8 word" using unat8_bound [of x] by simp
  have "pton_scan [] None text = Some [unat a, unat b, unat c, unat d]"
    unfolding t addr by (simp add: pton_scan_dec_nat [OF u] pton_scan_dec_nat [OF u, where r = "[]", simplified])
  then show "inet_pton text = Some addr" by (simp add: inet_pton_def addr)
qed

lemma inet_pton_ntop [simp]: "inet_pton (inet_ntop addr) = Some addr"
  by (simp add: inet_pton_Some)

text \<open>The strict reader and the printer of addresses are inverse to each other: a text is read
  as an address exactly when it is the canonical text of that address; and the changes of byte
  order undo each other, so an address survives every conversion of \<^verbatim>\<open>network.c\<close>.\<close>

theorem inet_text_form:
  "(inet_pton txt = Some addr \<longleftrightarrow> txt = inet_ntop addr) \<and> htonl (ntohl addr) = addr \<and> ntohl (htonl w) = w"
  by (simp add: inet_pton_Some)

lemma inet_ntop_cstr: "is_cstr (inet_ntop addr)"
  by (cases addr) simp

lemma inet_ntop_length: "length (inet_ntop addr) \<le> 15"
proof (cases addr)
  case (In_addr a b c d)
  have "length (dec_nat (unat x)) \<le> 3" for x :: "8 word"
    using unat8_bound [of x] by (intro length_dec_nat_le) simp_all
  from this [of a] this [of b] this [of c] this [of d] show ?thesis by (simp add: In_addr)
qed

lemma inet_ntop_no_slash: "CHR ''/'' \<notin> set (inet_ntop addr)"
  by (cases addr) (simp add: dec_nat_no)

lemma inet_ntop_nonempty: "inet_ntop addr \<noteq> []"
  by (cases addr) simp

interpretation inet: text_codec inet_ntop inet_pton "\<lambda>_. True"
  by unfold_locales (simp_all add: inet_ntop_cstr)

end
