(* ===== verification/Network.thy ===== *)
theory Network
  imports Scripts Inet
begin

text \<open>
  \<^verbatim>\<open>src/network/network.c\<close>: the bridge, the veth pair of a container, port forwarding, address
  allocation. Everything goes through shell commands; \<^verbatim>\<open>exec_cmd\<close> is the interface
  \<open>command_runner\<close> (run one command, report its success), and the sequences of commands are
  scripts. Addresses are computed with theory \<open>Inet\<close>.
\<close>

section \<open>The code\<close>

definition exec_cmd :: "'k kernel \<Rightarrow> string \<Rightarrow> 'k st \<Rightarrow> int \<times> 'k st" where
  "exec_cmd K cmd s =
     (let s = cr_log K LOG_DEBUG (''Executing: '' @ cmd) s;
          (r, s) = sys K (Sys_system cmd) s
      in if ret r \<noteq> 0 then
           (CR_ERROR, cr_log K LOG_ERROR
              (''Command failed: '' @ cmd @ '' (exit code: '' @ dec_int (ret r) @ '')'') s)
         else (CR_OK, s))"

text \<open>
  The copy of the subnet into \<^verbatim>\<open>char network[64]\<close> and the cut at its slash: the address part, the
  array, and the position behind the slash; an inner \<open>None\<close> when there is no slash. A subnet of
  64 characters or more leaves the array without terminator.
\<close>

definition cut_subnet :: "string \<Rightarrow> (string \<times> cbuf \<times> nat) option option" where
  "cut_subnet subnet = do {
     network \<leftarrow> c_strncpy (uninit 64) subnet 64;
     slash \<leftarrow> c_strchr network 0 CHR ''/'';
     case slash of
       None \<Rightarrow> Some None
     | Some p \<Rightarrow> do {
         network \<leftarrow> poke network p NUL;
         host \<leftarrow> str_at network 0;
         Some (Some (host, network, p + 1))
       }
   }"

text \<open>\<^verbatim>\<open>inet_pton(AF_INET, host, &addr); addr.s_addr = htonl(ntohl(addr.s_addr) + k)\<close>. The result
  of \<^verbatim>\<open>inet_pton\<close> is not checked: for a text that is no address \<^verbatim>\<open>addr\<close> is indeterminate.\<close>

definition addr_plus :: "string \<Rightarrow> 32 word \<Rightarrow> in_addr option" where
  "addr_plus host k = do { addr \<leftarrow> inet_pton host; Some (htonl (ntohl addr + k)) }"

text \<open>\<^verbatim>\<open>network_create_bridge\<close> from the assignment of the gateway on.\<close>

definition configure_bridge :: "'k kernel \<Rightarrow> string \<Rightarrow> string \<Rightarrow> string \<Rightarrow> string \<Rightarrow> 'k st \<Rightarrow> int \<times> 'k st" where
  "configure_bridge K bridge_name subnet gateway bits s =
     (let (rc, s) = exec_cmd K (snprintf 512
            (''ip addr add '' @ gateway @ ''/'' @ bits @ '' dev '' @ bridge_name)) s in
      if rc \<noteq> CR_OK then (CR_ERROR, s) else
      let (rc, s) = exec_cmd K (snprintf 512 (''ip link set '' @ bridge_name @ '' up'')) s in
      if rc \<noteq> CR_OK then (CR_ERROR, s) else
      let (_, s) = exec_cmd K ''sysctl -w net.ipv4.ip_forward=1 >/dev/null 2>&1'' s;
          (_, s) = exec_cmd K (snprintf 512 (''iptables -t nat -A POSTROUTING -s '' @ subnet @
             '' ! -o '' @ bridge_name @ '' -j MASQUERADE'')) s;
          (_, s) = exec_cmd K (snprintf 512 (''iptables -A FORWARD -i '' @ bridge_name @
             '' -o '' @ bridge_name @ '' -j ACCEPT'')) s;
          (_, s) = exec_cmd K (snprintf 512 (''iptables -A FORWARD -o '' @ bridge_name @
             '' -m conntrack --ctstate RELATED,ESTABLISHED -j ACCEPT'')) s
      in (CR_OK, cr_log K LOG_INFO (''Created bridge '' @ bridge_name @ '' with subnet '' @ subnet) s))"

definition network_create_bridge :: "'k kernel \<Rightarrow> string \<Rightarrow> string \<Rightarrow> 'k st \<Rightarrow> (int \<times> 'k st) option" where
  "network_create_bridge K bridge_name subnet s =
     (let (r, s) = sys K (Sys_system (snprintf 512
            (''ip link show '' @ bridge_name @ '' >/dev/null 2>&1''))) s in
      if ret r = 0 then
        Some (CR_OK, cr_log K LOG_INFO (''Bridge '' @ bridge_name @ '' already exists'') s)
      else
      let (rc, s) = exec_cmd K (snprintf 512 (''ip link add name '' @ bridge_name @ '' type bridge'')) s in
      if rc \<noteq> CR_OK then Some (CR_ERROR, s)
      else do {
        cut \<leftarrow> cut_subnet subnet;
        case cut of
          None \<Rightarrow> Some (CR_EINVAL, cr_log K LOG_ERROR (''Invalid subnet format: '' @ subnet) s)
        | Some (host, network, p) \<Rightarrow> do {
            addr \<leftarrow> addr_plus host 1;
            bits \<leftarrow> str_at network p;
            Some (configure_bridge K bridge_name subnet (inet_ntop addr) bits s)
          }
      })"

definition network_delete_bridge :: "'k kernel \<Rightarrow> string \<Rightarrow> 'k st \<Rightarrow> int \<times> 'k st" where
  "network_delete_bridge K bridge_name s =
     (let (_, s) = exec_cmd K (snprintf 512 (''ip link set '' @ bridge_name @ '' down'')) s;
          (rc, s) = exec_cmd K (snprintf 512 (''ip link delete '' @ bridge_name @ '' type bridge'')) s
      in if rc \<noteq> CR_OK then (CR_ERROR, s)
         else (CR_OK, cr_log K LOG_INFO (''Deleted bridge '' @ bridge_name) s))"

definition veth_name :: "string \<Rightarrow> string" where
  "veth_name container_id = snprintf 32 (''veth'' @ take 8 container_id)"

definition network_setup_veth ::
  "'k kernel \<Rightarrow> string \<Rightarrow> string \<Rightarrow> string \<Rightarrow> string \<Rightarrow> 32 word \<Rightarrow> 'k st \<Rightarrow> int \<times> 'k st" where
  "network_setup_veth K container_id bridge_name ip_address gateway container_pid s =
     (let veth_host = veth_name container_id;
          veth_container = snprintf 32 ''eth0'';
          pid = dec_int (sint container_pid);
          (rc, s) = exec_cmd K (snprintf 512
             (''ip link add '' @ veth_host @ '' type veth peer name '' @ veth_container)) s in
      if rc \<noteq> CR_OK then (CR_ERROR, s) else
      let (rc, s) = exec_cmd K (snprintf 512 (''ip link set '' @ veth_host @ '' master '' @ bridge_name)) s in
      if rc \<noteq> CR_OK then (CR_ERROR, s) else
      let (rc, s) = exec_cmd K (snprintf 512 (''ip link set '' @ veth_host @ '' up'')) s in
      if rc \<noteq> CR_OK then (CR_ERROR, s) else
      let (rc, s) = exec_cmd K (snprintf 512 (''ip link set '' @ veth_container @ '' netns '' @ pid)) s in
      if rc \<noteq> CR_OK then (CR_ERROR, s) else
      let (rc, s) = exec_cmd K (snprintf 512
             (''nsenter -t '' @ pid @ '' -n ip addr add '' @ ip_address @ '' dev '' @ veth_container)) s in
      if rc \<noteq> CR_OK then (CR_ERROR, s) else
      let (rc, s) = exec_cmd K (snprintf 512
             (''nsenter -t '' @ pid @ '' -n ip link set '' @ veth_container @ '' up'')) s in
      if rc \<noteq> CR_OK then (CR_ERROR, s) else
      let (rc, s) = exec_cmd K (snprintf 512
             (''nsenter -t '' @ pid @ '' -n ip route add default via '' @ gateway)) s in
      if rc \<noteq> CR_OK then (CR_ERROR, s) else
      let (_, s) = exec_cmd K (snprintf 512 (''nsenter -t '' @ pid @ '' -n ip link set lo up'')) s
      in (CR_OK, cr_log K LOG_INFO
            (''Setup veth pair for container '' @ container_id @ '' (IP: '' @ ip_address @ '')'') s))"

text \<open>The two rules of a port; \<open>act\<close> is \<^verbatim>\<open>-A\<close> to add a rule and \<^verbatim>\<open>-D\<close> to delete it.\<close>

definition dnat_cmd :: "string \<Rightarrow> string \<Rightarrow> port_mapping_t \<Rightarrow> string" where
  "dnat_cmd act container_ip pm = snprintf 512
     (''iptables -t nat '' @ act @ '' PREROUTING -p '' @ protocol pm @ '' --dport '' @
      dec_nat (unat (host_port pm)) @ '' -j DNAT --to-destination '' @ container_ip @ '':'' @
      dec_nat (unat (container_port pm)))"

definition forward_cmd :: "string \<Rightarrow> string \<Rightarrow> port_mapping_t \<Rightarrow> string" where
  "forward_cmd act container_ip pm = snprintf 512
     (''iptables '' @ act @ '' FORWARD -p '' @ protocol pm @ '' -d '' @ container_ip @ '' --dport '' @
      dec_nat (unat (container_port pm)) @ '' -j ACCEPT'')"

text \<open>The loops over the first \<open>n\<close> cells of the array of ports.\<close>

fun forward_ports :: "'k kernel \<Rightarrow> string \<Rightarrow> port_mapping_t list \<Rightarrow> nat \<Rightarrow> 'k st \<Rightarrow> 'k st option" where
  "forward_ports K ip pms 0 s = Some s"
| "forward_ports K ip [] (Suc n) s = None"
| "forward_ports K ip (pm # pms) (Suc n) s =
     (let (rc, s) = exec_cmd K (dnat_cmd ''-A'' ip pm) s in
      if rc \<noteq> CR_OK then
        forward_ports K ip pms n (cr_log K LOG_WARN
          (''Failed to setup port forwarding '' @ dec_nat (unat (host_port pm)) @ ''->'' @
           dec_nat (unat (container_port pm))) s)
      else
        let (_, s) = exec_cmd K (forward_cmd ''-A'' ip pm) s
        in forward_ports K ip pms n (cr_log K LOG_INFO
             (''Forwarded port '' @ protocol pm @ ''/'' @ dec_nat (unat (host_port pm)) @ '' -> '' @
              dec_nat (unat (container_port pm))) s))"

definition network_setup_port_forwarding ::
  "'k kernel \<Rightarrow> string \<Rightarrow> port_mapping_t list \<Rightarrow> 32 word \<Rightarrow> 'k st \<Rightarrow> (int \<times> 'k st) option" where
  "network_setup_port_forwarding K container_ip ports num_ports s =
     map_option (\<lambda>s. (CR_OK, s)) (forward_ports K container_ip ports (nat (sint num_ports)) s)"

fun unforward_ports :: "'k kernel \<Rightarrow> string \<Rightarrow> port_mapping_t list \<Rightarrow> nat \<Rightarrow> 'k st \<Rightarrow> 'k st option" where
  "unforward_ports K ip pms 0 s = Some s"
| "unforward_ports K ip [] (Suc n) s = None"
| "unforward_ports K ip (pm # pms) (Suc n) s =
     (let (_, s) = exec_cmd K (dnat_cmd ''-D'' ip pm) s;
          (_, s) = exec_cmd K (forward_cmd ''-D'' ip pm) s
      in unforward_ports K ip pms n s)"

definition network_remove_port_forwarding ::
  "'k kernel \<Rightarrow> string \<Rightarrow> port_mapping_t list \<Rightarrow> 32 word \<Rightarrow> 'k st \<Rightarrow> (int \<times> 'k st) option" where
  "network_remove_port_forwarding K container_ip ports num_ports s =
     map_option (\<lambda>s. (CR_OK, s)) (unforward_ports K container_ip ports (nat (sint num_ports)) s)"

text \<open>\<^verbatim>\<open>inet_ntop\<close> into an array: an array that is too small is left alone.\<close>

definition c_inet_ntop :: "in_addr \<Rightarrow> cbuf \<Rightarrow> nat \<Rightarrow> cbuf option" where
  "c_inet_ntop addr buf len =
     (if length (inet_ntop addr) < len then c_strcpy buf (inet_ntop addr) else Some buf)"

text \<open>\<^verbatim>\<open>ip_len - strlen(ip_address) - 1\<close> in \<^verbatim>\<open>size_t\<close>, and the at most \<open>n\<close> bytes that
  \<^verbatim>\<open>strncat\<close> reads from an array.\<close>

definition room :: "nat \<Rightarrow> string \<Rightarrow> nat" where
  "room len str = nat ((int len - int (length str) - 1) mod 2 ^ 64)"

fun read_upto :: "nat \<Rightarrow> cbuf \<Rightarrow> string option" where
  "read_upto 0 b = Some []"
| "read_upto (Suc n) [] = None"
| "read_upto (Suc n) (None # b) = None"
| "read_upto (Suc n) (Some c # b) = (if c = NUL then Some [] else map_option ((#) c) (read_upto n b))"

definition network_allocate_ip ::
  "'k kernel \<Rightarrow> string \<Rightarrow> cbuf \<Rightarrow> nat \<Rightarrow> 'k st \<Rightarrow> ((int \<times> cbuf) \<times> 'k st) option" where
  "network_allocate_ip K subnet ip_address ip_len s = do {
     cut \<leftarrow> cut_subnet subnet;
     case cut of
       None \<Rightarrow> Some ((CR_EINVAL, ip_address), s)
     | Some (host, network, p) \<Rightarrow> do {
         let s = seed_from_clock K s;
         let (r, s) = rand K s;
         let offset = r mod 253 + 2;
         addr \<leftarrow> addr_plus host (of_nat offset);
         ip_address \<leftarrow> c_inet_ntop addr ip_address ip_len;
         str \<leftarrow> cbuf_str ip_address;
         ip_address \<leftarrow> c_strncat ip_address ''/'' (room ip_len str);
         str \<leftarrow> cbuf_str ip_address;
         bits \<leftarrow> read_upto (room ip_len str) (drop p network);
         ip_address \<leftarrow> c_strncat ip_address bits (room ip_len str);
         Some ((CR_OK, ip_address), s)
       }
   }"

text \<open>The copy of an address into \<^verbatim>\<open>char container_ip[64]\<close>, without the part from the slash on.\<close>

definition plain_ip :: "string \<Rightarrow> string option" where
  "plain_ip ip_address = do {
     container_ip \<leftarrow> c_strncpy (uninit 64) ip_address 64;
     slash \<leftarrow> c_strchr container_ip 0 CHR ''/'';
     container_ip \<leftarrow> (case slash of None \<Rightarrow> Some container_ip | Some p \<Rightarrow> poke container_ip p NUL);
     str_at container_ip 0
   }"

text \<open>The address and the gateway that \<^verbatim>\<open>network_setup_container\<close> fills in. The field of an
  empty address is an array with the terminator in front; the bytes behind it do not matter.\<close>

definition choose_ip ::
  "'k kernel \<Rightarrow> network_config_t \<Rightarrow> 'k st \<Rightarrow> ((int \<times> network_config_t) \<times> 'k st) option" where
  "choose_ip K net s =
     (if nw_ip_address net = [] then do {
        ((rc, buf), s) \<leftarrow> network_allocate_ip K (nw_subnet net) (Some NUL # uninit 63) 64 s;
        ip \<leftarrow> cbuf_str buf;
        Some ((rc, net\<lparr>nw_ip_address := ip\<rparr>), s)
      }
      else Some ((CR_OK, net), s))"

definition choose_gateway :: "network_config_t \<Rightarrow> network_config_t option" where
  "choose_gateway net =
     (if nw_gateway net = [] then do {
        cut \<leftarrow> cut_subnet (nw_subnet net);
        case cut of
          None \<Rightarrow> Some net
        | Some (host, _, _) \<Rightarrow> do {
            addr \<leftarrow> addr_plus host 1;
            Some (net\<lparr>nw_gateway := inet_ntop addr\<rparr>)
          }
      }
      else Some net)"

definition set_network :: "container_t \<Rightarrow> network_config_t \<Rightarrow> container_t" where
  "set_network container net = container\<lparr>ct_config := (ct_config container)\<lparr>cfg_network := net\<rparr>\<rparr>"

definition network_setup_container ::
  "'k kernel \<Rightarrow> container_t \<Rightarrow> 'k st \<Rightarrow> ((int \<times> container_t) \<times> 'k st) option" where
  "network_setup_container K container s = do {
     let net = cfg_network (ct_config container);
     (rc, s) \<leftarrow> network_create_bridge K (nw_bridge_name net) (nw_subnet net) s;
     if rc \<noteq> CR_OK then Some ((CR_ERROR, container), s)
     else do {
       ((rc, net), s) \<leftarrow> choose_ip K net s;
       let container = set_network container net;
       if rc \<noteq> CR_OK then Some ((CR_ERROR, container), s)
       else do {
         net \<leftarrow> choose_gateway net;
         let container = set_network container net;
         let (rc, s) = network_setup_veth K (cfg_id (ct_config container)) (nw_bridge_name net)
                         (nw_ip_address net) (nw_gateway net) (ct_init_pid container) s;
         if rc \<noteq> CR_OK then Some ((CR_ERROR, container), s)
         else if 0 < sint (nw_num_ports net) then do {
           container_ip \<leftarrow> plain_ip (nw_ip_address net);
           (_, s) \<leftarrow> network_setup_port_forwarding K container_ip (nw_ports net) (nw_num_ports net) s;
           Some ((CR_OK, container), s)
         }
         else Some ((CR_OK, container), s)
       }
     }
   }"

definition network_cleanup_container :: "'k kernel \<Rightarrow> container_t \<Rightarrow> 'k st \<Rightarrow> (int \<times> 'k st) option" where
  "network_cleanup_container K container s = do {
     let net = cfg_network (ct_config container);
     s \<leftarrow> (if 0 < sint (nw_num_ports net) then do {
             container_ip \<leftarrow> plain_ip (nw_ip_address net);
             (_, s) \<leftarrow> network_remove_port_forwarding K container_ip (nw_ports net) (nw_num_ports net) s;
             Some s
           }
           else Some s);
     let (_, s) = exec_cmd K (snprintf 512
           (''ip link delete '' @ veth_name (cfg_id (ct_config container)) @ '' 2>/dev/null'')) s;
     Some (CR_OK, s)
   }"

section \<open>The command interface\<close>

locale command_runner =
  fixes run :: "string \<Rightarrow> 'k st \<Rightarrow> int \<times> 'k st"
  assumes run_performs: "performs [(Sys_system c, failed)] s (snd (run c s)) (fst (run c s) \<noteq> CR_OK)"
    and run_rc: "fst (run c s) = CR_OK \<or> fst (run c s) = CR_ERROR"
begin

lemma run_frame: "frame s t \<Longrightarrow> frame s (snd (run c t))"
  using performs_frame [OF run_performs] frame_trans by blast

text \<open>A command whose failure ends the operation, and one whose result is ignored.\<close>

lemma run_must:
  assumes "run c s = (rc, s1)" and "rc \<noteq> CR_OK \<Longrightarrow> quiet s1 t \<and> ab"
    and "rc = CR_OK \<Longrightarrow> performs sc s1 t ab"
  shows "performs ((Sys_system c, failed) # sc) s t ab"
proof -
  have one: "performs [(Sys_system c, failed)] s s1 (rc \<noteq> CR_OK)"
    using run_performs [of c s] assms(1) by simp
  show ?thesis
  proof (cases "rc = CR_OK")
    case True
    with one assms(3) performs_append [of "[(Sys_system c, failed)]" s s1 sc t ab] show ?thesis by simp
  next
    case False
    with one assms(2) have "performs [(Sys_system c, failed)] s t True" and ab
      by (auto intro: performs_quiet_end)
    with performs_append_abort [of "[(Sys_system c, failed)]" s t sc] show ?thesis by simp
  qed
qed

lemma run_ignored:
  assumes "run c s = (rc, s1)" and "performs sc s1 t ab"
  shows "performs ((Sys_system c, tolerated) # sc) s t ab"
proof -
  have "performs [(Sys_system c, tolerated)] s s1 False"
    using performs_tolerated_single [OF run_performs, of c s] assms(1) by simp
  from performs_append [OF this assms(2)] show ?thesis by simp
qed

text \<open>The same for a whole operation, step by step along the code.\<close>

lemma implements_must:
  assumes "implements sc f" and "code \<noteq> CR_OK"
  shows "implements ((Sys_system c, failed) # sc)
    (\<lambda>s. case run c s of (rc, s) \<Rightarrow> if rc \<noteq> CR_OK then (code, s) else f s)"
  unfolding implements_def
proof
  fix s
  obtain rc s1 where 1: "run c s = (rc, s1)" by force
  show "performs ((Sys_system c, failed) # sc) s
      (snd (case run c s of (rc, s) \<Rightarrow> if rc \<noteq> CR_OK then (code, s) else f s))
      (fst (case run c s of (rc, s) \<Rightarrow> if rc \<noteq> CR_OK then (code, s) else f s) \<noteq> CR_OK)"
    unfolding 1 prod.case using assms by (intro run_must [OF 1]) (auto simp: implements_def)
qed

lemma implements_ignored:
  assumes "implements sc f"
  shows "implements ((Sys_system c, tolerated) # sc) (\<lambda>s. case run c s of (rc, s) \<Rightarrow> f s)"
  unfolding implements_def
proof
  fix s
  obtain rc s1 where 1: "run c s = (rc, s1)" by force
  show "performs ((Sys_system c, tolerated) # sc) s (snd (case run c s of (rc, s) \<Rightarrow> f s))
      (fst (case run c s of (rc, s) \<Rightarrow> f s) \<noteq> CR_OK)"
    unfolding 1 prod.case using assms by (intro run_ignored [OF 1]) (auto simp: implements_def)
qed

lemma run_result:
  assumes "run c s = (rc, t)"
  obtains r where "effects t = effects s @ [(Sys_system c, r)]" "rc = (if ret r = 0 then CR_OK else CR_ERROR)"
    "frame s t"
proof -
  obtain es where es: "frame s t" "effects t = effects s @ es" "follows [(Sys_system c, failed)] es (rc \<noteq> CR_OK)"
    using run_performs [of c s] assms by (auto simp: performs_def)
  then obtain r where "es = [(Sys_system c, r)]" "failed r \<longleftrightarrow> rc \<noteq> CR_OK" by (cases es) (auto split: if_splits)
  with es run_rc [of c s] assms show thesis by (intro that [of r]) (auto simp: failed_def)
qed

end

interpretation sh: command_runner "exec_cmd K" for K :: "'k kernel"
proof
  fix c :: string and s :: "'k st"
  let ?s = "cr_log K LOG_DEBUG (''Executing: '' @ c) s"
  obtain r s1 where 1: "sys K (Sys_system c) ?s = (r, s1)" by force
  have "performs [(Sys_system c, failed)] ?s (snd (exec_cmd K c s)) (fst (exec_cmd K c s) \<noteq> CR_OK)"
    unfolding exec_cmd_def Let_def 1 prod.case
    by (rule performs_request [OF 1]) (auto simp: failed_def intro: performs_Nil)
  then show "performs [(Sys_system c, failed)] s (snd (exec_cmd K c s)) (fst (exec_cmd K c s) \<noteq> CR_OK)"
    by (rule performs_quiet [rotated]) simp
qed (simp add: exec_cmd_def Let_def split_beta)

lemmas frame_exec_cmd [frame_rules] = sh.run_frame

lemmas exec_steps = sh.implements_must sh.implements_ignored implements_log

section \<open>Cutting a subnet\<close>

lemma strncpy64:
  assumes "is_cstr str" and "length str < 64"
  shows "c_strncpy (uninit 64) str 64 = Some (map Some str @ Some NUL # replicate (63 - length str) (Some NUL))"
proof -
  have "64 - length str = Suc (63 - length str)" using assms(2) by simp
  then have "replicate (64 - length str) (Some NUL) = Some NUL # replicate (63 - length str) (Some NUL)"
    by (simp only: replicate_Suc)
  then show ?thesis using assms by (simp add: c_strncpy_def uninit_def)
qed

lemma cut_subnet_slash:
  assumes "is_cstr (host @ CHR ''/'' # bits)" and "CHR ''/'' \<notin> set host" and "length host + length bits < 63"
  obtains network r where "cut_subnet (host @ CHR ''/'' # bits) = Some (Some (host, network, length host + 1))"
    and "drop (length host + 1) network = map Some bits @ Some NUL # r"
    and "str_at network (length host + 1) = Some bits"
proof -
  let ?s = "host @ CHR ''/'' # bits" and ?r = "replicate (62 - (length host + length bits)) (Some NUL)"
  let ?b = "map Some host @ Some CHR ''/'' # map Some bits @ Some NUL # ?r"
  let ?n = "map Some host @ Some NUL # map Some bits @ Some NUL # ?r"
  have "c_strncpy (uninit 64) ?s 64 = Some ?b"
    using strncpy64 [of ?s] assms by simp
  moreover have "c_strchr ?b 0 CHR ''/'' = Some (Some (length host))"
    using scan_chr_found [of host "CHR ''/''"] assms by (simp add: c_strchr_def)
  moreover have "poke ?b (length host) NUL = Some ?n"
    by (simp add: poke_def list_update_append)
  moreover have "str_at ?n 0 = Some host" using assms by (simp add: str_at_def)
  ultimately have "cut_subnet ?s = Some (Some (host, ?n, length host + 1))"
    by (simp add: cut_subnet_def)
  moreover have "drop (length host + 1) ?n = map Some bits @ Some NUL # ?r" by simp
  moreover have "str_at ?n (length host + 1) = Some bits"
    using assms calculation(2) by (simp add: str_at_def)
  ultimately show thesis by (rule that)
qed

lemma cut_subnet_plain:
  assumes "is_cstr subnet" and "CHR ''/'' \<notin> set subnet" and "length subnet < 64"
  shows "cut_subnet subnet = Some None"
  using assms scan_chr_absent [of subnet "CHR ''/''"]
  by (simp add: cut_subnet_def strncpy64 c_strchr_def)

section \<open>The bridge\<close>

text \<open>The commands that make a bridge, with those that must succeed.\<close>

definition bridge_script :: "string \<Rightarrow> string \<Rightarrow> string \<Rightarrow> string \<Rightarrow> script" where
  "bridge_script bridge subnet gateway bits =
     [(Sys_system (snprintf 512 (''ip addr add '' @ gateway @ ''/'' @ bits @ '' dev '' @ bridge)), failed),
      (Sys_system (snprintf 512 (''ip link set '' @ bridge @ '' up'')), failed),
      (Sys_system ''sysctl -w net.ipv4.ip_forward=1 >/dev/null 2>&1'', tolerated),
      (Sys_system (snprintf 512 (''iptables -t nat -A POSTROUTING -s '' @ subnet @ '' ! -o '' @ bridge @
         '' -j MASQUERADE'')), tolerated),
      (Sys_system (snprintf 512 (''iptables -A FORWARD -i '' @ bridge @ '' -o '' @ bridge @ '' -j ACCEPT'')), tolerated),
      (Sys_system (snprintf 512 (''iptables -A FORWARD -o '' @ bridge @
         '' -m conntrack --ctstate RELATED,ESTABLISHED -j ACCEPT'')), tolerated)]"

lemma configure_bridge_performs:
  assumes "configure_bridge K bridge subnet gateway bits s = (rc, t)"
  shows "rc \<in> {CR_OK, CR_ERROR} \<and> performs (bridge_script bridge subnet gateway bits) s t (rc \<noteq> CR_OK)"
proof -
  have "implements (bridge_script bridge subnet gateway bits) (configure_bridge K bridge subnet gateway bits)"
    unfolding configure_bridge_def [abs_def] bridge_script_def Let_def by (intro exec_steps) simp_all
  moreover have "rc \<in> {CR_OK, CR_ERROR}"
    using assms unfolding configure_bridge_def Let_def by (auto split: prod.splits if_splits)
  ultimately show ?thesis using assms by (auto dest: implements_performs)
qed

lemma create_bridge_performs:
  assumes "is_cstr bits" and "length bits < 48"
  shows "\<exists>rc t q s1. network_create_bridge K bridge (inet_ntop a @ CHR ''/'' # bits) s = Some (rc, t) \<and>
    sys K (Sys_system (snprintf 512 (''ip link show '' @ bridge @ '' >/dev/null 2>&1''))) s = (q, s1) \<and>
    (if ret q = 0 then rc = CR_OK \<and> quiet s1 t
     else rc \<in> {CR_OK, CR_ERROR} \<and>
       performs ((Sys_system (snprintf 512 (''ip link add name '' @ bridge @ '' type bridge'')), failed) #
         bridge_script bridge (inet_ntop a @ CHR ''/'' # bits) (inet_ntop (htonl (ntohl a + 1))) bits)
         s1 t (rc \<noteq> CR_OK))"
proof -
  let ?sub = "inet_ntop a @ CHR ''/'' # bits" and ?gw = "inet_ntop (htonl (ntohl a + 1))"
  obtain network r where cut: "cut_subnet ?sub = Some (Some (inet_ntop a, network, length (inet_ntop a) + 1))"
    "str_at network (length (inet_ntop a) + 1) = Some bits"
    using cut_subnet_slash [of "inet_ntop a" bits] assms inet_ntop_cstr [of a] inet_ntop_no_slash [of a]
      inet_ntop_length [of a] by auto
  have addr: "addr_plus (inet_ntop a) 1 = Some (htonl (ntohl a + 1))"
    by (simp add: addr_plus_def)
  obtain q s1 where 1: "sys K (Sys_system (snprintf 512 (''ip link show '' @ bridge @ '' >/dev/null 2>&1''))) s
      = (q, s1)" by force
  obtain r2 s2 where 2: "exec_cmd K (snprintf 512 (''ip link add name '' @ bridge @ '' type bridge'')) s1 = (r2, s2)"
    by force
  obtain rc t where c: "configure_bridge K bridge ?sub ?gw bits s2 = (rc, t)" by force
  note cfg = configure_bridge_performs [OF c]
  note eqs = network_create_bridge_def Let_def 1 2 prod.case cut bind.bind_lunit option.case addr c
  consider "ret q = 0" | "ret q \<noteq> 0" "r2 \<noteq> CR_OK" | "ret q \<noteq> 0" "r2 = CR_OK" by blast
  then show ?thesis
  proof cases
    case a: 1
    then show ?thesis unfolding eqs by (simp del: append_Cons)
  next
    case a: 2
    have "network_create_bridge K bridge ?sub s = Some (CR_ERROR, s2)" unfolding eqs using a by (simp del: append_Cons)
    moreover have "performs ((Sys_system (snprintf 512 (''ip link add name '' @ bridge @ '' type bridge'')), failed) # sc)
        s1 s2 True" for sc by (rule sh.run_must [OF 2]) (use a in simp_all)
    ultimately show ?thesis using 1 a by (auto simp del: append_Cons)
  next
    case a: 3
    have "network_create_bridge K bridge ?sub s = Some (rc, t)" unfolding eqs using a by (simp del: append_Cons)
    moreover have "performs ((Sys_system (snprintf 512 (''ip link add name '' @ bridge @ '' type bridge'')), failed) #
        bridge_script bridge ?sub ?gw bits) s1 t (rc \<noteq> CR_OK)"
      by (rule sh.run_must [OF 2]) (use a cfg in simp_all)
    ultimately show ?thesis using 1 a cfg by (auto simp del: append_Cons)
  qed
qed

text \<open>C20. Given a valid subnet, \<^verbatim>\<open>network_create_bridge\<close> leaves an existing bridge alone, and otherwise
  creates it and follows the bridge script with the first address of the subnet as gateway: it
  stops with \<^verbatim>\<open>CR_ERROR\<close> at the first failure of the creation, the address or the activation, and
  tolerates failures of forwarding and NAT.\<close>

theorem network_create_bridge_script:
  assumes "is_cstr bits" and "length bits < 48"
  shows "\<exists>rc t q s1. network_create_bridge K bridge (inet_ntop a @ CHR ''/'' # bits) s = Some (rc, t) \<and>
    sys K (Sys_system (snprintf 512 (''ip link show '' @ bridge @ '' >/dev/null 2>&1''))) s = (q, s1) \<and>
    (if ret q = 0 then rc = CR_OK \<and> quiet s1 t
     else rc \<in> {CR_OK, CR_ERROR} \<and>
       performs ((Sys_system (snprintf 512 (''ip link add name '' @ bridge @ '' type bridge'')), failed) #
         bridge_script bridge (inet_ntop a @ CHR ''/'' # bits) (inet_ntop (htonl (ntohl a + 1))) bits)
         s1 t (rc \<noteq> CR_OK))"
  using assms by (rule create_bridge_performs)

text \<open>C32. A subnet without a slash is only noticed after the bridge has been created: the operation
  fails with \<^verbatim>\<open>CR_EINVAL\<close> and leaves the new bridge behind.\<close>

theorem network_create_bridge_leak:
  assumes "is_cstr subnet" and "CHR ''/'' \<notin> set subnet" and "length subnet < 64"
    and "sys K (Sys_system (snprintf 512 (''ip link show '' @ bridge @ '' >/dev/null 2>&1''))) s = (q, s1)"
    and "ret q \<noteq> 0"
    and "exec_cmd K (snprintf 512 (''ip link add name '' @ bridge @ '' type bridge'')) s1 = (CR_OK, s2)"
  shows "\<exists>t r. network_create_bridge K bridge subnet s = Some (CR_EINVAL, t) \<and> ret r = 0 \<and>
    effects t = effects s1 @ [(Sys_system (snprintf 512 (''ip link add name '' @ bridge @ '' type bridge'')), r)]"
proof -
  obtain r where r: "effects s2 = effects s1 @
      [(Sys_system (snprintf 512 (''ip link add name '' @ bridge @ '' type bridge'')), r)]" "ret r = 0"
    using assms(6) by (rule sh.run_result) (auto split: if_splits)
  show ?thesis
    unfolding network_create_bridge_def Let_def assms(4,6) prod.case cut_subnet_plain [OF assms(1-3)]
      bind.bind_lunit option.case
    using r assms(5) by (auto simp del: append_Cons)
qed

text \<open>\<^verbatim>\<open>network_delete_bridge\<close> deactivates and deletes the bridge; only the deletion decides.\<close>

theorem network_delete_bridge_script:
  "(let (rc, t) = network_delete_bridge K bridge s in rc \<in> {CR_OK, CR_ERROR} \<and>
     performs [(Sys_system (snprintf 512 (''ip link set '' @ bridge @ '' down'')), tolerated),
       (Sys_system (snprintf 512 (''ip link delete '' @ bridge @ '' type bridge'')), failed)] s t (rc \<noteq> CR_OK))"
proof -
  let ?sc = "[(Sys_system (snprintf 512 (''ip link set '' @ bridge @ '' down'')), tolerated),
       (Sys_system (snprintf 512 (''ip link delete '' @ bridge @ '' type bridge'')), failed)]"
  have "implements ?sc (network_delete_bridge K bridge)"
    unfolding network_delete_bridge_def [abs_def] Let_def by (intro exec_steps) simp_all
  moreover have "fst (network_delete_bridge K bridge s) \<in> {CR_OK, CR_ERROR}"
    by (simp add: network_delete_bridge_def split_beta)
  ultimately show ?thesis by (auto simp: implements_def split_beta)
qed

section \<open>The veth pair\<close>

definition veth_script :: "string \<Rightarrow> string \<Rightarrow> string \<Rightarrow> string \<Rightarrow> string \<Rightarrow> script" where
  "veth_script veth bridge ip gateway pid =
     [(Sys_system (snprintf 512 (''ip link add '' @ veth @ '' type veth peer name '' @ ''eth0'')), failed),
      (Sys_system (snprintf 512 (''ip link set '' @ veth @ '' master '' @ bridge)), failed),
      (Sys_system (snprintf 512 (''ip link set '' @ veth @ '' up'')), failed),
      (Sys_system (snprintf 512 (''ip link set '' @ ''eth0'' @ '' netns '' @ pid)), failed),
      (Sys_system (snprintf 512 (''nsenter -t '' @ pid @ '' -n ip addr add '' @ ip @ '' dev '' @ ''eth0'')), failed),
      (Sys_system (snprintf 512 (''nsenter -t '' @ pid @ '' -n ip link set '' @ ''eth0'' @ '' up'')), failed),
      (Sys_system (snprintf 512 (''nsenter -t '' @ pid @ '' -n ip route add default via '' @ gateway)), failed),
      (Sys_system (snprintf 512 (''nsenter -t '' @ pid @ '' -n ip link set lo up'')), tolerated)]"

text \<open>C29. \<^verbatim>\<open>network_setup_veth\<close> follows its script and stops with \<^verbatim>\<open>CR_ERROR\<close> at the first failure of
  the first seven commands; the host end is attached and up before the container end moves, the
  address is set before the device is activated, the route comes last. The name of the host end
  is made of the first eight characters of the identifier and fits the 15 characters Linux allows.\<close>

theorem network_setup_veth_script:
  "(let (rc, t) = network_setup_veth K ident bridge ip gateway pid s in rc \<in> {CR_OK, CR_ERROR} \<and>
     performs (veth_script (''veth'' @ take 8 ident) bridge ip gateway (dec_int (sint pid))) s t (rc \<noteq> CR_OK)) \<and>
   length (veth_name ident) \<le> 15"
proof -
  let ?v = "''veth'' @ take 8 ident" and ?p = "dec_int (sint pid)"
  have names: "veth_name ident = ?v" "snprintf 32 ''eth0'' = ''eth0''"
    by (simp_all add: veth_name_def snprintf_def)
  have "implements (veth_script ?v bridge ip gateway ?p) (network_setup_veth K ident bridge ip gateway pid)"
    unfolding network_setup_veth_def [abs_def] Let_def names veth_script_def by (intro exec_steps) simp_all
  moreover have "fst (network_setup_veth K ident bridge ip gateway pid s) \<in> {CR_OK, CR_ERROR}"
    by (simp add: network_setup_veth_def Let_def split_beta)
  ultimately show ?thesis by (auto simp: implements_def split_beta names)
qed

lemma frame_setup_veth [frame_rules]:
  "frame s t \<Longrightarrow> frame s (snd (network_setup_veth K ident bridge ip gateway pid t))"
  by (simp add: network_setup_veth_def Let_def split_beta frame_rules)

section \<open>Port forwarding\<close>

text \<open>The commands for a list of ports: the translation of each, and the forwarding rule of those
  whose translation was accepted.\<close>

fun forwarded :: "string \<Rightarrow> port_mapping_t list \<Rightarrow> (sysreq \<times> sysres) list \<Rightarrow> bool" where
  "forwarded ip [] es \<longleftrightarrow> es = []"
| "forwarded ip (pm # pms) [] \<longleftrightarrow> False"
| "forwarded ip (pm # pms) (e # es) \<longleftrightarrow>
     fst e = Sys_system (dnat_cmd ''-A'' ip pm) \<and>
     (if ret (snd e) \<noteq> 0 then forwarded ip pms es
      else case es of
        [] \<Rightarrow> False
      | e' # es' \<Rightarrow> fst e' = Sys_system (forward_cmd ''-A'' ip pm) \<and> forwarded ip pms es')"

definition unforward_script :: "string \<Rightarrow> port_mapping_t list \<Rightarrow> script" where
  "unforward_script ip pms = concat (map (\<lambda>pm.
     [(Sys_system (dnat_cmd ''-D'' ip pm), tolerated), (Sys_system (forward_cmd ''-D'' ip pm), tolerated)]) pms)"

lemma forward_ports_forwarded:
  "n \<le> length pms \<Longrightarrow> \<exists>t es. forward_ports K ip pms n s = Some t \<and> frame s t \<and>
     effects t = effects s @ es \<and> forwarded ip (take n pms) es"
proof (induction n arbitrary: pms s)
  case (Suc n all)
  then obtain pm pms where all: "all = pm # pms" and n: "n \<le> length pms" by (cases all) auto
  obtain rc s1 where 1: "exec_cmd K (dnat_cmd ''-A'' ip pm) s = (rc, s1)" by force
  obtain r where r: "effects s1 = effects s @ [(Sys_system (dnat_cmd ''-A'' ip pm), r)]"
    "rc = (if ret r = 0 then CR_OK else CR_ERROR)" "frame s s1" using 1 by (rule sh.run_result)
  obtain rc' s2 where 2: "exec_cmd K (forward_cmd ''-A'' ip pm) s1 = (rc', s2)" by force
  obtain r' where r': "effects s2 = effects s1 @ [(Sys_system (forward_cmd ''-A'' ip pm), r')]" "frame s1 s2"
    using 2 by (rule sh.run_result)
  let ?w = "''Failed to setup port forwarding '' @ dec_nat (unat (host_port pm)) @ ''->'' @ dec_nat (unat (container_port pm))"
  let ?i = "''Forwarded port '' @ protocol pm @ ''/'' @ dec_nat (unat (host_port pm)) @ '' -> '' @
      dec_nat (unat (container_port pm))"
  define s3 where "s3 = (if rc \<noteq> CR_OK then cr_log K LOG_WARN ?w s1 else cr_log K LOG_INFO ?i s2)"
  have step: "forward_ports K ip all (Suc n) s = forward_ports K ip pms n s3"
    unfolding all forward_ports.simps Let_def 1 2 prod.case s3_def by simp
  obtain t es where t: "forward_ports K ip pms n s3 = Some t" "frame s3 t" "effects t = effects s3 @ es"
    "forwarded ip (take n pms) es" using Suc.IH [OF n, of s3] by blast
  have "frame s s3" using r(3) r'(2) frame_trans by (auto simp: s3_def intro!: frame_rules)
  then have f: "frame s t" using t(2) frame_trans by blast
  show ?case
  proof (cases "ret r = 0")
    case True
    then show ?thesis using step t f r r'
      by (intro exI [of _ t] exI [of _ "(Sys_system (dnat_cmd ''-A'' ip pm), r) #
            (Sys_system (forward_cmd ''-A'' ip pm), r') # es"])
        (simp add: all s3_def del: append_Cons)
  next
    case False
    then show ?thesis using step t f r
      by (intro exI [of _ t] exI [of _ "(Sys_system (dnat_cmd ''-A'' ip pm), r) # es"])
        (simp add: all s3_def del: append_Cons)
  qed
qed simp

lemma unforward_ports_performs:
  "n \<le> length pms \<Longrightarrow> \<exists>t. unforward_ports K ip pms n s = Some t \<and>
     performs (unforward_script ip (take n pms)) s t False"
proof (induction n arbitrary: pms s)
  case 0
  then show ?case by (simp add: unforward_script_def performs_Nil)
next
  case (Suc n all)
  then obtain pm pms where all: "all = pm # pms" and n: "n \<le> length pms" by (cases all) auto
  obtain rc s1 where 1: "exec_cmd K (dnat_cmd ''-D'' ip pm) s = (rc, s1)" by force
  obtain rc' s2 where 2: "exec_cmd K (forward_cmd ''-D'' ip pm) s1 = (rc', s2)" by force
  obtain t where "unforward_ports K ip pms n s2 = Some t" "performs (unforward_script ip (take n pms)) s2 t False"
    using Suc.IH [OF n, of s2] by blast
  then show ?case
    by (auto simp: all 1 2 unforward_script_def intro!: sh.run_ignored [OF 1] sh.run_ignored [OF 2])
qed

text \<open>What deletes the rule that a command adds: the first \<open>-A\<close> becomes \<open>-D\<close>.\<close>

fun undo_cmd :: "string \<Rightarrow> string" where
  "undo_cmd [] = []"
| "undo_cmd (c # cs) = (if take 4 (c # cs) = '' -A '' then '' -D '' @ drop 3 cs else c # undo_cmd cs)"

lemma undo_cmds:
  "undo_cmd (dnat_cmd ''-A'' ip pm) = dnat_cmd ''-D'' ip pm"
  "undo_cmd (forward_cmd ''-A'' ip pm) = forward_cmd ''-D'' ip pm"
  by (simp_all add: dnat_cmd_def forward_cmd_def snprintf_def)

text \<open>C19. For a well-formed list of ports, \<^verbatim>\<open>network_setup_port_forwarding\<close> issues for each port, in
  order, its translation rule and, if that was accepted, its forwarding rule, and always reports
  \<^verbatim>\<open>CR_OK\<close>; \<^verbatim>\<open>network_remove_port_forwarding\<close> attempts both deletions of every port whatever fails,
  and the deletions are, command by command, the undoing of a setup in which everything succeeded.\<close>

theorem port_forwarding_mirrored:
  assumes "sint num \<le> int (length pms)"
  shows "\<exists>t es t' es'.
    network_setup_port_forwarding K ip pms num s = Some (CR_OK, t) \<and> frame s t \<and> effects t = effects s @ es \<and>
    forwarded ip (take (nat (sint num)) pms) es \<and>
    network_remove_port_forwarding K' ip pms num s' = Some (CR_OK, t') \<and> frame s' t' \<and>
    effects t' = effects s' @ es' \<and> map fst es' = map fst (unforward_script ip (take (nat (sint num)) pms)) \<and>
    (list_all (\<lambda>(q, r). ret r = 0) es \<longrightarrow>
      map fst es' = map (\<lambda>(q, r). case q of Sys_system c \<Rightarrow> Sys_system (undo_cmd c) | _ \<Rightarrow> q) es)"
proof -
  let ?n = "nat (sint num)"
  have n: "?n \<le> length pms" using assms by simp
  obtain t es where t: "forward_ports K ip pms ?n s = Some t" "frame s t" "effects t = effects s @ es"
    "forwarded ip (take ?n pms) es" using forward_ports_forwarded [OF n] by blast
  obtain t' where t': "unforward_ports K' ip pms ?n s' = Some t'"
    "performs (unforward_script ip (take ?n pms)) s' t' False" using unforward_ports_performs [OF n] by blast
  from t'(2) obtain es' where es': "frame s' t'" "effects t' = effects s' @ es'"
    "map fst es' = map fst (unforward_script ip (take ?n pms))"
    by (auto simp: performs_def dest: follows_complete)
  have "map fst (unforward_script ip ps) =
      map (\<lambda>(q, r). case q of Sys_system c \<Rightarrow> Sys_system (undo_cmd c) | _ \<Rightarrow> q) es"
    if "forwarded ip ps es" "list_all (\<lambda>(q, r). ret r = 0) es" for ps es
    using that
  proof (induction ip ps es rule: forwarded.induct)
    case (3 ip pm pms e es)
    obtain q r where e: "e = (q, r)" by force
    from 3 e obtain q' r' es' where es: "es = (q', r') # es'" "ret r = 0" "ret r' = 0"
      "q = Sys_system (dnat_cmd ''-A'' ip pm)" "q' = Sys_system (forward_cmd ''-A'' ip pm)"
      "forwarded ip pms es'" by (auto split: list.splits)
    with 3 e show ?case by (simp add: unforward_script_def undo_cmds)
  qed (simp_all add: unforward_script_def)
  with t t'(1) es' show ?thesis
    by (simp add: network_setup_port_forwarding_def network_remove_port_forwarding_def)
qed

theorem port_forwarding_mirrored_witness:
  "\<exists>t. network_setup_port_forwarding (scripted (\<lambda>_. answer 0 [])) ''10.0.0.2''
     [\<lparr>host_port = 8080, container_port = 80, protocol = ''tcp''\<rparr>] 1 st0 = Some (CR_OK, t)"
  using port_forwarding_mirrored [of 1 "[\<lparr>host_port = 8080, container_port = 80, protocol = ''tcp''\<rparr>]"
      "scripted (\<lambda>_. answer 0 [])" "''10.0.0.2''" st0 "scripted (\<lambda>_. answer 0 [])" st0] by auto

section \<open>Addresses of containers\<close>

lemma read_upto_string: "is_cstr str \<Longrightarrow> read_upto n (map Some str @ Some NUL # r) = Some (take n str)"
proof (induction str arbitrary: n)
  case Nil
  then show ?case by (cases n) simp_all
next
  case (Cons c str)
  then show ?case by (cases n) simp_all
qed

lemma c_strncat_str:
  assumes "cbuf_str buf = Some d" and "is_cstr src" and "length d + length (take n src) < length buf"
  obtains b where "c_strncat buf src n = Some b" "cbuf_str b = Some (d @ take n src)" "length b = length buf"
proof -
  have "is_cstr (d @ take n src)" using assms(1,2) by (auto simp: cbuf_str_Some)
  with c_strcpy_str [of "d @ take n src" buf] assms that show thesis by (auto simp: c_strncat_def)
qed

lemma room64: "length str < 64 \<Longrightarrow> room 64 str = 63 - length str"
  by (simp add: room_def nat_diff_distrib of_nat_diff)

text \<open>Adding to a network address whose last byte is 0 changes only that byte.\<close>

lemma host_in_network:
  assumes "k < 256"
  shows "htonl (ntohl (In_addr a b c 0) + of_nat k) = In_addr a b c (of_nat k)"
proof -
  have "uint (of_nat k :: 8 word) = int k" using assms by (simp add: uint_nat unat_of_nat)
  then have "ntohl (In_addr a b c (of_nat k)) = ntohl (In_addr a b c 0) + of_nat k"
    unfolding ntohl.simps by (simp only: of_int_add of_int_of_nat_eq unsigned_0 of_int_0 add_0_right)
  then show ?thesis by (metis htonl_ntohl)
qed

lemma allocate_ip_offset:
  assumes "is_cstr bits" and "length bits < 48" and "length buf = 64"
  shows "\<exists>b t k. network_allocate_ip K (inet_ntop addr @ CHR ''/'' # bits) buf 64 s = Some ((CR_OK, b), t) \<and>
    frame s t \<and> effects t = effects s \<and> length b = 64 \<and> 2 \<le> k \<and> k \<le> 254 \<and>
    cbuf_str b = Some (inet_ntop (htonl (ntohl addr + of_nat k)) @ CHR ''/'' # bits) \<and>
    (\<forall>x y z. addr = In_addr x y z 0 \<longrightarrow> htonl (ntohl addr + of_nat k) = In_addr x y z (of_nat k))"
proof -
  let ?sub = "inet_ntop addr @ CHR ''/'' # bits"
  obtain network r where cut: "cut_subnet ?sub = Some (Some (inet_ntop addr, network, length (inet_ntop addr) + 1))"
    "drop (length (inet_ntop addr) + 1) network = map Some bits @ Some NUL # r"
    by (rule cut_subnet_slash [of "inet_ntop addr" bits])
      (use assms inet_ntop_cstr [of addr] inet_ntop_no_slash [of addr] inet_ntop_length [of addr] in auto)
  obtain n t where n: "rand K (seed_from_clock K s) = (n, t)" by force
  define k where "k = n mod 253 + 2"
  have k: "2 \<le> k" "k \<le> 254" by (simp_all add: k_def)
  let ?ip = "inet_ntop (htonl (ntohl addr + of_nat k))"
  have len: "length ?ip \<le> 15" "is_cstr ?ip" by (simp_all only: inet_ntop_length inet_ntop_cstr)
  obtain b1 where b1: "c_strcpy buf ?ip = Some b1" "cbuf_str b1 = Some ?ip" "length b1 = 64"
    using c_strcpy_str [of ?ip buf] len assms(3) by auto
  have room1: "room 64 ?ip = 63 - length ?ip" using len by (intro room64) simp
  obtain b2 where b2: "c_strncat b1 ''/'' (room 64 ?ip) = Some b2" "cbuf_str b2 = Some (?ip @ ''/'')" "length b2 = 64"
    using c_strncat_str [OF b1(2), of "''/''" "room 64 ?ip"] len b1(3) room1 by auto
  have room2: "room 64 (?ip @ ''/'') = 62 - length ?ip" using len room64 [of "?ip @ ''/''"] by simp
  then have fit: "take (room 64 (?ip @ ''/'')) bits = bits" using len assms(2) by simp
  obtain b3 where b3: "c_strncat b2 bits (room 64 (?ip @ ''/'')) = Some b3"
    "cbuf_str b3 = Some ((?ip @ ''/'') @ bits)" "length b3 = 64"
    using c_strncat_str [OF b2(2) assms(1), of "room 64 (?ip @ ''/'')"] len b2(3) assms(2) unfolding fit by auto
  have "network_allocate_ip K ?sub buf 64 s = Some ((CR_OK, b3), t)"
    unfolding network_allocate_ip_def cut bind.bind_lunit option.case prod.case Let_def n k_def [symmetric]
      addr_plus_def inet_pton_ntop c_inet_ntop_def
    using len b1 b2 b3 assms(1) by (simp add: cut(2) read_upto_string fit)
  moreover have "frame s t" "effects t = effects s"
    using frame_seed_step [of s s K] frame_rand [OF n] effects_rand [of K "seed_from_clock K s"] n
    by (auto simp: effects_seed intro: frame_trans)
  ultimately show ?thesis using k b3(2,3) host_in_network [of k]
    by (intro exI [of _ b3] exI [of _ t] exI [of _ k]) simp
qed

text \<open>C30. Given a valid subnet and the 64-byte field of a configuration, \<^verbatim>\<open>network_allocate_ip\<close>
  writes the text of the address at an offset of 2 to 254 from the subnet's, with the prefix length
  of the subnet; in a subnet that ends in 0 this is another host of the same 256 addresses, never
  the network, the gateway or the broadcast address.\<close>

theorem network_allocate_ip_offset:
  assumes "is_cstr bits" and "length bits < 48" and "length buf = 64"
  shows "\<exists>b t k. network_allocate_ip K (inet_ntop addr @ CHR ''/'' # bits) buf 64 s = Some ((CR_OK, b), t) \<and>
    frame s t \<and> effects t = effects s \<and> 2 \<le> k \<and> k \<le> 254 \<and>
    cbuf_str b = Some (inet_ntop (htonl (ntohl addr + of_nat k)) @ CHR ''/'' # bits) \<and>
    (\<forall>x y z. addr = In_addr x y z 0 \<longrightarrow> htonl (ntohl addr + of_nat k) = In_addr x y z (of_nat k))"
  using allocate_ip_offset [OF assms, of K addr s] by blast

section \<open>A container\<close>

definition valid_subnet :: "string \<Rightarrow> bool" where
  "valid_subnet subnet \<longleftrightarrow>
     (case strchr_split CHR ''/'' subnet of
        None \<Rightarrow> False
      | Some (host, bits) \<Rightarrow> inet_pton host \<noteq> None \<and> is_cstr bits \<and> length bits < 48)"

lemma valid_subnetE:
  assumes "valid_subnet subnet"
  obtains addr bits where "subnet = inet_ntop addr @ CHR ''/'' # bits" "is_cstr bits" "length bits < 48"
  using assms by (auto simp: valid_subnet_def strchr_split_Some inet_pton_Some split: option.splits)

lemma create_bridge_returns:
  assumes "valid_subnet subnet"
  obtains rc t where "network_create_bridge K bridge subnet s = Some (rc, t)" "rc \<in> {CR_OK, CR_ERROR}" "frame s t"
proof -
  obtain addr bits where sub: "subnet = inet_ntop addr @ CHR ''/'' # bits" "is_cstr bits" "length bits < 48"
    using assms by (rule valid_subnetE)
  obtain rc t q s1 where b: "network_create_bridge K bridge subnet s = Some (rc, t)"
    "sys K (Sys_system (snprintf 512 (''ip link show '' @ bridge @ '' >/dev/null 2>&1''))) s = (q, s1)"
    "rc \<in> {CR_OK, CR_ERROR}" "frame s1 t"
    using create_bridge_performs [OF sub(2,3), of K bridge addr s] unfolding sub(1)
    by (auto simp: quiet_def dest: performs_frame split: if_splits)
  then show thesis using frame_trans [OF frame_sysE [OF b(2)]] by (intro that) simp_all
qed

lemma cbuf_str_fits: "cbuf_str b = Some str \<Longrightarrow> length b = n \<Longrightarrow> fits n str"
  using cbuf_str_length [of b str] by (auto simp: fits_def cbuf_str_Some)

lemma choose_ip_result:
  assumes "valid_subnet (nw_subnet net)" and "fits 64 (nw_ip_address net)"
  obtains ip t where "choose_ip K net s = Some ((CR_OK, net\<lparr>nw_ip_address := ip\<rparr>), t)" "frame s t"
    "ip \<noteq> []" "fits 64 ip" "nw_ip_address net \<noteq> [] \<longrightarrow> ip = nw_ip_address net"
proof (cases "nw_ip_address net = []")
  case True
  obtain addr bits where sub: "nw_subnet net = inet_ntop addr @ CHR ''/'' # bits" "is_cstr bits" "length bits < 48"
    using assms(1) by (rule valid_subnetE)
  have "length (Some NUL # uninit 63) = 64" by (simp add: uninit_def)
  from allocate_ip_offset [OF sub(2,3) this, of K addr s] obtain b t k where
    b: "network_allocate_ip K (nw_subnet net) (Some NUL # uninit 63) 64 s = Some ((CR_OK, b), t)"
      "frame s t" "length b = 64"
      "cbuf_str b = Some (inet_ntop (htonl (ntohl addr + of_nat k)) @ CHR ''/'' # bits)"
    unfolding sub(1) by blast
  show thesis
    by (rule that [OF _ b(2) _ cbuf_str_fits [OF b(4,3)]]) (use b True in \<open>simp_all add: choose_ip_def\<close>)
next
  case False
  with assms that [of "nw_ip_address net" s] show thesis by (simp add: choose_ip_def)
qed

lemma choose_gateway_result:
  assumes "valid_subnet (nw_subnet net)" and "fits 64 (nw_gateway net)"
  obtains gw where "choose_gateway net = Some (net\<lparr>nw_gateway := gw\<rparr>)" "gw \<noteq> []" "fits 64 gw"
    "nw_gateway net \<noteq> [] \<longrightarrow> gw = nw_gateway net"
proof (cases "nw_gateway net = []")
  case True
  obtain addr bits where sub: "nw_subnet net = inet_ntop addr @ CHR ''/'' # bits" "is_cstr bits" "length bits < 48"
    using assms(1) by (rule valid_subnetE)
  obtain network r where cut: "cut_subnet (nw_subnet net) = Some (Some (inet_ntop addr, network, length (inet_ntop addr) + 1))"
    unfolding sub(1) by (rule cut_subnet_slash [of "inet_ntop addr" bits])
      (use sub inet_ntop_cstr [of addr] inet_ntop_no_slash [of addr] inet_ntop_length [of addr] in auto)
  let ?gw = "inet_ntop (htonl (ntohl addr + 1))"
  have "fits 64 ?gw" using inet_ntop_length [of "htonl (ntohl addr + 1)"] by (simp add: fits_def inet_ntop_cstr)
  with True cut that [of ?gw] show thesis by (simp add: choose_gateway_def addr_plus_def inet_ntop_nonempty)
next
  case False
  with assms that [of "nw_gateway net"] show thesis by (simp add: choose_gateway_def)
qed

lemma plain_ip_result:
  assumes "fits 64 ip"
  shows "plain_ip ip = Some (takeWhile (\<lambda>c. c \<noteq> CHR ''/'') ip)"
proof (cases "CHR ''/'' \<in> set ip")
  case True
  then obtain a b where ip: "ip = a @ CHR ''/'' # b" "CHR ''/'' \<notin> set a" by (auto dest: split_list_first)
  have "c_strchr (map Some a @ Some CHR ''/'' # x) 0 CHR ''/'' = Some (Some (length a))" for x
    using scan_chr_found [of a "CHR ''/''"] ip assms by (simp add: c_strchr_def fits_def)
  with ip assms show ?thesis
    by (simp add: plain_ip_def strncpy64 fits_def poke_def list_update_append str_at_def)
next
  case False
  with assms scan_chr_absent [of ip "CHR ''/''"] show ?thesis
    by (simp add: plain_ip_def strncpy64 fits_def c_strchr_def str_at_def takeWhile_neq_self)
qed

lemma addresses_chosen:
  assumes "wf_network net" and "valid_subnet (nw_subnet net)"
  obtains ip gw t where "choose_ip K net s = Some ((CR_OK, net\<lparr>nw_ip_address := ip\<rparr>), t)" and "frame s t" and "fits 64 ip"
    and "choose_gateway (net\<lparr>nw_ip_address := ip\<rparr>) = Some (net\<lparr>nw_ip_address := ip, nw_gateway := gw\<rparr>)"
    and "wf_network (net\<lparr>nw_ip_address := ip, nw_gateway := gw\<rparr>)" and "ip \<noteq> []" and "gw \<noteq> []"
    and "nw_ip_address net \<noteq> [] \<longrightarrow> ip = nw_ip_address net" and "nw_gateway net \<noteq> [] \<longrightarrow> gw = nw_gateway net"
proof -
  have fits: "fits 64 (nw_ip_address net)" "fits 64 (nw_gateway net)" using assms(1) by (simp_all add: wf_network_def)
  obtain ip t where i: "choose_ip K net s = Some ((CR_OK, net\<lparr>nw_ip_address := ip\<rparr>), t)" "frame s t"
    "ip \<noteq> []" "fits 64 ip" "nw_ip_address net \<noteq> [] \<longrightarrow> ip = nw_ip_address net"
    using assms(2) fits(1) by (rule choose_ip_result)
  have "valid_subnet (nw_subnet (net\<lparr>nw_ip_address := ip\<rparr>))" "fits 64 (nw_gateway (net\<lparr>nw_ip_address := ip\<rparr>))"
    using assms(2) fits(2) by simp_all
  then obtain gw where g: "choose_gateway (net\<lparr>nw_ip_address := ip\<rparr>) = Some (net\<lparr>nw_ip_address := ip, nw_gateway := gw\<rparr>)"
    "gw \<noteq> []" "fits 64 gw" "nw_gateway net \<noteq> [] \<longrightarrow> gw = nw_gateway net"
    by (rule choose_gateway_result) simp
  show thesis by (rule that [OF i(1,2,4) g(1) _ i(3) g(2) i(5) g(4)]) (use assms(1) i(4) g(3) in \<open>simp add: wf_network_def\<close>)
qed

lemma setup_container_returns:
  assumes "wf_network net" and "valid_subnet (nw_subnet net)" and "net = cfg_network (ct_config c)"
  shows "\<exists>rc t ip gw. network_setup_container K c s =
      Some ((rc, set_network c (net\<lparr>nw_ip_address := ip, nw_gateway := gw\<rparr>)), t) \<and>
    rc \<in> {CR_OK, CR_ERROR} \<and> frame s t \<and> wf_network (net\<lparr>nw_ip_address := ip, nw_gateway := gw\<rparr>) \<and>
    (if nw_ip_address net \<noteq> [] then ip = nw_ip_address net else rc = CR_OK \<longrightarrow> ip \<noteq> []) \<and>
    (if nw_gateway net \<noteq> [] then gw = nw_gateway net else rc = CR_OK \<longrightarrow> gw \<noteq> [])"
proof -
  let ?net = "\<lambda>ip gw. net\<lparr>nw_ip_address := ip, nw_gateway := gw\<rparr>"
  have same: "?net (nw_ip_address net) (nw_gateway net) = net" by simp
  obtain rc1 s1 where b: "network_create_bridge K (nw_bridge_name net) (nw_subnet net) s = Some (rc1, s1)"
    "rc1 \<in> {CR_OK, CR_ERROR}" "frame s s1" using assms(2) by (rule create_bridge_returns)
  obtain ip gw s2 where i: "choose_ip K net s1 = Some ((CR_OK, net\<lparr>nw_ip_address := ip\<rparr>), s2)" "frame s1 s2" "fits 64 ip"
    and g: "choose_gateway (net\<lparr>nw_ip_address := ip\<rparr>) = Some (?net ip gw)" and wf: "wf_network (?net ip gw)"
    and chosen: "ip \<noteq> []" "gw \<noteq> []" "nw_ip_address net \<noteq> [] \<longrightarrow> ip = nw_ip_address net"
      "nw_gateway net \<noteq> [] \<longrightarrow> gw = nw_gateway net"
    using assms(1,2) by (rule addresses_chosen)
  obtain rc3 s3 where v: "network_setup_veth K (cfg_id (ct_config c)) (nw_bridge_name net) ip gw (ct_init_pid c) s2 = (rc3, s3)"
    by force
  have f2: "frame s s2" using b(3) i(2) by (rule frame_trans)
  have f3: "frame s s3" using frame_setup_veth [OF f2] v by (metis snd_conv)
  have ports: "nat (sint (nw_num_ports net)) \<le> length (nw_ports net)" using assms(1) by (auto simp: wf_network_def)
  obtain s4 es where p: "forward_ports K (takeWhile (\<lambda>c. c \<noteq> CHR ''/'') ip) (nw_ports net) (nat (sint (nw_num_ports net))) s3
      = Some s4" "frame s3 s4" using forward_ports_forwarded [OF ports] by blast
  have f4: "frame s s4" using f3 p(2) by (rule frame_trans)
  note eqs = network_setup_container_def assms(3) [symmetric] Let_def b(1) i(1) bind.bind_lunit prod.case
  show ?thesis
  proof (cases "rc1 = CR_OK")
    case False
    have "set_network c net = c" by (simp add: set_network_def assms(3))
    with False b same assms(1) have r: "network_setup_container K c s =
        Some ((CR_ERROR, set_network c (?net (nw_ip_address net) (nw_gateway net))), s1)"
      unfolding eqs by (simp add: Let_def)
    show ?thesis
      by (rule exI [of _ CR_ERROR], rule exI [of _ s1], rule exI [of _ "nw_ip_address net"],
          rule exI [of _ "nw_gateway net"]) (use r b(3) same assms(1) in simp)
  next
    case ok: True
    show ?thesis
    proof (cases "rc3 = CR_OK")
      case False
      with ok v have r: "network_setup_container K c s = Some ((CR_ERROR, set_network c (?net ip gw)), s3)"
        unfolding eqs by (simp add: Let_def set_network_def eqs g)
      show ?thesis
        by (rule exI [of _ CR_ERROR], rule exI [of _ s3], rule exI [of _ ip], rule exI [of _ gw])
          (use r f3 wf chosen in simp)
    next
      case True
      define t where "t = (if 0 < sint (nw_num_ports net) then s4 else s3)"
      have r: "network_setup_container K c s = Some ((CR_OK, set_network c (?net ip gw)), t)"
        using ok True v plain_ip_result [OF i(3)] p(1)
        unfolding eqs by (simp add: Let_def set_network_def t_def network_setup_port_forwarding_def eqs g)
      have "frame s t" using f3 f4 by (simp add: t_def)
      show ?thesis
        by (rule exI [of _ CR_OK], rule exI [of _ t], rule exI [of _ ip], rule exI [of _ gw])
          (use r \<open>frame s t\<close> wf chosen in simp)
    qed
  qed
qed

text \<open>C8. For a well-formed network configuration with a valid subnet, \<^verbatim>\<open>network_setup_container\<close> has
  no undefined behaviour and reports \<^verbatim>\<open>CR_OK\<close> or \<^verbatim>\<open>CR_ERROR\<close>; it changes nothing of the container but
  the address and the gateway, keeps those that are given, keeps the configuration well-formed, and
  on success both are set.\<close>

theorem network_setup_container_result:
  assumes "wf_network net" and "valid_subnet (nw_subnet net)" and "net = cfg_network (ct_config c)"
  shows "\<exists>rc t ip gw. network_setup_container K c s =
      Some ((rc, set_network c (net\<lparr>nw_ip_address := ip, nw_gateway := gw\<rparr>)), t) \<and>
    rc \<in> {CR_OK, CR_ERROR} \<and> frame s t \<and> wf_network (net\<lparr>nw_ip_address := ip, nw_gateway := gw\<rparr>) \<and>
    (if nw_ip_address net \<noteq> [] then ip = nw_ip_address net else rc = CR_OK \<longrightarrow> ip \<noteq> []) \<and>
    (if nw_gateway net \<noteq> [] then gw = nw_gateway net else rc = CR_OK \<longrightarrow> gw \<noteq> [])"
  using assms by (rule setup_container_returns)

lemma cleanup_container_returns:
  assumes "wf_network (cfg_network (ct_config c))"
  shows "\<exists>t. network_cleanup_container K c s = Some (CR_OK, t) \<and>
    performs (unforward_script (takeWhile (\<lambda>c. c \<noteq> CHR ''/'') (nw_ip_address (cfg_network (ct_config c))))
        (take (nat (sint (nw_num_ports (cfg_network (ct_config c))))) (nw_ports (cfg_network (ct_config c)))) @
      [(Sys_system (snprintf 512 (''ip link delete '' @ veth_name (cfg_id (ct_config c)) @ '' 2>/dev/null'')), tolerated)])
      s t False"
proof -
  let ?net = "cfg_network (ct_config c)"
  let ?ip = "takeWhile (\<lambda>c. c \<noteq> CHR ''/'') (nw_ip_address ?net)" and ?n = "nat (sint (nw_num_ports ?net))"
  let ?del = "snprintf 512 (''ip link delete '' @ veth_name (cfg_id (ct_config c)) @ '' 2>/dev/null'')"
  have fits: "fits 64 (nw_ip_address ?net)" "?n \<le> length (nw_ports ?net)"
    using assms by (auto simp: wf_network_def)
  obtain t where t: "unforward_ports K ?ip (nw_ports ?net) ?n s = Some t"
    "performs (unforward_script ?ip (take ?n (nw_ports ?net))) s t False"
    using unforward_ports_performs [OF fits(2)] by blast
  obtain rc u where u: "exec_cmd K ?del t = (rc, u)" by force
  have one: "performs [(Sys_system ?del, tolerated)] t u False"
    by (rule sh.run_ignored [OF u]) (simp add: performs_Nil)
  have ports: "(if 0 < sint (nw_num_ports ?net) then Some t else Some s) = Some t"
    using t(1) by (cases "0 < sint (nw_num_ports ?net)") simp_all
  have "network_cleanup_container K c s = Some (CR_OK, u)"
    using ports unfolding network_cleanup_container_def Let_def plain_ip_result [OF fits(1)] bind.bind_lunit
      network_remove_port_forwarding_def t(1) by (simp add: u del: append_Cons split: if_splits)
  with performs_append [OF t(2) one] show ?thesis by blast
qed

text \<open>C31. \<^verbatim>\<open>network_cleanup_container\<close> reports \<^verbatim>\<open>CR_OK\<close> whatever happens: it attempts to delete the rules
  of every port, for the address without its prefix length, and then the veth pair.\<close>

theorem network_cleanup_container_result:
  assumes "wf_network (cfg_network (ct_config c))"
  shows "\<exists>t. network_cleanup_container K c s = Some (CR_OK, t) \<and>
    performs (unforward_script (takeWhile (\<lambda>c. c \<noteq> CHR ''/'') (nw_ip_address (cfg_network (ct_config c))))
        (take (nat (sint (nw_num_ports (cfg_network (ct_config c))))) (nw_ports (cfg_network (ct_config c)))) @
      [(Sys_system (snprintf 512 (''ip link delete '' @ veth_name (cfg_id (ct_config c)) @ '' 2>/dev/null'')), tolerated)])
      s t False"
  using assms by (rule cleanup_container_returns)

section \<open>Instances\<close>

text \<open>A system where only the test for an existing bridge fails, and an address.\<close>

definition fresh_kernel :: "unit kernel" where
  "fresh_kernel = scripted (\<lambda>q. case q of
     Sys_system c \<Rightarrow> answer (if take 12 c = ''ip link show'' then 1 else 0) [] | _ \<Rightarrow> answer 0 [])"

definition net10 :: in_addr where "net10 = In_addr 10 0 0 0"

lemma net10_text: "inet_ntop net10 = ''10.0.0.0''"
  by (simp add: net10_def eval_simps)

theorem network_create_bridge_script_witness:
  "\<exists>rc t. network_create_bridge fresh_kernel ''cr0'' ''10.0.0.0/24'' st0 = Some (rc, t)"
  using network_create_bridge_script [of "''24''" fresh_kernel "''cr0''" net10 st0]
  by (auto simp: net10_text)

theorem network_create_bridge_leak_witness:
  "\<exists>t. network_create_bridge fresh_kernel ''cr0'' ''10.0.0.0'' st0 = Some (CR_EINVAL, t)"
proof -
  let ?show = "snprintf 512 (''ip link show '' @ ''cr0'' @ '' >/dev/null 2>&1'')"
  let ?add = "snprintf 512 (''ip link add name '' @ ''cr0'' @ '' type bridge'')"
  obtain q s1 where 1: "sys fresh_kernel (Sys_system ?show) st0 = (q, s1)" "ret q \<noteq> 0"
    by (simp add: fresh_kernel_def eval_simps)
  obtain rc s2 where 2: "exec_cmd fresh_kernel ?add s1 = (rc, s2)" by force
  have "rc = CR_OK" using 2 by (auto simp: exec_cmd_def fresh_kernel_def sys_scripted answer_def)
  with 2 network_create_bridge_leak [of "''10.0.0.0''" fresh_kernel "''cr0''" st0, OF _ _ _ 1] show ?thesis by auto
qed

theorem network_allocate_ip_offset_witness:
  "\<exists>b t. network_allocate_ip fresh_kernel ''10.0.0.0/24'' (uninit 64) 64 st0 = Some ((CR_OK, b), t)"
  using network_allocate_ip_offset [of "''24''" "uninit 64" fresh_kernel net10 st0]
  by (auto simp: net10_text uninit_def)

definition bridge_net :: network_config_t where
  "bridge_net = zero_network\<lparr>nw_bridge_name := ''cr0'', nw_subnet := ''10.0.0.0/24''\<rparr>"

definition idle_container :: container_t where
  "idle_container = \<lparr>ct_config = zero_config\<lparr>cfg_id := ''0123456789'', cfg_network := bridge_net\<rparr>, ct_init_pid = 7,
     ct_state = CONTAINER_CREATED, ct_cgroup_path = [], ct_netns_path = [], ct_bundle_path = [],
     ct_created_at = 0, ct_started_at = 0\<rparr>"

lemma wf_bridge_net: "wf_network bridge_net"
  by (simp add: bridge_net_def wf_network_def zero_network_def wf_port_def zero_port_def fits_def)

lemma valid_bridge_net: "valid_subnet (nw_subnet bridge_net)"
proof -
  have "strchr_split CHR ''/'' ''10.0.0.0/24'' = Some (inet_ntop net10, ''24'')" by (simp add: net10_text)
  then show ?thesis by (simp add: bridge_net_def valid_subnet_def)
qed

theorem network_setup_container_result_witness:
  "\<exists>rc c t. network_setup_container fresh_kernel idle_container st0 = Some ((rc, c), t)"
  using network_setup_container_result [OF wf_bridge_net valid_bridge_net, of idle_container fresh_kernel st0]
  by (auto simp: idle_container_def)

theorem network_cleanup_container_result_witness:
  "\<exists>t. network_cleanup_container fresh_kernel idle_container st0 = Some (CR_OK, t)"
  using network_cleanup_container_result [of idle_container fresh_kernel st0] wf_bridge_net
  by (auto simp: idle_container_def)

end

