(* ===== verification/Storage.thy ===== *)
theory Storage
  imports Scripts
begin

text \<open>
  \<^verbatim>\<open>src/storage/storage.c\<close>: layers of images as directories, the overlay mount of a container, the
  commands that copy, pack and unpack layers, and the statistics over the directory of layers.
  Making a directory with its parents is a script; so are the operations built from it.
\<close>

section \<open>The code\<close>

text \<open>The loop of \<^verbatim>\<open>mkdir_recursive\<close> over \<^verbatim>\<open>tmp\<close> from its second character on: every slash ends
  a parent directory, whose name is the part before it.\<close>

fun mkdir_parents :: "'k kernel \<Rightarrow> nat \<Rightarrow> string \<Rightarrow> string \<Rightarrow> 'k st \<Rightarrow> int \<times> 'k st" where
  "mkdir_parents K mode before [] s = (CR_OK, s)"
| "mkdir_parents K mode before (c # rest) s =
     (if c = CHR ''/'' then
        let (r, s) = sys K (Sys_mkdir before mode) s in
        if ret r < 0 \<and> errno s \<noteq> EEXIST then (CR_ESYSCALL, s)
        else mkdir_parents K mode (before @ [c]) rest s
      else mkdir_parents K mode (before @ [c]) rest s)"

text \<open>\<^verbatim>\<open>tmp[len - 1]\<close> is outside the array for an empty path.\<close>

definition mkdir_recursive :: "'k kernel \<Rightarrow> string \<Rightarrow> nat \<Rightarrow> 'k st \<Rightarrow> (int \<times> 'k st) option" where
  "mkdir_recursive K path mode s =
     (let tmp = snprintf MAX_PATH_LEN path in
      if tmp = [] then None
      else
        let tmp = (if last tmp = CHR ''/'' then butlast tmp else tmp);
            (rc, s) = mkdir_parents K mode (take 1 tmp) (drop 1 tmp) s
        in
        if rc \<noteq> CR_OK then Some (rc, s)
        else
          let (r, s) = sys K (Sys_mkdir tmp mode) s
          in if ret r < 0 \<and> errno s \<noteq> EEXIST then Some (CR_ESYSCALL, s) else Some (CR_OK, s))"

definition storage_init :: "'k kernel \<Rightarrow> runtime_ctx_t \<Rightarrow> 'k st \<Rightarrow> (int \<times> 'k st) option" where
  "storage_init K ctx s = do {
     (_, s) \<leftarrow> mkdir_recursive K (snprintf MAX_PATH_LEN (rt_image_dir ctx @ ''/overlay'')) 493 s;
     (_, s) \<leftarrow> mkdir_recursive K (snprintf MAX_PATH_LEN (rt_image_dir ctx @ ''/layers'')) 493 s;
     (_, s) \<leftarrow> mkdir_recursive K (snprintf MAX_PATH_LEN (rt_image_dir ctx @ ''/images'')) 493 s;
     Some (CR_OK, cr_log K LOG_INFO (''Initialized storage driver at '' @ rt_image_dir ctx) s)
   }"

text \<open>The path that \<^verbatim>\<open>snprintf(layer_path, path_len, "%s/layers/%s", ...)\<close> leaves in the caller's
  array: its old contents when the size is 0.\<close>

definition layer_dir :: "runtime_ctx_t \<Rightarrow> string \<Rightarrow> string \<Rightarrow> nat \<Rightarrow> string" where
  "layer_dir ctx layer_id old path_len =
     (if path_len = 0 then old else snprintf path_len (rt_image_dir ctx @ ''/layers/'' @ layer_id))"

definition storage_create_layer ::
  "'k kernel \<Rightarrow> runtime_ctx_t \<Rightarrow> string \<Rightarrow> string \<Rightarrow> string \<Rightarrow> nat \<Rightarrow> 'k st \<Rightarrow> ((int \<times> string) \<times> 'k st) option" where
  "storage_create_layer K ctx source_dir layer_id old path_len s = do {
     let layer_path = layer_dir ctx layer_id old path_len;
     (rc, s) \<leftarrow> mkdir_recursive K layer_path 493 s;
     if rc \<noteq> CR_OK then Some ((CR_ERROR, layer_path), s)
     else do {
       let cmd = snprintf (MAX_PATH_LEN * 2) (''cp -a '' @ source_dir @ ''/* '' @ layer_path @ ''/ 2>/dev/null || true'');
       let (r, s) = sys K (Sys_system cmd) s;
       let s = (if ret r \<noteq> 0 then cr_log K LOG_WARN ''Layer copy completed with warnings'' s else s);
       Some ((CR_OK, layer_path), cr_log K LOG_DEBUG (''Created layer '' @ layer_id @ '' at '' @ layer_path) s)
     }
   }"

text \<open>\<^verbatim>\<open>strncat(lowerdir, str, sizeof(lowerdir) - strlen(lowerdir) - 1)\<close>.\<close>

definition lower_append :: "string \<Rightarrow> string \<Rightarrow> string" where
  "lower_append lowerdir str = lowerdir @ take (MAX_PATH_LEN * 4 - length lowerdir - 1) str"

text \<open>The loop over the layers, from the one below position \<open>n\<close> down to the first.\<close>

fun build_lowerdir :: "image_layer_t list \<Rightarrow> nat \<Rightarrow> string \<Rightarrow> string option" where
  "build_lowerdir layers 0 lowerdir = Some lowerdir"
| "build_lowerdir layers (Suc i) lowerdir =
     (if i < length layers then
        let lowerdir = (if lowerdir \<noteq> [] then lower_append lowerdir '':'' else lowerdir)
        in build_lowerdir layers i (lower_append lowerdir (il_diff_path (layers ! i)))
      else None)"

definition overlay_dir :: "runtime_ctx_t \<Rightarrow> string \<Rightarrow> string \<Rightarrow> string" where
  "overlay_dir ctx container_id sub =
     snprintf MAX_PATH_LEN (rt_image_dir ctx @ ''/overlay/'' @ container_id @ sub)"

definition storage_mount_overlay ::
  "'k kernel \<Rightarrow> runtime_ctx_t \<Rightarrow> container_image_t \<Rightarrow> string \<Rightarrow> cbuf \<Rightarrow> nat \<Rightarrow> 'k st \<Rightarrow>
   ((int \<times> cbuf) \<times> 'k st) option" where
  "storage_mount_overlay K ctx img container_id mount_point mp_len s = do {
     let upperdir = overlay_dir ctx container_id ''/upper'';
     let workdir = overlay_dir ctx container_id ''/work'';
     let merged = overlay_dir ctx container_id ''/merged'';
     (_, s) \<leftarrow> mkdir_recursive K upperdir 493 s;
     (_, s) \<leftarrow> mkdir_recursive K workdir 493 s;
     (_, s) \<leftarrow> mkdir_recursive K merged 493 s;
     lowerdir \<leftarrow> build_lowerdir (im_layers img) (nat (sint (im_num_layers img))) [];
     let options = snprintf (MAX_PATH_LEN * 5)
       (''lowerdir='' @ lowerdir @ '',upperdir='' @ upperdir @ '',workdir='' @ workdir);
     let (r, s) = sys K (Sys_mount (Some ''overlay'') merged (Some ''overlay'') 0 (Some options)) s;
     if ret r < 0 then
       Some ((CR_ESYSCALL, mount_point), cr_log K LOG_ERROR (''Options: '' @ options)
         (cr_log K LOG_ERROR (''Failed to mount overlay: '' @ strerror_errno K s) s))
     else do {
       mount_point \<leftarrow> c_strncpy mount_point merged mp_len;
       Some ((CR_OK, mount_point), cr_log K LOG_INFO (''Mounted overlay filesystem at '' @ merged) s)
     }
   }"

definition storage_unmount_overlay :: "'k kernel \<Rightarrow> string \<Rightarrow> 'k st \<Rightarrow> int \<times> 'k st" where
  "storage_unmount_overlay K mount_point s =
     (let (r, s) = sys K (Sys_umount2 mount_point MNT_DETACH) s in
      if ret r < 0 \<and> errno s \<noteq> EINVAL \<and> errno s \<noteq> ENOENT then
        (CR_ESYSCALL, cr_log K LOG_ERROR
           (''Failed to unmount overlay '' @ mount_point @ '': '' @ strerror_errno K s) s)
      else (CR_OK, cr_log K LOG_DEBUG (''Unmounted overlay filesystem at '' @ mount_point) s))"

definition storage_remove_overlay :: "'k kernel \<Rightarrow> runtime_ctx_t \<Rightarrow> string \<Rightarrow> 'k st \<Rightarrow> int \<times> 'k st" where
  "storage_remove_overlay K ctx container_id s =
     (let path = overlay_dir ctx container_id ''/merged'';
          (_, s) = storage_unmount_overlay K path s;
          path = overlay_dir ctx container_id [];
          cmd = snprintf (MAX_PATH_LEN * 2) (''rm -rf '' @ path);
          (_, s) = sys K (Sys_system cmd) s
      in (CR_OK, cr_log K LOG_DEBUG (''Removed overlay workspace for '' @ container_id) s))"

definition get_directory_size :: "'k kernel \<Rightarrow> string \<Rightarrow> 'k st \<Rightarrow> 64 word \<times> 'k st" where
  "get_directory_size K path s =
     (let cmd = snprintf MAX_PATH_LEN (''du -sb '' @ path @ '' 2>/dev/null | cut -f1'');
          (fp, s) = sys K (Sys_popen cmd) s
      in if ret fp < 0 then (0, s)
         else
           let (n, s) = sys K (Sys_fscanf_zu (ret fp)) s;
               (_, s) = sys K (Sys_pclose (ret fp)) s
           in ((if ret n = 1 then word_of_int (fst (tv n)) else 0), s))"

definition storage_create_diff_layer ::
  "'k kernel \<Rightarrow> runtime_ctx_t \<Rightarrow> string \<Rightarrow> string \<Rightarrow> string \<Rightarrow> string \<Rightarrow> nat \<Rightarrow> 'k st \<Rightarrow>
   ((int \<times> string) \<times> 'k st) option" where
  "storage_create_diff_layer K ctx lower_layer upper_layer layer_id old path_len s = do {
     let diff_path = layer_dir ctx layer_id old path_len;
     (_, s) \<leftarrow> mkdir_recursive K diff_path 493 s;
     let cmd = snprintf (MAX_PATH_LEN * 3)
       (''rsync -a --delete --link-dest='' @ lower_layer @ ''/ '' @ upper_layer @ ''/ '' @ diff_path @ ''/'');
     let (r, s) = sys K (Sys_system cmd) s;
     if ret r \<noteq> 0 then Some ((CR_ERROR, diff_path), cr_log K LOG_ERROR ''Failed to create diff layer'' s)
     else Some ((CR_OK, diff_path), cr_log K LOG_DEBUG (''Created diff layer '' @ layer_id) s)
   }"

definition storage_export_layer :: "'k kernel \<Rightarrow> string \<Rightarrow> string \<Rightarrow> 'k st \<Rightarrow> int \<times> 'k st" where
  "storage_export_layer K layer_path output_tar s =
     (let cmd = snprintf (MAX_PATH_LEN * 2) (''tar -czf '' @ output_tar @ '' -C '' @ layer_path @ '' .'');
          (r, s) = sys K (Sys_system cmd) s
      in if ret r \<noteq> 0 then (CR_ERROR, cr_log K LOG_ERROR ''Failed to export layer'' s)
         else (CR_OK, cr_log K LOG_DEBUG (''Exported layer to '' @ output_tar) s))"

definition storage_import_layer ::
  "'k kernel \<Rightarrow> runtime_ctx_t \<Rightarrow> string \<Rightarrow> string \<Rightarrow> string \<Rightarrow> nat \<Rightarrow> 'k st \<Rightarrow> ((int \<times> string) \<times> 'k st) option" where
  "storage_import_layer K ctx input_tar layer_id old path_len s = do {
     let layer_path = layer_dir ctx layer_id old path_len;
     (_, s) \<leftarrow> mkdir_recursive K layer_path 493 s;
     let cmd = snprintf (MAX_PATH_LEN * 2) (''tar -xzf '' @ input_tar @ '' -C '' @ layer_path);
     let (r, s) = sys K (Sys_system cmd) s;
     if ret r \<noteq> 0 then Some ((CR_ERROR, layer_path), cr_log K LOG_ERROR ''Failed to import layer'' s)
     else Some ((CR_OK, layer_path), cr_log K LOG_DEBUG (''Imported layer '' @ layer_id @ '' from '' @ input_tar) s)
   }"

definition storage_commit_container ::
  "'k kernel \<Rightarrow> runtime_ctx_t \<Rightarrow> string \<Rightarrow> string \<Rightarrow> 'k st \<Rightarrow> (int \<times> 'k st) option" where
  "storage_commit_container K ctx container_id layer_id s = do {
     let upperdir = overlay_dir ctx container_id ''/upper'';
     let layer_path = snprintf MAX_PATH_LEN (rt_image_dir ctx @ ''/layers/'' @ layer_id);
     (_, s) \<leftarrow> mkdir_recursive K layer_path 493 s;
     let cmd = snprintf (MAX_PATH_LEN * 2) (''cp -a '' @ upperdir @ ''/* '' @ layer_path @ ''/ 2>/dev/null || true'');
     let (_, s) = sys K (Sys_system cmd) s;
     Some (CR_OK, cr_log K LOG_INFO
       (''Committed container '' @ container_id @ '' changes to layer '' @ layer_id) s)
   }"

text \<open>The loop over the entries of the directory, which need not end. The \<^verbatim>\<open>int\<close> counter overflows
  at \<open>2 ^ 31\<close> layers.\<close>

partial_function (option) count_layers ::
  "'k kernel \<Rightarrow> int \<Rightarrow> string \<Rightarrow> nat \<Rightarrow> 64 word \<Rightarrow> 'k st \<Rightarrow> (nat \<times> 64 word \<times> 'k st) option" where
  "count_layers K dir path layer_count total_size s =
     (let (ent, s) = sys K (Sys_readdir dir) s in
      if ret ent < 0 then Some (layer_count, total_size, s)
      else if take 1 (dat ent) = ''.'' then count_layers K dir path layer_count total_size s
      else if layer_count + 1 = 2 ^ 31 then None
      else
        let (sz, s) = get_directory_size K (snprintf MAX_PATH_LEN (path @ ''/'' @ dat ent)) s
        in count_layers K dir path (layer_count + 1) (total_size + sz) s)"

definition storage_get_stats ::
  "'k kernel \<Rightarrow> runtime_ctx_t \<Rightarrow> cbuf \<Rightarrow> nat \<Rightarrow> 'k st \<Rightarrow> ((int \<times> cbuf) \<times> 'k st) option" where
  "storage_get_stats K ctx stats_buffer buffer_size s = do {
     let path = snprintf MAX_PATH_LEN (rt_image_dir ctx @ ''/layers'');
     let (dir, s) = sys K (Sys_opendir path) s;
     (layer_count, total_size, s) \<leftarrow>
       (if ret dir < 0 then Some (0, 0, s)
        else do {
          (n, sz, s) \<leftarrow> count_layers K (ret dir) path 0 0 s;
          let (_, s) = sys K (Sys_closedir (ret dir)) s;
          Some (n, sz, s)
        });
     (buf, offset) \<leftarrow> stats_append stats_buffer 0 buffer_size (''Layers: '' @ dec_nat layer_count @ [CHR 0x0A]);
     (buf, offset) \<leftarrow> stats_append buf offset buffer_size
       (''Total Size: '' @ fmt_f2 (ddiv2 20 (double_of_int (uint total_size))) @ '' MB'' @ [CHR 0x0A]);
     Some ((CR_OK, buf), s)
   }"

section \<open>Directories with their parents\<close>

text \<open>A directory that exists already is as good as one that has been made.\<close>

definition must_dir :: "sysres \<Rightarrow> bool" where "must_dir r \<longleftrightarrow> ret r < 0 \<and> err r \<noteq> EEXIST"

text \<open>The parents of a path, each ended by a slash that is not the first character, and the path.\<close>

definition dir_parents :: "string \<Rightarrow> string list" where
  "dir_parents p = map (\<lambda>i. take i p) (filter (\<lambda>i. p ! i = CHR ''/'') [1..<length p])"

definition mkdirs :: "nat \<Rightarrow> string list \<Rightarrow> script" where
  "mkdirs mode ds = map (\<lambda>d. (Sys_mkdir d mode, must_dir)) ds"

definition strip_slash :: "string \<Rightarrow> string" where
  "strip_slash p = (if p \<noteq> [] \<and> last p = CHR ''/'' then butlast p else p)"

definition mkdir_script :: "nat \<Rightarrow> string \<Rightarrow> script" where
  "mkdir_script mode path = (let p = strip_slash (snprintf MAX_PATH_LEN path) in mkdirs mode (dir_parents p @ [p]))"

lemma mkdirs_append: "mkdirs mode (a @ b) = mkdirs mode a @ mkdirs mode b"
  by (simp add: mkdirs_def)

lemma mkdir_parents_performs:
  assumes "mkdir_parents K mode (take i p) (drop i p) s = (rc, t)"
  shows "rc \<in> {CR_OK, CR_ESYSCALL} \<and>
    performs (mkdirs mode (map (\<lambda>i. take i p) (filter (\<lambda>i. p ! i = CHR ''/'') [i..<length p]))) s t (rc \<noteq> CR_OK)"
  using assms
proof (induction "length p - i" arbitrary: i s)
  case 0
  then show ?case by (simp add: mkdirs_def performs_Nil)
next
  case (Suc n)
  then have i: "i < length p" by simp
  have d: "drop i p = p ! i # drop (Suc i) p" "take i p @ [p ! i] = take (Suc i) p"
    using i by (simp_all add: Cons_nth_drop_Suc take_Suc_conv_app_nth)
  have up: "[i..<length p] = i # [Suc i..<length p]" using i by (rule upt_conv_Cons)
  note IH = Suc.hyps(1) [of "Suc i"]
  show ?case
  proof (cases "p ! i = CHR ''/''")
    case False
    with Suc.prems IH Suc.hyps(2) show ?thesis by (simp add: d up)
  next
    case True
    obtain r s1 where 1: "sys K (Sys_mkdir (take i p) mode) s = (r, s1)" by force
    have step: "mkdir_parents K mode (take i p) (drop i p) s =
        (if ret r < 0 \<and> errno s1 \<noteq> EEXIST then (CR_ESYSCALL, s1)
         else mkdir_parents K mode (take (Suc i) p) (drop (Suc i) p) s1)"
      using True d(2) by (simp add: d(1) 1)
    show ?thesis
    proof (cases "must_dir r")
      case bad: True
      then have "rc = CR_ESYSCALL" "t = s1"
        using Suc.prems step errno_sys [OF 1] by (auto simp: must_dir_def)
      with bad True show ?thesis
        by (auto simp: up mkdirs_def intro!: performs_stop [OF 1])
    next
      case ok: False
      then have "mkdir_parents K mode (take (Suc i) p) (drop (Suc i) p) s1 = (rc, t)"
        using Suc.prems step errno_sys [OF 1] by (auto simp: must_dir_def split: if_splits)
      with IH Suc.hyps(2) ok True show ?thesis
        by (auto simp: up mkdirs_def intro!: performs_step [OF 1])
    qed
  qed
qed

lemma mkdir_recursive_performs:
  assumes "path \<noteq> []"
  obtains rc t where "mkdir_recursive K path mode s = Some (rc, t)" "rc \<in> {CR_OK, CR_ESYSCALL}"
    "performs (mkdir_script mode path) s t (rc \<noteq> CR_OK)"
proof -
  let ?tmp = "snprintf MAX_PATH_LEN path"
  let ?p = "strip_slash ?tmp"
  have ne: "?tmp \<noteq> []" using assms by (simp add: snprintf_def MAX_PATH_LEN_def)
  obtain rc1 s1 where 1: "mkdir_parents K mode (take 1 ?p) (drop 1 ?p) s = (rc1, s1)" by force
  note parents = mkdir_parents_performs [OF 1, folded dir_parents_def]
  obtain r s2 where 2: "sys K (Sys_mkdir ?p mode) s1 = (r, s2)" by force
  have def: "mkdir_recursive K path mode s =
      (if rc1 \<noteq> CR_OK then Some (rc1, s1)
       else if ret r < 0 \<and> errno s2 \<noteq> EEXIST then Some (CR_ESYSCALL, s2) else Some (CR_OK, s2))"
    using ne 1 2 by (simp add: mkdir_recursive_def strip_slash_def Let_def)
  have script: "mkdir_script mode path = mkdirs mode (dir_parents ?p) @ [(Sys_mkdir ?p mode, must_dir)]"
    by (simp add: mkdir_script_def mkdirs_def Let_def)
  show thesis
  proof (cases "rc1 = CR_OK")
    case False
    with parents show thesis
      by (intro that [of rc1 s1]) (auto simp: def script intro: performs_append_abort)
  next
    case True
    have "performs [(Sys_mkdir ?p mode, must_dir)] s1 s2 (must_dir r)"
      by (rule performs_request [OF 2]) (auto intro: performs_Nil)
    with True parents have "performs (mkdir_script mode path) s s2 (must_dir r)"
      unfolding script by (auto intro: performs_append)
    with True errno_sys [OF 2] show thesis
      by (intro that [of "if must_dir r then CR_ESYSCALL else CR_OK" s2])
        (auto simp: def must_dir_def)
  qed
qed

text \<open>C36. \<^verbatim>\<open>mkdir_recursive\<close>, on a path that is not empty, makes the parent directories from the
  outermost inwards and then the directory itself, a trailing slash removed; existing ones are
  passed over, and it stops with \<^verbatim>\<open>CR_ESYSCALL\<close> exactly at the first that can neither be made nor
  exists. An empty path is undefined behaviour.\<close>

theorem mkdir_recursive_script:
  "if path = [] then mkdir_recursive K path mode s = None
   else \<exists>rc t. mkdir_recursive K path mode s = Some (rc, t) \<and> rc \<in> {CR_OK, CR_ESYSCALL} \<and>
     performs (mkdir_script mode path) s t (rc \<noteq> CR_OK)"
proof (cases "path = []")
  case True
  then show ?thesis by (simp add: mkdir_recursive_def snprintf_def)
next
  case False
  then show ?thesis by (auto elim: mkdir_recursive_performs [of path K mode s])
qed

text \<open>What is left of it when the result is ignored: some directories have been made.\<close>

fun is_mkdir :: "sysreq \<Rightarrow> bool" where
  "is_mkdir (Sys_mkdir d m) \<longleftrightarrow> True"
| "is_mkdir _ \<longleftrightarrow> False"

lemma mkdir_recursive_ignored:
  assumes "path \<noteq> []"
  obtains rc t es where "mkdir_recursive K path mode s = Some (rc, t)" "frame s t"
    "effects t = effects s @ es" "list_all is_mkdir (map fst es)"
proof -
  obtain rc t where r: "mkdir_recursive K path mode s = Some (rc, t)"
    "performs (mkdir_script mode path) s t (rc \<noteq> CR_OK)" by (rule mkdir_recursive_performs [OF assms])
  then obtain es where es: "effects t = effects s @ es" "follows (mkdir_script mode path) es (rc \<noteq> CR_OK)"
    by (auto simp: performs_def)
  have "list_all is_mkdir (map fst (mkdir_script mode path))"
    by (simp add: mkdir_script_def mkdirs_def Let_def list_all_iff)
  with follows_prefix [OF es(2)] have "list_all is_mkdir (map fst es)"
    by (auto simp: prefix_def)
  with r es performs_frame show thesis by (intro that) auto
qed

text \<open>Three directories in a row.\<close>

lemma mkdir_thrice_ignored:
  assumes "p \<noteq> []" and "p' \<noteq> []" and "p'' \<noteq> []"
  obtains c c' c'' s1 s2 t es where "mkdir_recursive K p mode s = Some (c, s1)"
    "mkdir_recursive K p' mode s1 = Some (c', s2)" "mkdir_recursive K p'' mode s2 = Some (c'', t)" "frame s t"
    "effects t = effects s @ es" "list_all is_mkdir (map fst es)"
proof -
  obtain c s1 e1 where 1: "mkdir_recursive K p mode s = Some (c, s1)" "frame s s1" "effects s1 = effects s @ e1"
    "list_all is_mkdir (map fst e1)" by (rule mkdir_recursive_ignored [OF assms(1)])
  obtain c' s2 e2 where 2: "mkdir_recursive K p' mode s1 = Some (c', s2)" "frame s1 s2" "effects s2 = effects s1 @ e2"
    "list_all is_mkdir (map fst e2)" by (rule mkdir_recursive_ignored [OF assms(2)])
  obtain c'' t e3 where 3: "mkdir_recursive K p'' mode s2 = Some (c'', t)" "frame s2 t" "effects t = effects s2 @ e3"
    "list_all is_mkdir (map fst e3)" by (rule mkdir_recursive_ignored [OF assms(3)])
  have "frame s t" using 1(2) 2(2) 3(2) frame_trans by blast
  with 1 2 3 show thesis by (intro that [of c s1 c' s2 c'' t "e1 @ e2 @ e3"]) simp_all
qed

section \<open>The overlay\<close>

fun join_colon :: "string list \<Rightarrow> string" where
  "join_colon [] = []"
| "join_colon [x] = x"
| "join_colon (x # xs) = x @ CHR '':'' # join_colon xs"

lemma join_colon_Cons: "xs \<noteq> [] \<Longrightarrow> join_colon (x # xs) = x @ CHR '':'' # join_colon xs"
  by (cases xs) simp_all

lemma lower_append_fits:
  "length low + length str < MAX_PATH_LEN * 4 \<Longrightarrow> lower_append low str = low @ str"
  by (simp add: lower_append_def)

lemma build_lowerdir_more:
  assumes "n \<le> length layers" and "low \<noteq> []" and "0 < n"
    and "length low + 1 + length (join_colon (rev (map il_diff_path (take n layers)))) < MAX_PATH_LEN * 4"
  shows "build_lowerdir layers n low = Some (low @ CHR '':'' # join_colon (rev (map il_diff_path (take n layers))))"
  using assms
proof (induction n arbitrary: low)
  case (Suc n)
  let ?x = "il_diff_path (layers ! n)"
  have take: "rev (map il_diff_path (take (Suc n) layers)) = ?x # rev (map il_diff_path (take n layers))"
    using Suc.prems(1) by (simp add: take_Suc_conv_app_nth)
  show ?case
  proof (cases "n = 0")
    case True
    with Suc.prems take show ?thesis by (cases layers) (simp_all add: lower_append_fits)
  next
    case False
    let ?rest = "rev (map il_diff_path (take n layers))"
    have ne: "?rest \<noteq> []" using False Suc.prems(1) by auto
    note j = join_colon_Cons [OF ne, of ?x]
    have l: "length low + 1 + length ?x + 1 + length (join_colon ?rest) < MAX_PATH_LEN * 4"
      using Suc.prems(4) unfolding take j by simp
    then have "lower_append (lower_append low '':'') ?x = low @ CHR '':'' # ?x"
      by (simp add: lower_append_fits)
    with Suc.prems False have "build_lowerdir layers (Suc n) low = build_lowerdir layers n (low @ CHR '':'' # ?x)"
      by simp
    also have "\<dots> = Some ((low @ CHR '':'' # ?x) @ CHR '':'' # join_colon ?rest)"
      using Suc.prems(1) False l by (intro Suc.IH) simp_all
    finally show ?thesis unfolding take j by simp
  qed
qed simp

text \<open>The layers from the last one to the first, as overlayfs wants them: topmost first.\<close>

lemma build_lowerdir_join:
  assumes "n \<le> length layers" and "\<forall>l \<in> set (take n layers). il_diff_path l \<noteq> []"
    and "length (join_colon (rev (map il_diff_path (take n layers)))) < MAX_PATH_LEN * 4"
  shows "build_lowerdir layers n [] = Some (join_colon (rev (map il_diff_path (take n layers))))"
proof (cases n)
  case (Suc m)
  let ?x = "il_diff_path (layers ! m)" and ?rest = "rev (map il_diff_path (take m layers))"
  have take: "rev (map il_diff_path (take n layers)) = ?x # ?rest"
    using assms(1) Suc by (simp add: take_Suc_conv_app_nth)
  have x: "?x \<noteq> []" using assms(1,2) Suc by (auto simp: take_Suc_conv_app_nth)
  show ?thesis
  proof (cases "m = 0")
    case True
    with assms Suc take show ?thesis by (cases layers) (simp_all add: lower_append_fits)
  next
    case False
    have ne: "?rest \<noteq> []" using False assms(1) Suc by auto
    note j = join_colon_Cons [OF ne, of ?x]
    have l: "length ?x + 1 + length (join_colon ?rest) < MAX_PATH_LEN * 4"
      using assms(3) unfolding take j by simp
    then have "build_lowerdir layers n [] = build_lowerdir layers m ?x"
      using Suc assms(1) by (simp add: lower_append_fits)
    also have "\<dots> = Some (?x @ CHR '':'' # join_colon ?rest)"
      using Suc assms(1) False l x by (intro build_lowerdir_more) simp_all
    finally show ?thesis unfolding take j .
  qed
qed simp

lemma overlay_dir_nonempty [simp]: "overlay_dir ctx ident sub \<noteq> []"
  by (simp add: overlay_dir_def snprintf_def MAX_PATH_LEN_def)

text \<open>The options of the overlay mount.\<close>

definition overlay_options :: "runtime_ctx_t \<Rightarrow> string \<Rightarrow> image_layer_t list \<Rightarrow> string" where
  "overlay_options ctx ident layers =
     ''lowerdir='' @ join_colon (rev (map il_diff_path layers)) @
     '',upperdir='' @ overlay_dir ctx ident ''/upper'' @ '',workdir='' @ overlay_dir ctx ident ''/work''"

text \<open>C14. \<^verbatim>\<open>storage_mount_overlay\<close>, for an image whose counter is within its array and whose options
  fit their arrays, makes directories and then mounts exactly one overlay, with the layers from the
  last to the first; it reports \<^verbatim>\<open>CR_OK\<close> exactly when the mount succeeds, and only then the caller's
  array is written, with the mount point.\<close>

theorem storage_mount_overlay_result:
  assumes "nat (sint (im_num_layers img)) \<le> length (im_layers img)"
    and "layers = take (nat (sint (im_num_layers img))) (im_layers img)"
    and "\<forall>l \<in> set layers. il_diff_path l \<noteq> []"
    and "length (join_colon (rev (map il_diff_path layers))) < MAX_PATH_LEN * 4"
    and "length (overlay_options ctx ident layers) < MAX_PATH_LEN * 5"
    and "is_cstr (overlay_dir ctx ident ''/merged'')"
    and "length (overlay_dir ctx ident ''/merged'') < mp_len" and "mp_len \<le> length mp"
  shows "\<exists>rc b t ms r. storage_mount_overlay K ctx img ident mp mp_len s = Some ((rc, b), t) \<and> frame s t \<and>
    effects t = effects s @ ms @ [(Sys_mount (Some ''overlay'') (overlay_dir ctx ident ''/merged'')
      (Some ''overlay'') 0 (Some (overlay_options ctx ident layers)), r)] \<and>
    list_all is_mkdir (map fst ms) \<and>
    (if ret r < 0 then rc = CR_ESYSCALL \<and> b = mp
     else rc = CR_OK \<and> cbuf_str b = Some (overlay_dir ctx ident ''/merged''))"
proof -
  let ?merged = "overlay_dir ctx ident ''/merged''" and ?opts = "overlay_options ctx ident layers"
  let ?mount = "Sys_mount (Some ''overlay'') ?merged (Some ''overlay'') 0 (Some ?opts)"
  obtain c1 c2 c3 s1 s2 s3 ms where 1: "mkdir_recursive K (overlay_dir ctx ident ''/upper'') 493 s = Some (c1, s1)"
    "mkdir_recursive K (overlay_dir ctx ident ''/work'') 493 s1 = Some (c2, s2)"
    "mkdir_recursive K ?merged 493 s2 = Some (c3, s3)"
    and d: "frame s s3" "effects s3 = effects s @ ms" "list_all is_mkdir (map fst ms)"
    by (rule mkdir_thrice_ignored [OF overlay_dir_nonempty overlay_dir_nonempty overlay_dir_nonempty])
  have lower: "build_lowerdir (im_layers img) (nat (sint (im_num_layers img))) [] =
      Some (join_colon (rev (map il_diff_path layers)))"
    unfolding assms(2) using assms(1,3,4) by (intro build_lowerdir_join) (simp_all add: assms(2))
  have opts: "snprintf (MAX_PATH_LEN * 5) (''lowerdir='' @ join_colon (rev (map il_diff_path layers)) @
      '',upperdir='' @ overlay_dir ctx ident ''/upper'' @ '',workdir='' @ overlay_dir ctx ident ''/work'') = ?opts"
    using assms(5) by (simp only: overlay_options_def [symmetric] snprintf_fits)
  obtain r s4 where 4: "sys K ?mount s3 = (r, s4)" by force
  obtain b where b: "c_strncpy mp ?merged mp_len = Some b" "cbuf_str b = Some ?merged"
    using c_strncpy_short [OF assms(6-8)] by blast
  have f: "frame s s4" using d(1) frame_sysE [OF 4] by (rule frame_trans)
  have e: "effects s4 = effects s @ ms @ [(?mount, r)]" using d(2) effects_sys [OF 4] by simp
  note eqs = storage_mount_overlay_def Let_def 1 lower opts 4 bind.bind_lunit prod.case
  show ?thesis
  proof (cases "ret r < 0")
    case True
    define t where "t = cr_log K LOG_ERROR (''Options: '' @ ?opts)
        (cr_log K LOG_ERROR (''Failed to mount overlay: '' @ strerror_errno K s4) s4)"
    have "storage_mount_overlay K ctx img ident mp mp_len s = Some ((CR_ESYSCALL, mp), t)"
      unfolding eqs t_def using True by simp
    moreover have "frame s t" "effects t = effects s4" using f by (simp_all add: t_def frame_rules)
    ultimately show ?thesis using e True d(3)
      by (intro exI [of _ CR_ESYSCALL] exI [of _ mp] exI [of _ t] exI [of _ ms] exI [of _ r]) simp
  next
    case False
    define t where "t = cr_log K LOG_INFO (''Mounted overlay filesystem at '' @ ?merged) s4"
    have "storage_mount_overlay K ctx img ident mp mp_len s = Some ((CR_OK, b), t)"
      unfolding eqs t_def using False b(1) by simp
    moreover have "frame s t" "effects t = effects s4" using f by (simp_all add: t_def frame_rules)
    ultimately show ?thesis using e False b(2) d(3)
      by (intro exI [of _ CR_OK] exI [of _ b] exI [of _ t] exI [of _ ms] exI [of _ r]) simp
  qed
qed

text \<open>\<^verbatim>\<open>storage_unmount_overlay\<close> detaches the mount point and passes over the two errors that say
  nothing is mounted there.\<close>

theorem storage_unmount_overlay_result:
  "(let (rc, t) = storage_unmount_overlay K mp s in rc \<in> {CR_OK, CR_ESYSCALL} \<and>
     performs [(Sys_umount2 mp MNT_DETACH, \<lambda>r. ret r < 0 \<and> err r \<noteq> EINVAL \<and> err r \<noteq> ENOENT)] s t (rc \<noteq> CR_OK))"
proof -
  obtain r s1 where 1: "sys K (Sys_umount2 mp MNT_DETACH) s = (r, s1)" by force
  show ?thesis
    unfolding storage_unmount_overlay_def Let_def 1 prod.case
    by (auto intro!: performs_request [OF 1] performs_Nil simp: errno_sys [OF 1])
qed

text \<open>C38. \<^verbatim>\<open>storage_remove_overlay\<close> detaches the merged directory, then deletes the workspace of the
  container with an unquoted \<^verbatim>\<open>rm -rf\<close> that is never cut off, and always reports \<^verbatim>\<open>CR_OK\<close>; with an
  empty identifier the directory it deletes is the one that holds the workspaces of all
  containers.\<close>

theorem storage_remove_overlay_result:
  "\<exists>t u r. storage_remove_overlay K ctx ident s = (CR_OK, t) \<and> frame s t \<and>
     effects t = effects s @ [(Sys_umount2 (overlay_dir ctx ident ''/merged'') MNT_DETACH, u),
       (Sys_system (''rm -rf '' @ overlay_dir ctx ident []), r)] \<and>
     overlay_dir ctx [] [] = snprintf MAX_PATH_LEN (rt_image_dir ctx @ ''/overlay/'')"
proof -
  let ?m = "overlay_dir ctx ident ''/merged''"
  obtain u s1 where 1: "sys K (Sys_umount2 ?m MNT_DETACH) s = (u, s1)" by force
  obtain rc s2 where 2: "storage_unmount_overlay K ?m s = (rc, s2)" by force
  have q: "quiet s1 s2"
    using 2 unfolding storage_unmount_overlay_def Let_def 1 prod.case by (auto split: if_splits)
  have len: "length (overlay_dir ctx ident []) < MAX_PATH_LEN"
    unfolding overlay_dir_def by (rule length_snprintf) simp
  have cmd: "snprintf (MAX_PATH_LEN * 2) (''rm -rf '' @ overlay_dir ctx ident []) = ''rm -rf '' @ overlay_dir ctx ident []"
    using len by (intro snprintf_fits) (simp add: MAX_PATH_LEN_def)
  obtain r s3 where 3: "sys K (Sys_system (''rm -rf '' @ overlay_dir ctx ident [])) s2 = (r, s3)" by force
  define t where "t = cr_log K LOG_DEBUG (''Removed overlay workspace for '' @ ident) s3"
  have "storage_remove_overlay K ctx ident s = (CR_OK, t)"
    unfolding storage_remove_overlay_def Let_def 2 prod.case cmd 3 t_def ..
  moreover have "frame s t"
    using frame_sysE [OF 1] q frame_sysE [OF 3] frame_trans unfolding t_def quiet_def
    by (intro frame_log_step) blast+
  moreover have "effects t = effects s @ [(Sys_umount2 ?m MNT_DETACH, u), (Sys_system (''rm -rf '' @ overlay_dir ctx ident []), r)]"
    using effects_sys [OF 1] q effects_sys [OF 3] by (simp add: t_def quiet_def)
  ultimately show ?thesis by (auto simp: overlay_dir_def simp del: append_Cons)
qed

section \<open>Layers\<close>

lemma layer_dir_nonempty [simp]: "0 < n \<Longrightarrow> n \<noteq> 1 \<Longrightarrow> layer_dir ctx ident old n \<noteq> []"
  by (cases n) (auto simp: layer_dir_def snprintf_def)

text \<open>\<^verbatim>\<open>storage_create_layer\<close> makes the directory of the layer with its parents and fails exactly
  when that fails; copying the contents is attempted once and its result is not reported.\<close>

theorem storage_create_layer_result:
  assumes "2 \<le> path_len"
  shows "\<exists>rc t. storage_create_layer K ctx src ident old path_len s =
      Some ((rc, snprintf path_len (rt_image_dir ctx @ ''/layers/'' @ ident)), t) \<and> rc \<in> {CR_OK, CR_ERROR} \<and>
    performs (mkdir_script 493 (snprintf path_len (rt_image_dir ctx @ ''/layers/'' @ ident)) @
      [(Sys_system (snprintf (MAX_PATH_LEN * 2) (''cp -a '' @ src @ ''/* '' @
         snprintf path_len (rt_image_dir ctx @ ''/layers/'' @ ident) @ ''/ 2>/dev/null || true'')), tolerated)])
      s t (rc \<noteq> CR_OK)"
proof -
  let ?path = "snprintf path_len (rt_image_dir ctx @ ''/layers/'' @ ident)"
  let ?cmd = "snprintf (MAX_PATH_LEN * 2) (''cp -a '' @ src @ ''/* '' @ ?path @ ''/ 2>/dev/null || true'')"
  have path: "layer_dir ctx ident old path_len = ?path" using assms by (simp add: layer_dir_def)
  have "?path \<noteq> []" using layer_dir_nonempty [of path_len ctx ident old] assms by (simp add: path)
  then obtain rc s1 where 1: "mkdir_recursive K ?path 493 s = Some (rc, s1)" "rc \<in> {CR_OK, CR_ESYSCALL}"
    "performs (mkdir_script 493 ?path) s s1 (rc \<noteq> CR_OK)" by (rule mkdir_recursive_performs)
  obtain r s2 where 2: "sys K (Sys_system ?cmd) s1 = (r, s2)" by force
  note eqs = storage_create_layer_def Let_def path 1(1) 2 bind.bind_lunit prod.case
  show ?thesis
  proof (cases "rc = CR_OK")
    case False
    then show ?thesis unfolding eqs using performs_append_abort [of _ s s1] 1(3)
      by (intro exI [of _ CR_ERROR] exI [of _ s1]) simp
  next
    case True
    define t where "t = cr_log K LOG_DEBUG (''Created layer '' @ ident @ '' at '' @ ?path)
        (if ret r \<noteq> 0 then cr_log K LOG_WARN ''Layer copy completed with warnings'' s2 else s2)"
    have "quiet s2 t" unfolding t_def by (rule quiet_trans [OF _ quiet_log]) simp_all
    then have "performs [(Sys_system ?cmd, tolerated)] s1 t False"
      by (intro performs_request [OF 2] performs_Nil) simp_all
    then have "performs (mkdir_script 493 ?path @ [(Sys_system ?cmd, tolerated)]) s t False"
      using 1(3) True by (intro performs_append) simp_all
    moreover have "storage_create_layer K ctx src ident old path_len s = Some ((CR_OK, ?path), t)"
      unfolding eqs t_def using True by simp
    ultimately show ?thesis by (intro exI [of _ CR_OK] exI [of _ t]) simp
  qed
qed

text \<open>The shape of the other operations on layers: directories, one command, a report.\<close>

lemma mkdir_then_command:
  assumes "path \<noteq> []"
  obtains rc s1 ms r s2 where "mkdir_recursive K path mode s = Some (rc, s1)" "sys K (Sys_system cmd) s1 = (r, s2)"
    "effects s2 = effects s @ ms @ [(Sys_system cmd, r)]" "list_all is_mkdir (map fst ms)" "frame s s2"
proof -
  obtain rc s1 ms where 1: "mkdir_recursive K path mode s = Some (rc, s1)" "frame s s1"
    "effects s1 = effects s @ ms" "list_all is_mkdir (map fst ms)" by (rule mkdir_recursive_ignored [OF assms])
  obtain r s2 where 2: "sys K (Sys_system cmd) s1 = (r, s2)" by force
  show thesis
    by (rule that [OF 1(1) 2 _ 1(4) frame_trans [OF 1(2) frame_sysE [OF 2]]])
      (simp add: 1(3) effects_sys [OF 2])
qed

lemma storage_export_layer_implements:
  "implements [(Sys_system (snprintf (MAX_PATH_LEN * 2) (''tar -czf '' @ tar @ '' -C '' @ lp @ '' .'')), failed)]
     (storage_export_layer K lp tar)"
  unfolding implements_def
proof
  fix u
  let ?pack = "snprintf (MAX_PATH_LEN * 2) (''tar -czf '' @ tar @ '' -C '' @ lp @ '' .'')"
  obtain r u1 where u: "sys K (Sys_system ?pack) u = (r, u1)" by force
  show "performs [(Sys_system ?pack, failed)] u (snd (storage_export_layer K lp tar u))
      (fst (storage_export_layer K lp tar u) \<noteq> CR_OK)"
    unfolding storage_export_layer_def Let_def u prod.case
    by (auto intro!: performs_request [OF u] performs_Nil simp: failed_def simp del: append_Cons)
qed

text \<open>\<^verbatim>\<open>storage_import_layer\<close> makes the directory of the layer, whose failure is left to the command,
  and unpacks the archive into it; it reports \<^verbatim>\<open>CR_OK\<close> exactly when \<^verbatim>\<open>tar\<close> returns 0.\<close>

theorem storage_import_layer_result:
  assumes "2 \<le> path_len"
  shows "\<exists>rc t ms r. storage_import_layer K ctx tar ident old path_len s =
      Some ((rc, snprintf path_len (rt_image_dir ctx @ ''/layers/'' @ ident)), t) \<and> frame s t \<and>
    list_all is_mkdir (map fst ms) \<and> rc = (if ret r = 0 then CR_OK else CR_ERROR) \<and>
    effects t = effects s @ ms @ [(Sys_system (snprintf (MAX_PATH_LEN * 2) (''tar -xzf '' @ tar @ '' -C '' @
      snprintf path_len (rt_image_dir ctx @ ''/layers/'' @ ident))), r)]"
proof -
  let ?path = "snprintf path_len (rt_image_dir ctx @ ''/layers/'' @ ident)"
  let ?cmd = "snprintf (MAX_PATH_LEN * 2) (''tar -xzf '' @ tar @ '' -C '' @ ?path)"
  have path: "layer_dir ctx ident old path_len = ?path" using assms by (simp add: layer_dir_def)
  have ne: "?path \<noteq> []" using layer_dir_nonempty [of path_len ctx ident old] assms by (simp add: path)
  obtain rc s1 ms r s2 where 1: "mkdir_recursive K ?path 493 s = Some (rc, s1)" "sys K (Sys_system ?cmd) s1 = (r, s2)"
    "effects s2 = effects s @ ms @ [(Sys_system ?cmd, r)]" "list_all is_mkdir (map fst ms)" "frame s s2"
    by (rule mkdir_then_command [OF ne])
  define t where "t = (if ret r \<noteq> 0 then cr_log K LOG_ERROR ''Failed to import layer'' s2
      else cr_log K LOG_DEBUG (''Imported layer '' @ ident @ '' from '' @ tar) s2)"
  have "storage_import_layer K ctx tar ident old path_len s = Some ((if ret r = 0 then CR_OK else CR_ERROR, ?path), t)"
    unfolding storage_import_layer_def Let_def path 1(1,2) bind.bind_lunit prod.case t_def by simp
  moreover have "frame s t" "effects t = effects s2" using 1(5) by (simp_all add: t_def frame_rules)
  ultimately show ?thesis using 1(3,4)
    by (intro exI [of _ "if ret r = 0 then CR_OK else CR_ERROR"] exI [of _ t] exI [of _ ms] exI [of _ r]) simp
qed

text \<open>\<^verbatim>\<open>storage_create_diff_layer\<close> in the same way.\<close>

theorem storage_create_diff_layer_result:
  assumes "2 \<le> path_len"
  shows "\<exists>rc t ms r. storage_create_diff_layer K ctx low up ident old path_len s =
      Some ((rc, snprintf path_len (rt_image_dir ctx @ ''/layers/'' @ ident)), t) \<and> frame s t \<and>
    list_all is_mkdir (map fst ms) \<and> rc = (if ret r = 0 then CR_OK else CR_ERROR) \<and>
    effects t = effects s @ ms @ [(Sys_system (snprintf (MAX_PATH_LEN * 3) (''rsync -a --delete --link-dest='' @ low @
      ''/ '' @ up @ ''/ '' @ snprintf path_len (rt_image_dir ctx @ ''/layers/'' @ ident) @ ''/'')), r)]"
proof -
  let ?path = "snprintf path_len (rt_image_dir ctx @ ''/layers/'' @ ident)"
  let ?cmd = "snprintf (MAX_PATH_LEN * 3) (''rsync -a --delete --link-dest='' @ low @ ''/ '' @ up @ ''/ '' @ ?path @ ''/'')"
  have path: "layer_dir ctx ident old path_len = ?path" using assms by (simp add: layer_dir_def)
  have ne: "?path \<noteq> []" using layer_dir_nonempty [of path_len ctx ident old] assms by (simp add: path)
  obtain rc s1 ms r s2 where 1: "mkdir_recursive K ?path 493 s = Some (rc, s1)" "sys K (Sys_system ?cmd) s1 = (r, s2)"
    "effects s2 = effects s @ ms @ [(Sys_system ?cmd, r)]" "list_all is_mkdir (map fst ms)" "frame s s2"
    by (rule mkdir_then_command [OF ne])
  define t where "t = (if ret r \<noteq> 0 then cr_log K LOG_ERROR ''Failed to create diff layer'' s2
      else cr_log K LOG_DEBUG (''Created diff layer '' @ ident) s2)"
  have "storage_create_diff_layer K ctx low up ident old path_len s =
      Some ((if ret r = 0 then CR_OK else CR_ERROR, ?path), t)"
    unfolding storage_create_diff_layer_def Let_def path 1(1,2) bind.bind_lunit prod.case t_def by simp
  moreover have "frame s t" "effects t = effects s2" using 1(5) by (simp_all add: t_def frame_rules)
  ultimately show ?thesis using 1(3,4)
    by (intro exI [of _ "if ret r = 0 then CR_OK else CR_ERROR"] exI [of _ t] exI [of _ ms] exI [of _ r]) simp
qed

text \<open>\<^verbatim>\<open>storage_commit_container\<close> copies the upper directory of the container into the new layer and
  reports \<^verbatim>\<open>CR_OK\<close> whether or not the copy (or the making of the directory) succeeds.\<close>

theorem storage_commit_container_result:
  "\<exists>t ms r. storage_commit_container K ctx ident layer s = Some (CR_OK, t) \<and> frame s t \<and>
    list_all is_mkdir (map fst ms) \<and>
    effects t = effects s @ ms @ [(Sys_system (snprintf (MAX_PATH_LEN * 2) (''cp -a '' @ overlay_dir ctx ident ''/upper'' @
      ''/* '' @ snprintf MAX_PATH_LEN (rt_image_dir ctx @ ''/layers/'' @ layer) @ ''/ 2>/dev/null || true'')), r)]"
proof -
  let ?path = "snprintf MAX_PATH_LEN (rt_image_dir ctx @ ''/layers/'' @ layer)"
  let ?cmd = "snprintf (MAX_PATH_LEN * 2) (''cp -a '' @ overlay_dir ctx ident ''/upper'' @ ''/* '' @ ?path @ ''/ 2>/dev/null || true'')"
  have ne: "?path \<noteq> []" by (simp add: snprintf_def MAX_PATH_LEN_def)
  obtain rc s1 ms r s2 where 1: "mkdir_recursive K ?path 493 s = Some (rc, s1)" "sys K (Sys_system ?cmd) s1 = (r, s2)"
    "effects s2 = effects s @ ms @ [(Sys_system ?cmd, r)]" "list_all is_mkdir (map fst ms)" "frame s s2"
    by (rule mkdir_then_command [OF ne])
  define t where "t = cr_log K LOG_INFO (''Committed container '' @ ident @ '' changes to layer '' @ layer) s2"
  have "storage_commit_container K ctx ident layer s = Some (CR_OK, t)"
    unfolding storage_commit_container_def Let_def 1(1,2) bind.bind_lunit prod.case t_def ..
  moreover have "frame s t" "effects t = effects s2" using 1(5) by (simp_all add: t_def frame_rules)
  ultimately show ?thesis using 1(3,4) by (intro exI [of _ t] exI [of _ ms] exI [of _ r]) simp
qed

text \<open>\<^verbatim>\<open>storage_init\<close> attempts the three base directories and reports \<^verbatim>\<open>CR_OK\<close> even if none could be
  made; it makes no request but \<^verbatim>\<open>mkdir\<close>.\<close>

theorem storage_init_result:
  "\<exists>t ms. storage_init K ctx s = Some (CR_OK, t) \<and> frame s t \<and> effects t = effects s @ ms \<and>
     list_all is_mkdir (map fst ms)"
proof -
  have ne: "snprintf MAX_PATH_LEN (rt_image_dir ctx @ CHR ''/'' # x) \<noteq> []" for x
    by (simp add: snprintf_def MAX_PATH_LEN_def)
  obtain c1 c2 c3 s1 s2 s3 ms where 1: "mkdir_recursive K (snprintf MAX_PATH_LEN (rt_image_dir ctx @ ''/overlay'')) 493 s = Some (c1, s1)"
    "mkdir_recursive K (snprintf MAX_PATH_LEN (rt_image_dir ctx @ ''/layers'')) 493 s1 = Some (c2, s2)"
    "mkdir_recursive K (snprintf MAX_PATH_LEN (rt_image_dir ctx @ ''/images'')) 493 s2 = Some (c3, s3)"
    and d: "frame s s3" "effects s3 = effects s @ ms" "list_all is_mkdir (map fst ms)"
    by (rule mkdir_thrice_ignored [OF ne ne ne])
  define t where "t = cr_log K LOG_INFO (''Initialized storage driver at '' @ rt_image_dir ctx) s3"
  have "storage_init K ctx s = Some (CR_OK, t)"
    unfolding storage_init_def 1 bind.bind_lunit prod.case t_def ..
  moreover have "frame s t" using d(1) unfolding t_def by (intro frame_log_step) simp_all
  ultimately show ?thesis using d(2,3) by (intro exI [of _ t] exI [of _ ms]) (simp add: t_def)
qed

section \<open>Statistics\<close>

text \<open>
  A system that lists a directory: \<open>view\<close> is what is left to be read, \<^verbatim>\<open>readdir\<close> delivers and
  removes its first entry and returns NULL at its end, and no other request changes it.
\<close>

definition lists_dir :: "'k kernel \<Rightarrow> ('k \<Rightarrow> string list) \<Rightarrow> bool" where
  "lists_dir K view \<longleftrightarrow>
     (\<forall>q k. (\<forall>d. q \<noteq> Sys_readdir d) \<longrightarrow> view (snd (kcall K q k)) = view k) \<and>
     (\<forall>d k. case view k of
        [] \<Rightarrow> ret (fst (kcall K (Sys_readdir d) k)) < 0
      | e # es \<Rightarrow> 0 \<le> ret (fst (kcall K (Sys_readdir d) k)) \<and> dat (fst (kcall K (Sys_readdir d) k)) = e \<and>
          view (snd (kcall K (Sys_readdir d) k)) = es)"

definition visible :: "string list \<Rightarrow> string list" where
  "visible es = filter (\<lambda>e. take 1 e \<noteq> ''.'') es"

lemma view_sys: "lists_dir K view \<Longrightarrow> \<forall>d. q \<noteq> Sys_readdir d \<Longrightarrow> sys K q s = (r, t) \<Longrightarrow> view (kst t) = view (kst s)"
  by (auto simp: lists_dir_def sys_def split: prod.splits) (metis snd_conv)

lemma view_readdir:
  assumes "lists_dir K view" and "sys K (Sys_readdir d) s = (r, t)"
  shows "case view (kst s) of [] \<Rightarrow> ret r < 0 | e # es \<Rightarrow> 0 \<le> ret r \<and> dat r = e \<and> view (kst t) = es"
proof -
  obtain r' k' where c: "kcall K (Sys_readdir d) (kst s) = (r', k')" by force
  with assms(2) have eqs: "r = r'" "kst t = k'" by (auto simp: sys_def)
  have "case view (kst s) of [] \<Rightarrow> ret r' < 0 | e # es \<Rightarrow> 0 \<le> ret r' \<and> dat r' = e \<and> view k' = es"
    using assms(1) c unfolding lists_dir_def by (metis fst_conv snd_conv)
  then show ?thesis unfolding eqs .
qed

lemma view_directory_size:
  assumes "lists_dir K view" and "get_directory_size K p s = (n, t)"
  shows "view (kst t) = view (kst s) \<and> frame s t"
proof -
  let ?cmd = "snprintf MAX_PATH_LEN (''du -sb '' @ p @ '' 2>/dev/null | cut -f1'')"
  obtain fp s1 where 1: "sys K (Sys_popen ?cmd) s = (fp, s1)" by force
  obtain m s2 where 2: "sys K (Sys_fscanf_zu (ret fp)) s1 = (m, s2)" by force
  obtain c s3 where 3: "sys K (Sys_pclose (ret fp)) s2 = (c, s3)" by force
  note v = view_sys [OF assms(1) _ 1] view_sys [OF assms(1) _ 2] view_sys [OF assms(1) _ 3]
  note f = frame_sysE [OF 1] frame_sysE [OF 2] frame_sysE [OF 3]
  have "t = (if ret fp < 0 then s1 else s3)"
    using assms(2) unfolding get_directory_size_def Let_def 1 2 3 prod.case by (auto split: if_splits)
  moreover have "frame s s3" by (rule frame_trans [OF f(1) frame_trans [OF f(2,3)]])
  ultimately show ?thesis using v f(1) by (auto split: if_splits)
qed

lemma count_layers_view:
  assumes "lists_dir K view" and "\<And>p s. fst (get_directory_size K p s) = size_of p"
  shows "n + length (view (kst s)) < 2 ^ 31 \<Longrightarrow> \<exists>t. count_layers K dir path n acc s =
    Some (n + length (visible (view (kst s))),
      acc + sum_list (map (\<lambda>e. size_of (snprintf MAX_PATH_LEN (path @ ''/'' @ e))) (visible (view (kst s)))), t) \<and>
    frame s t"
proof (induction "view (kst s)" arbitrary: n acc s)
  case Nil
  obtain r s1 where 1: "sys K (Sys_readdir dir) s = (r, s1)" by force
  have v: "view (kst s) = []" using Nil.hyps by simp
  with view_readdir [OF assms(1) 1] have "ret r < 0" by simp
  then show ?case unfolding v by (subst count_layers.simps) (simp add: 1 visible_def frame_sysE [OF 1])
next
  case (Cons e es)
  obtain r s1 where 1: "sys K (Sys_readdir dir) s = (r, s1)" by force
  have v: "view (kst s) = e # es" using Cons.hyps(2) by simp
  have r: "0 \<le> ret r" "dat r = e" "es = view (kst s1)"
    using view_readdir [OF assms(1) 1] by (simp_all add: v)
  note f1 = frame_sysE [OF 1]
  show ?case
  proof (cases "take 1 e = ''.''")
    case True
    have "n + length (view (kst s1)) < 2 ^ 31" using Cons.prems r(3) by (simp add: v)
    from Cons.hyps(1) [OF r(3) this] obtain t where t: "count_layers K dir path n acc s1 =
        Some (n + length (visible es), acc + sum_list (map (\<lambda>e. size_of (snprintf MAX_PATH_LEN (path @ ''/'' @ e))) (visible es)), t)"
      "frame s1 t" unfolding r(3) [symmetric] by blast
    have "count_layers K dir path n acc s = count_layers K dir path n acc s1"
      using True r by (subst count_layers.simps) (simp add: 1)
    moreover have "visible (view (kst s)) = visible es"
      using True by (simp add: visible_def v)
    ultimately show ?thesis using t f1 frame_trans by auto
  next
    case False
    obtain sz s2 where 2: "get_directory_size K (snprintf MAX_PATH_LEN (path @ ''/'' @ e)) s1 = (sz, s2)" by force
    note v2 = view_directory_size [OF assms(1) 2]
    have sz: "sz = size_of (snprintf MAX_PATH_LEN (path @ ''/'' @ e))" using assms(2) 2 by (metis fst_conv)
    have es: "es = view (kst s2)" using r(3) v2 by simp
    have n: "n + 1 + length (view (kst s2)) < 2 ^ 31" using Cons.prems es by (simp add: v)
    from Cons.hyps(1) [OF es n, of "acc + sz"] obtain t where t: "count_layers K dir path (n + 1) (acc + sz) s2 =
        Some (n + 1 + length (visible es), (acc + sz) +
          sum_list (map (\<lambda>e. size_of (snprintf MAX_PATH_LEN (path @ ''/'' @ e))) (visible es)), t)"
      "frame s2 t" unfolding es [symmetric] by blast
    have "n + 1 \<noteq> 2 ^ 31" using n by linarith
    then have "count_layers K dir path n acc s = count_layers K dir path (n + 1) (acc + sz) s2"
      using False r 2 by (subst count_layers.simps) (simp add: 1)
    moreover have "visible (view (kst s)) = e # visible es"
      using False by (simp add: visible_def v)
    moreover have "frame s t" using f1 v2 t(2) frame_trans by blast
    ultimately show ?thesis using t(1) by (simp add: sz add.assoc)
  qed
qed

lemma is_cstr_fmt_f2 [simp]: "is_cstr (fmt_f2 x)"
  by (cases x) (simp_all add: Let_def pad2_def)

lemma stats_append_cut:
  assumes "length txt < buffer_size" and "buffer_size \<le> length b" and "is_cstr txt" and "is_cstr str"
    and "b = map Some txt @ r"
  obtains b' where "stats_append b (length txt) buffer_size str = Some (b', length txt + length str)"
    "cbuf_str b' = Some (take (buffer_size - 1) (txt @ str))" "length b' = length b"
proof -
  let ?n = "buffer_size - length txt"
  let ?t = "map Some (take (?n - 1) str) @ [Some NUL]"
  have n: "?n \<noteq> 0" "length ?t \<le> ?n" using assms(1) by (auto simp: min_def)
  then have fit: "length txt + length ?t \<le> length b" using assms(1,2) by linarith
  let ?b = "take (length txt) b @ ?t @ drop (length txt + length ?t) b"
  have "stats_append b (length txt) buffer_size str = Some (?b, length txt + length str)"
    using n fit assms(1) by (simp add: stats_append_def c_snprintf_def Let_def del: length_append)
  moreover have "take (length txt) b = map Some txt" using assms(5) by simp
  moreover have "take (buffer_size - 1) (txt @ str) = txt @ take (?n - 1) str" using assms(1) by (simp add: take_append)
  moreover have "cbuf_str (map Some txt @ ?t @ x) = Some (txt @ take (?n - 1) str)" for x
    using cbuf_str_terminated [of "txt @ take (?n - 1) str" x] assms(3,4) by simp
  ultimately show thesis using fit by (intro that [of ?b]) (simp_all add: min_def)
qed

text \<open>The text of the statistics.\<close>

definition storage_report :: "nat \<Rightarrow> 64 word \<Rightarrow> string" where
  "storage_report n sz = (''Layers: '' @ dec_nat n @ [CHR 0x0A]) @
     ''Total Size: '' @ fmt_f2 (ddiv2 20 (double_of_int (uint sz))) @ '' MB'' @ [CHR 0x0A]"

text \<open>The two lines, in a buffer with room for the first.\<close>

lemma storage_lines:
  assumes "n < 2 ^ 31" and "32 \<le> buffer_size" and "buffer_size \<le> length buf"
  obtains b1 b2 k where
    "stats_append buf 0 buffer_size (''Layers: '' @ dec_nat n @ [CHR 0x0A]) = Some (b1, length (''Layers: '' @ dec_nat n @ [CHR 0x0A]))"
    "stats_append b1 (length (''Layers: '' @ dec_nat n @ [CHR 0x0A])) buffer_size
       (''Total Size: '' @ fmt_f2 (ddiv2 20 (double_of_int (uint sz))) @ '' MB'' @ [CHR 0x0A]) = Some (b2, k)"
    "cbuf_str b2 = Some (take (buffer_size - 1) (storage_report n sz))"
proof -
  let ?l1 = "''Layers: '' @ dec_nat n @ [CHR 0x0A]"
  let ?l2 = "''Total Size: '' @ fmt_f2 (ddiv2 20 (double_of_int (uint sz))) @ '' MB'' @ [CHR 0x0A]"
  have "n < 10 ^ 10" using assms(1) by simp
  then have "length (dec_nat n) \<le> 10" by (rule length_dec_nat_le) simp
  then have len: "length ?l1 < buffer_size" using assms(2) by simp
  obtain b1 where b1: "stats_append buf (length ([] :: string)) buffer_size ?l1 = Some (b1, length ([] :: string) + length ?l1)"
      "cbuf_str b1 = Some (take (buffer_size - 1) ([] @ ?l1))" "length b1 = length buf"
    by (rule stats_append_cut [of "[]" buffer_size buf ?l1 buf]) (use assms(2,3) in simp_all)
  have "cbuf_str b1 = Some ?l1" unfolding b1(2) using len by simp
  then obtain r where r: "b1 = map Some ?l1 @ r" by (auto simp: cbuf_str_Some)
  obtain b2 where b2: "stats_append b1 (length ?l1) buffer_size ?l2 = Some (b2, length ?l1 + length ?l2)"
      "cbuf_str b2 = Some (take (buffer_size - 1) (storage_report n sz))"
    unfolding storage_report_def
    by (rule stats_append_cut [OF len _ _ _ r, of ?l2]) (use assms(3) b1(3) in simp_all)
  show thesis by (rule that [OF b1(1) [unfolded list.size(3) add_0] b2])
qed

text \<open>C37. On a system that lists a finite directory, the loop of \<^verbatim>\<open>storage_get_stats\<close> ends and the
  buffer holds the report, cut to its size: the number of entries whose name does not begin with a
  dot, and the sum (in \<^verbatim>\<open>size_t\<close>) of the sizes of their directories; 0 and 0 when the directory
  cannot be opened.\<close>

theorem storage_get_stats_report:
  assumes "lists_dir K view" and "\<And>p s. fst (get_directory_size K p s) = size_of p"
    and "length (view (kst s)) < 2 ^ 31" and "32 \<le> buffer_size" and "buffer_size \<le> length buf"
    and "path = snprintf MAX_PATH_LEN (rt_image_dir ctx @ ''/layers'')"
    and "es = (if ret (fst (sys K (Sys_opendir path) s)) < 0 then [] else visible (view (kst s)))"
  shows "\<exists>b t. storage_get_stats K ctx buf buffer_size s = Some ((CR_OK, b), t) \<and> frame s t \<and>
    cbuf_str b = Some (take (buffer_size - 1)
      (storage_report (length es) (sum_list (map (\<lambda>e. size_of (snprintf MAX_PATH_LEN (path @ ''/'' @ e))) es))))"
proof -
  let ?n = "length es" and ?sz = "sum_list (map (\<lambda>e. size_of (snprintf MAX_PATH_LEN (path @ ''/'' @ e))) es)"
  obtain dir s1 where 1: "sys K (Sys_opendir path) s = (dir, s1)" by force
  have v: "view (kst s1) = view (kst s)" by (rule view_sys [OF assms(1) _ 1]) simp
  obtain t where t: "(if ret dir < 0 then Some (0, 0, s1)
        else do {
          (n, sz, s) \<leftarrow> count_layers K (ret dir) path 0 0 s1;
          let (_, s) = sys K (Sys_closedir (ret dir)) s;
          Some (n, sz, s)
        }) = Some (?n, ?sz, t)" "frame s t"
  proof (cases "ret dir < 0")
    case True
    then show thesis using that [of s1] frame_sysE [OF 1] by (simp add: assms(7) 1)
  next
    case False
    have "0 + length (view (kst s1)) < 2 ^ 31" using assms(3) v by simp
    from count_layers_view [OF assms(1,2) this, where dir = "ret dir" and path = path and acc = 0]
    obtain s2 where 2: "count_layers K (ret dir) path 0 0 s1 = Some (?n, ?sz, s2)" "frame s1 s2"
      using False by (auto simp: assms(7) 1 v)
    obtain c s3 where 3: "sys K (Sys_closedir (ret dir)) s2 = (c, s3)" by force
    have "frame s s3" by (rule frame_trans [OF frame_sysE [OF 1] frame_trans [OF 2(2) frame_sysE [OF 3]]])
    then show thesis using False by (intro that [of s3]) (simp_all add: 2 3)
  qed
  have "?n \<le> length (view (kst s))" by (simp add: assms(7) visible_def)
  then have n: "?n < 2 ^ 31" using assms(3) by simp
  obtain b1 b2 k where b: "stats_append buf 0 buffer_size (''Layers: '' @ dec_nat ?n @ [CHR 0x0A]) =
      Some (b1, length (''Layers: '' @ dec_nat ?n @ [CHR 0x0A]))"
    "stats_append b1 (length (''Layers: '' @ dec_nat ?n @ [CHR 0x0A])) buffer_size
       (''Total Size: '' @ fmt_f2 (ddiv2 20 (double_of_int (uint ?sz))) @ '' MB'' @ [CHR 0x0A]) = Some (b2, k)"
    "cbuf_str b2 = Some (take (buffer_size - 1) (storage_report ?n ?sz))"
    by (rule storage_lines [OF n assms(4,5), of ?sz])
  have "storage_get_stats K ctx buf buffer_size s = Some ((CR_OK, b2), t)"
    unfolding storage_get_stats_def Let_def assms(6) [symmetric] 1 prod.case t(1) [unfolded Let_def] bind.bind_lunit b(1,2) ..
  with t(2) b(3) show ?thesis by blast
qed

section \<open>Witnesses\<close>

text \<open>A context with the directories of \<^verbatim>\<open>main\<close>, an image of two layers, and a system that lists a
  directory of three entries, each of 4096 bytes.\<close>

definition main_ctx :: runtime_ctx_t where
  "main_ctx = \<lparr>rt_runtime_dir = of_lit ''/run'', rt_state_dir = ''/s'', rt_image_dir = ''/img'',
     rt_network_dir = ''/n'', rt_use_systemd = False\<rparr>"

definition two_layers :: container_image_t where
  "two_layers = \<lparr>im_id = [], im_name = [], im_tag = [],
     im_layers = [\<lparr>il_id = ''a'', il_diff_path = ''/a'', il_size = 1\<rparr>, \<lparr>il_id = ''b'', il_diff_path = ''/b'', il_size = 1\<rparr>],
     im_num_layers = 2, im_rootfs_path = [], im_metadata_path = []\<rparr>"

definition listing :: "string list kernel" where
  "listing = \<lparr>kcall = (\<lambda>q es. case q of
       Sys_readdir d \<Rightarrow> (case es of [] \<Rightarrow> (failure 0, []) | e # es \<Rightarrow> (answer 1 e, es))
     | Sys_fscanf_zu f \<Rightarrow> (\<lparr>ret = 1, err = 0, dat = [], tv = (4096, 0)\<rparr>, es)
     | _ \<Rightarrow> (answer 0 [], es)),
     kstrerror = (\<lambda>_. ''error''), klocaltime = klocaltime (scripted (\<lambda>_. answer 0 [])), krand = (\<lambda>_ _. 0)\<rparr>"

definition listing_st :: "string list st" where
  "listing_st = \<lparr>kst = [''.'', ''a'', ''b''], trace = [], log_level = LOG_INFO, errno = 0, std_out = [], err_out = [],
     exit_code = None, rng = (1, 0), api = []\<rparr>"

lemma overlay_dir_main: "overlay_dir main_ctx ''c1'' ''/merged'' = ''/img/overlay/c1/merged''"
  "overlay_dir main_ctx ''c1'' ''/upper'' = ''/img/overlay/c1/upper''"
  "overlay_dir main_ctx ''c1'' ''/work'' = ''/img/overlay/c1/work''"
  by (simp_all add: overlay_dir_def main_ctx_def snprintf_def MAX_PATH_LEN_def)

theorem storage_mount_overlay_result_witness:
  "\<exists>rc b t ms r. storage_mount_overlay (scripted (\<lambda>_. answer 0 [])) main_ctx two_layers ''c1'' (uninit 64) 64 st0 =
      Some ((rc, b), t) \<and> effects t = ms @ [(Sys_mount (Some ''overlay'') ''/img/overlay/c1/merged'' (Some ''overlay'') 0
        (Some ''lowerdir=/b:/a,upperdir=/img/overlay/c1/upper,workdir=/img/overlay/c1/work''), r)]"
proof -
  have opts: "overlay_options main_ctx ''c1'' (im_layers two_layers) =
      ''lowerdir=/b:/a,upperdir=/img/overlay/c1/upper,workdir=/img/overlay/c1/work''"
    by (simp add: overlay_options_def two_layers_def overlay_dir_main)
  have "take (nat (sint (im_num_layers two_layers))) (im_layers two_layers) = im_layers two_layers"
    by (simp add: two_layers_def)
  from storage_mount_overlay_result [OF _ this [symmetric], of main_ctx "''c1''" 64 "uninit 64" "scripted (\<lambda>_. answer 0 [])" st0]
  show ?thesis
    unfolding opts overlay_dir_main by (auto simp: two_layers_def MAX_PATH_LEN_def uninit_def effects_def st0_def)
qed

theorem storage_create_layer_result_witness:
  "\<exists>rc t. storage_create_layer (scripted (\<lambda>_. answer 0 [])) main_ctx ''/src'' ''l1'' [] 64 st0 = Some ((rc, ''/img/layers/l1''), t)"
  using storage_create_layer_result [of 64 "scripted (\<lambda>_. answer 0 [])" main_ctx "''/src''" "''l1''" "[]" st0]
  by (auto simp: main_ctx_def snprintf_def)

theorem storage_import_layer_result_witness:
  "\<exists>rc t. storage_import_layer (scripted (\<lambda>_. answer 0 [])) main_ctx ''/x.tgz'' ''l1'' [] 64 st0 = Some ((rc, ''/img/layers/l1''), t)"
  using storage_import_layer_result [of 64 "scripted (\<lambda>_. answer 0 [])" main_ctx "''/x.tgz''" "''l1''" "[]" st0]
  by (auto simp: main_ctx_def snprintf_def)

lemma lists_dir_listing: "lists_dir listing (\<lambda>k. k)"
  unfolding lists_dir_def listing_def by (auto split: sysreq.splits list.splits simp: failure_def answer_def)

lemma listing_size: "fst (get_directory_size listing p s) = 4096"
  by (simp add: get_directory_size_def listing_def sys_def answer_def Let_def split_beta)

theorem storage_get_stats_report_witness:
  "\<exists>b t. storage_get_stats listing main_ctx (uninit 64) 64 listing_st = Some ((CR_OK, b), t) \<and>
    cbuf_str b = Some (''Layers: 2'' @ [CHR 0x0A] @ ''Total Size: 0.01 MB'' @ [CHR 0x0A])"
proof -
  have es: "(if ret (fst (sys listing (Sys_opendir p) listing_st)) < 0 then [] else visible (kst listing_st)) = [''a'', ''b'']" for p
    by (simp add: listing_def listing_st_def sys_def answer_def visible_def)
  have rep: "storage_report (Suc (Suc 0)) 8192 = ''Layers: 2'' @ [CHR 0x0A] @ ''Total Size: 0.01 MB'' @ [CHR 0x0A]"
    unfolding numeral_2_eq_2 [symmetric] by (simp add: storage_report_def eval_simps del: Suc_1)
  show ?thesis
    using storage_get_stats_report [OF lists_dir_listing listing_size, of listing_st 64 "uninit 64" _ main_ctx, OF _ _ _ refl es [symmetric]]
    by (auto simp: rep listing_st_def uninit_def)
qed

end
