(* ===== verification/Handles.thy ===== *)
theory Handles
  imports Cgroups Namespaces Network Storage "HOL-Library.Multiset"
begin

text \<open>
  Descriptors, streams, pipes and directory streams: a replay of the effects of a run over the
  multiset of open handles, which fails at a close or a use of a handle that is not open. An
  operation \<open>keeps\<close> its handles (and the frame) if the handles that are open afterwards are those
  that were open before, whatever they were. Every operation of the library does.
\<close>

section \<open>Replaying the effects\<close>

datatype handle = H_fd int | H_file int | H_pipe int | H_dir int

fun acquires :: "sysreq \<Rightarrow> (int \<Rightarrow> handle) option" where
  "acquires (Sys_open p f m) = Some H_fd"
| "acquires (Sys_fopen p m) = Some H_file"
| "acquires (Sys_popen c) = Some H_pipe"
| "acquires (Sys_opendir p) = Some H_dir"
| "acquires q = None"

fun releases :: "sysreq \<Rightarrow> handle option" where
  "releases (Sys_close fd) = Some (H_fd fd)"
| "releases (Sys_fclose f) = Some (H_file f)"
| "releases (Sys_pclose f) = Some (H_pipe f)"
| "releases (Sys_closedir d) = Some (H_dir d)"
| "releases q = None"

fun touches :: "sysreq \<Rightarrow> handle option" where
  "touches (Sys_read fd n) = Some (H_fd fd)"
| "touches (Sys_write fd d) = Some (H_fd fd)"
| "touches (Sys_setns fd t) = Some (H_fd fd)"
| "touches (Sys_fseek_end f) = Some (H_file f)"
| "touches (Sys_fseek_set f) = Some (H_file f)"
| "touches (Sys_ftell f) = Some (H_file f)"
| "touches (Sys_fread f n) = Some (H_file f)"
| "touches (Sys_fputs f d) = Some (H_file f)"
| "touches (Sys_fscanf_zu f) = Some (H_pipe f)"
| "touches (Sys_readdir d) = Some (H_dir d)"
| "touches q = None"

definition replay1 :: "handle multiset \<Rightarrow> sysreq \<times> sysres \<Rightarrow> handle multiset option" where
  "replay1 M e =
     (case touches (fst e) of
        Some h \<Rightarrow> if h \<in># M then Some M else None
      | None \<Rightarrow>
        (case releases (fst e) of
           Some h \<Rightarrow> if h \<in># M then Some (M - {#h#}) else None
         | None \<Rightarrow>
           (case acquires (fst e) of
              Some H \<Rightarrow> Some (if ret (snd e) < 0 then M else add_mset (H (ret (snd e))) M)
            | None \<Rightarrow> Some M)))"

fun replay :: "handle multiset \<Rightarrow> (sysreq \<times> sysres) list \<Rightarrow> handle multiset option" where
  "replay M [] = Some M"
| "replay M (e # es) = do { M \<leftarrow> replay1 M e; replay M es }"

lemma replay_append: "replay M (xs @ ys) = do { M \<leftarrow> replay M xs; replay M ys }"
  by (induction xs arbitrary: M) (auto simp: bind_eq_Some_conv split: bind_split)

section \<open>Keeping the handles\<close>

text \<open>With the handles in \<open>H\<close> open, the run keeps all open handles open and opens no other for good.\<close>

definition keeps :: "handle set \<Rightarrow> 'k st \<Rightarrow> 'k st \<Rightarrow> bool" where
  "keeps H s t \<longleftrightarrow> frame s t \<and>
     (\<exists>es. effects t = effects s @ es \<and> (\<forall>M. H \<subseteq> set_mset M \<longrightarrow> replay M es = Some M))"

lemma keeps_refl [simp]: "keeps H s s"
  by (simp add: keeps_def)

lemma keeps_trans: "keeps H s t \<Longrightarrow> keeps H t u \<Longrightarrow> keeps H s u"
proof -
  assume "keeps H s t" "keeps H t u"
  then obtain xs ys where "frame s t" "frame t u" "effects t = effects s @ xs" "effects u = effects t @ ys"
    "\<forall>M. H \<subseteq> set_mset M \<longrightarrow> replay M xs = Some M" "\<forall>M. H \<subseteq> set_mset M \<longrightarrow> replay M ys = Some M"
    by (auto simp: keeps_def)
  then show "keeps H s u"
    unfolding keeps_def by (intro conjI exI [of _ "xs @ ys"]) (auto intro: frame_trans simp: replay_append)
qed

lemma keeps_mono: "keeps H s t \<Longrightarrow> H \<subseteq> H' \<Longrightarrow> keeps H' s t"
  unfolding keeps_def by blast

lemma keeps_frame: "keeps H s t \<Longrightarrow> frame s t"
  by (simp add: keeps_def)

lemma keeps_quiet: "frame s t \<Longrightarrow> effects t = effects s \<Longrightarrow> keeps H s t"
  unfolding keeps_def by (intro conjI exI [of _ "[]"]) simp_all

text \<open>A request that opens or closes nothing and touches only what is known to be open.\<close>

definition harmless :: "handle set \<Rightarrow> sysreq \<Rightarrow> bool" where
  "harmless H q \<longleftrightarrow> acquires q = None \<and> releases q = None \<and> (case touches q of None \<Rightarrow> True | Some h \<Rightarrow> h \<in> H)"

lemma keeps_effect:
  assumes "frame s t" and "effects t = effects s @ [(q, r)]" and "harmless H q"
  shows "keeps H s t"
  unfolding keeps_def
proof (intro conjI exI [of _ "[(q, r)]"] allI impI)
  show "replay M [(q, r)] = Some M" if "H \<subseteq> set_mset M" for M
    using assms(3) that by (auto simp: replay1_def harmless_def split: option.splits)
qed (use assms(1,2) in simp_all)

lemma keeps_sys: "harmless H q \<Longrightarrow> keeps H s (snd (sys K q s))"
  by (cases "is_obs q") (auto intro: keeps_effect keeps_quiet simp: frame_sys effects_sys_snd)

lemma keeps_open_failed:
  assumes "sys K q s = (r, t)" and "acquires q = Some a" and "ret r < 0"
  shows "keeps H s t"
proof -
  have "\<not> is_obs q" "touches q = None" "releases q = None" using assms(2) by (cases q; simp)+
  with assms effects_sys [OF assms(1)] frame_sysE [OF assms(1)] show ?thesis
    unfolding keeps_def by (intro conjI exI [of _ "[(q, r)]"]) (auto simp: replay1_def)
qed

text \<open>Opening, working with the handle, and closing it.\<close>

lemma keeps_bracket:
  assumes "sys K q s = (r, s1)" and "acquires q = Some a" and "0 \<le> ret r"
    and "keeps (insert (a (ret r)) H) s1 s2"
    and "sys K c s2 = (x, s3)" and "releases c = Some (a (ret r))"
  shows "keeps H s s3"
proof -
  have q: "\<not> is_obs q" "touches q = None" "releases q = None" using assms(2) by (cases q; simp)+
  have c: "\<not> is_obs c" "touches c = None" using assms(6) by (cases c; simp)+
  obtain es where es: "frame s1 s2" "effects s2 = effects s1 @ es"
    "\<forall>M. insert (a (ret r)) H \<subseteq> set_mset M \<longrightarrow> replay M es = Some M"
    using assms(4) by (auto simp: keeps_def)
  have "effects s3 = effects s @ ([(q, r)] @ es @ [(c, x)])"
    using effects_sys [OF assms(1)] effects_sys [OF assms(5)] q(1) c(1) es(2) by simp
  moreover have "replay M ([(q, r)] @ es @ [(c, x)]) = Some M" if "H \<subseteq> set_mset M" for M
  proof -
    have "replay (add_mset (a (ret r)) M) es = Some (add_mset (a (ret r)) M)"
      using es(3) that by (metis insert_mono set_mset_add_mset_insert)
    then show ?thesis using assms(2,3,6) q c by (simp add: replay_append replay1_def)
  qed
  moreover have "frame s s3" using frame_sysE [OF assms(1)] es(1) frame_sysE [OF assms(5)] frame_trans by blast
  ultimately show ?thesis unfolding keeps_def by blast
qed

section \<open>Rewriting with keeps\<close>

named_theorems keeps_rules "what each step keeps"

lemma harmless_simps [simp]:
  "harmless H (Sys_mkdir p m)" "harmless H (Sys_rmdir p)" "harmless H (Sys_unlink p)" "harmless H (Sys_stat p)"
  "harmless H (Sys_access p)" "harmless H (Sys_mount a b c d e)" "harmless H (Sys_umount2 p f)"
  "harmless H (Sys_pivot_root p p')" "harmless H (Sys_chdir p)" "harmless H (Sys_sethostname p)"
  "harmless H (Sys_usleep n)" "harmless H (Sys_system p)" "harmless H (Sys_waitpid w)" "harmless H Sys_getpid"
  "harmless H Sys_getuid" "harmless H Sys_getgid" "harmless H Sys_geteuid" "harmless H Sys_time"
  "harmless H Sys_gettimeofday" "harmless H (Sys_isatty fd)" "harmless H (Sys_malloc n)"
  "harmless H (Sys_read fd n) \<longleftrightarrow> H_fd fd \<in> H" "harmless H (Sys_write fd p) \<longleftrightarrow> H_fd fd \<in> H"
  "harmless H (Sys_setns fd i) \<longleftrightarrow> H_fd fd \<in> H" "harmless H (Sys_fseek_end fd) \<longleftrightarrow> H_file fd \<in> H"
  "harmless H (Sys_fseek_set fd) \<longleftrightarrow> H_file fd \<in> H" "harmless H (Sys_ftell fd) \<longleftrightarrow> H_file fd \<in> H"
  "harmless H (Sys_fread fd n) \<longleftrightarrow> H_file fd \<in> H" "harmless H (Sys_fputs fd p) \<longleftrightarrow> H_file fd \<in> H"
  "harmless H (Sys_fscanf_zu fd) \<longleftrightarrow> H_pipe fd \<in> H" "harmless H (Sys_readdir fd) \<longleftrightarrow> H_dir fd \<in> H"
  by (simp_all add: harmless_def)

lemma keeps_sys_step [keeps_rules]: "keeps H s t \<Longrightarrow> harmless H q \<Longrightarrow> keeps H s (snd (sys K q t))"
  using keeps_sys keeps_trans by metis

lemma keeps_log_step [keeps_rules]: "keeps H s t \<Longrightarrow> level \<noteq> LOG_FATAL \<Longrightarrow> keeps H s (cr_log K level msg t)"
  by (rule keeps_trans [OF _ keeps_quiet]) (simp_all add: cr_log_frame)

lemma keeps_seed_step [keeps_rules]: "keeps H s t \<Longrightarrow> keeps H s (seed_from_clock K t)"
  by (rule keeps_trans [OF _ keeps_quiet]) (simp_all add: frame_seed effects_seed)

lemma keeps_rand_step [keeps_rules]: "keeps H s t \<Longrightarrow> keeps H s (snd (rand K t))"
  by (rule keeps_trans [OF _ keeps_quiet]) (simp_all add: frame_rand_step effects_rand)

lemma keeps_if [keeps_rules]: "(c \<Longrightarrow> keeps H s (snd a)) \<Longrightarrow> (\<not> c \<Longrightarrow> keeps H s (snd b)) \<Longrightarrow> keeps H s (snd (if c then a else b))"
  by simp

text \<open>Around an open: nothing to close if it fails; otherwise the close ends the bracket.\<close>

lemma keeps_failed_step:
  assumes "sys K q t = (r, s1)" and "keeps H s t"
  shows "acquires q \<noteq> None \<Longrightarrow> ret r < 0 \<Longrightarrow> keeps H s s1"
  using keeps_open_failed [OF assms(1)] keeps_trans [OF assms(2)] by auto

lemma keeps_close_step:
  assumes "sys K q t = (r, s1)" and "keeps H s t"
  shows "acquires q = Some H_fd \<Longrightarrow> 0 \<le> ret r \<Longrightarrow> keeps (insert (H_fd (ret r)) H) s1 u \<Longrightarrow>
      keeps H s (snd (sys K (Sys_close (ret r)) u))"
    and "acquires q = Some H_file \<Longrightarrow> 0 \<le> ret r \<Longrightarrow> keeps (insert (H_file (ret r)) H) s1 u \<Longrightarrow>
      keeps H s (snd (sys K (Sys_fclose (ret r)) u))"
    and "acquires q = Some H_pipe \<Longrightarrow> 0 \<le> ret r \<Longrightarrow> keeps (insert (H_pipe (ret r)) H) s1 u \<Longrightarrow>
      keeps H s (snd (sys K (Sys_pclose (ret r)) u))"
    and "acquires q = Some H_dir \<Longrightarrow> 0 \<le> ret r \<Longrightarrow> keeps (insert (H_dir (ret r)) H) s1 u \<Longrightarrow>
      keeps H s (snd (sys K (Sys_closedir (ret r)) u))"
  by (rule keeps_trans [OF assms(2) keeps_bracket [OF assms(1) _ _ _ surjective_pairing]], assumption+, simp)+

lemmas keeps_open_rules = keeps_failed_step keeps_close_step

section \<open>The operations that open a handle\<close>

lemma keeps_cgroup_write_file [keeps_rules]:
  assumes "keeps H s t" shows "keeps H s (snd (cgroup_write_file K p v t))"
proof -
  obtain r s1 where 1: "sys K (Sys_open p (O_WRONLY OR O_CREAT OR O_TRUNC) 420) t = (r, s1)" by force
  show ?thesis
    by (simp add: cgroup_write_file_def 1 Let_def split_beta keeps_rules keeps_open_rules [OF 1 assms])
qed

lemma keeps_cgroup_read_file [keeps_rules]:
  assumes "keeps H s t" shows "keeps H s (snd (cgroup_read_file K p n t))"
proof -
  obtain r s1 where 1: "sys K (Sys_open p O_RDONLY 0) t = (r, s1)" by force
  show ?thesis
    by (simp add: cgroup_read_file_def 1 Let_def split_beta keeps_rules keeps_open_rules [OF 1 assms])
qed

lemma keeps_write_map [keeps_rules]:
  assumes "keeps H s t" shows "keeps H s (snd (write_map K name i t))"
proof -
  obtain r s1 where 1: "sys K (Sys_open (''/proc/self/'' @ name) O_WRONLY 0) t = (r, s1)" by force
  show ?thesis
    by (simp add: write_map_def 1 Let_def split_beta keeps_rules keeps_open_rules [OF 1 assms] del: append_Cons)
qed

lemma keeps_namespace_setup_user [keeps_rules]:
  assumes "keeps H s t" shows "keeps H s (snd (namespace_setup_user K uid gid t))"
proof -
  obtain r s1 where 1: "sys K (Sys_open ''/proc/self/setgroups'' O_WRONLY 0) t = (r, s1)" by force
  let ?u = "if 0 \<le> ret r then snd (sys K (Sys_close (ret r)) (snd (sys K (Sys_write (ret r) ''deny'') s1))) else s1"
  have "keeps H s ?u" by (simp add: keeps_rules keeps_open_rules [OF 1 assms])
  then show ?thesis
    unfolding namespace_setup_user_def Let_def 1 prod.case by (simp add: split_beta keeps_rules)
qed

lemma keeps_namespace_join [keeps_rules]:
  assumes "keeps H s t" shows "keeps H s (snd (namespace_join K p ty t))"
proof -
  obtain r s1 where 1: "sys K (Sys_open p O_RDONLY 0) t = (r, s1)" by force
  show ?thesis
    by (simp add: namespace_join_def 1 Let_def split_beta keeps_rules keeps_open_rules [OF 1 assms])
qed

lemma keeps_write_file [keeps_rules]:
  assumes "keeps H s t" shows "keeps H s (snd (write_file K p v t))"
proof -
  obtain r s1 where 1: "sys K (Sys_fopen p ''w'') t = (r, s1)" by force
  show ?thesis
    by (simp add: write_file_def 1 Let_def split_beta keeps_rules keeps_open_rules [OF 1 assms])
qed

lemma keeps_get_directory_size [keeps_rules]:
  assumes "keeps H s t" shows "keeps H s (snd (get_directory_size K p t))"
proof -
  obtain r s1 where 1: "sys K (Sys_popen (snprintf MAX_PATH_LEN
      (''du -sb '' @ p @ '' 2>/dev/null | cut -f1''))) t = (r, s1)" by force
  show ?thesis
    unfolding get_directory_size_def Let_def 1 prod.case
    by (simp add: split_beta keeps_rules keeps_open_rules [OF 1 assms])
qed

section \<open>The other operations that return a code\<close>

lemma keeps_is_cgroup_v2 [keeps_rules]: "keeps H s t \<Longrightarrow> keeps H s (snd (is_cgroup_v2 K t))"
  by (simp add: is_cgroup_v2_def Let_def split_beta keeps_rules del: append_Cons)

lemma keeps_cgroup_create [keeps_rules]: "keeps H s t \<Longrightarrow> keeps H s (snd (cgroup_create K i q n t))"
  by (simp add: cgroup_create_def Let_def split_beta keeps_rules del: append_Cons)

lemma keeps_cgroup_add_process [keeps_rules]: "keeps H s t \<Longrightarrow> keeps H s (snd (cgroup_add_process K p i t))"
  by (simp add: cgroup_add_process_def Let_def split_beta keeps_rules del: append_Cons)

lemma keeps_cgroup_freeze [keeps_rules]: "keeps H s t \<Longrightarrow> keeps H s (snd (cgroup_freeze K p t))"
  by (simp add: cgroup_freeze_def Let_def split_beta keeps_rules del: append_Cons)

lemma keeps_cgroup_unfreeze [keeps_rules]: "keeps H s t \<Longrightarrow> keeps H s (snd (cgroup_unfreeze K p t))"
  by (simp add: cgroup_unfreeze_def Let_def split_beta keeps_rules del: append_Cons)

lemma keeps_cgroup_kill_all [keeps_rules]: "keeps H s t \<Longrightarrow> keeps H s (snd (cgroup_kill_all K p t))"
  by (simp add: cgroup_kill_all_def Let_def split_beta keeps_rules del: append_Cons)

lemma keeps_cgroup_destroy [keeps_rules]: "keeps H s t \<Longrightarrow> keeps H s (snd (cgroup_destroy K p t))"
  by (simp add: cgroup_destroy_def Let_def split_beta keeps_rules del: append_Cons)

lemma keeps_namespace_pivot_root [keeps_rules]: "keeps H s t \<Longrightarrow> keeps H s (snd (namespace_pivot_root K p t))"
  by (simp add: namespace_pivot_root_def Let_def split_beta keeps_rules del: append_Cons)

lemma keeps_namespace_setup_uts [keeps_rules]: "keeps H s t \<Longrightarrow> keeps H s (snd (namespace_setup_uts K h t))"
  by (simp add: namespace_setup_uts_def Let_def split_beta keeps_rules del: append_Cons)

lemma keeps_exec_cmd [keeps_rules]: "keeps H s t \<Longrightarrow> keeps H s (snd (exec_cmd K c t))"
  by (simp add: exec_cmd_def Let_def split_beta keeps_rules del: append_Cons)

lemma keeps_network_delete_bridge [keeps_rules]: "keeps H s t \<Longrightarrow> keeps H s (snd (network_delete_bridge K b t))"
  by (simp add: network_delete_bridge_def Let_def split_beta keeps_rules del: append_Cons)

lemma keeps_configure_bridge [keeps_rules]: "keeps H s t \<Longrightarrow> keeps H s (snd (configure_bridge K b n g m t))"
  by (simp add: configure_bridge_def Let_def split_beta keeps_rules del: append_Cons)

lemma keeps_network_setup_veth [keeps_rules]: "keeps H s t \<Longrightarrow> keeps H s (snd (network_setup_veth K i b a g p t))"
  by (simp add: network_setup_veth_def Let_def split_beta keeps_rules del: append_Cons)

lemma keeps_storage_unmount_overlay [keeps_rules]: "keeps H s t \<Longrightarrow> keeps H s (snd (storage_unmount_overlay K p t))"
  by (simp add: storage_unmount_overlay_def Let_def split_beta keeps_rules del: append_Cons)

lemma keeps_storage_remove_overlay [keeps_rules]: "keeps H s t \<Longrightarrow> keeps H s (snd (storage_remove_overlay K c i t))"
  by (simp add: storage_remove_overlay_def Let_def split_beta keeps_rules del: append_Cons)

lemma keeps_storage_export_layer [keeps_rules]: "keeps H s t \<Longrightarrow> keeps H s (snd (storage_export_layer K p q t))"
  by (simp add: storage_export_layer_def Let_def split_beta keeps_rules del: append_Cons)

lemma keeps_file_exists [keeps_rules]: "keeps H s t \<Longrightarrow> keeps H s (snd (file_exists K p t))"
  by (simp add: file_exists_def Let_def split_beta keeps_rules del: append_Cons)

lemma keeps_apply_control [keeps_rules]: "keeps H s t \<Longrightarrow> keeps H s (apply_control K p v w d t)"
  by (simp add: apply_control_def split_beta keeps_rules)

lemma keeps_mount_special [keeps_rules]: "keeps H s t \<Longrightarrow> keeps H s (mount_special K p src ty fl d w t)"
  by (simp add: mount_special_def Let_def split_beta keeps_rules del: append_Cons)

lemma keeps_mount_specials [keeps_rules]: "keeps H s t \<Longrightarrow> keeps H s (mount_specials K root t)"
  by (simp add: mount_specials_def Let_def split_beta keeps_rules del: append_Cons)

lemma keeps_mkdir_parents: "keeps H s t \<Longrightarrow> mkdir_parents K mode pre p t = (rc, u) \<Longrightarrow> keeps H s u"
proof (induction p arbitrary: pre t)
  case (Cons c cs)
  obtain r t1 where 1: "sys K (Sys_mkdir pre mode) t = (r, t1)" by force
  have "keeps H s t1" using keeps_sys_step [OF Cons.prems(1), of "Sys_mkdir pre mode" K] 1 by simp
  with Cons show ?case by (auto simp: 1 split: if_splits)
qed simp

lemma keeps_mkdir_parents_snd [keeps_rules]: "keeps H s t \<Longrightarrow> keeps H s (snd (mkdir_parents K mode pre p t))"
  using keeps_mkdir_parents by (metis surjective_pairing)

section \<open>The operations that may be undefined\<close>

named_theorems keeps_opt "what each operation keeps, if its behaviour is defined"

lemma keeps_mkdir_recursive [keeps_opt]:
  "mkdir_recursive K p m t = Some (x, u) \<Longrightarrow> keeps H s t \<Longrightarrow> keeps H s u"
  by (auto simp: mkdir_recursive_def Let_def split_beta intro!: keeps_rules intro: keeps_mkdir_parents split: if_splits)

text \<open>The three directories that two of the operations make.\<close>

lemma keeps_mkdir_thrice:
  assumes "mkdir_recursive K p m t = Some (x, t1)" and "mkdir_recursive K p' m' t1 = Some (x', t2)"
    and "mkdir_recursive K p'' m'' t2 = Some (x'', u)" and "keeps H s t"
  shows "keeps H s u"
  using assms by (metis keeps_mkdir_recursive)

lemma keeps_storage_init [keeps_opt]:
  "storage_init K c t = Some (x, u) \<Longrightarrow> keeps H s t \<Longrightarrow> keeps H s u"
  by (auto simp: storage_init_def bind_eq_Some_conv intro!: keeps_rules intro: keeps_mkdir_thrice)

lemma keeps_storage_create_layer [keeps_opt]:
  "storage_create_layer K c d l q n t = Some (x, u) \<Longrightarrow> keeps H s t \<Longrightarrow> keeps H s u"
  by (auto simp: storage_create_layer_def bind_eq_Some_conv Let_def split_beta intro!: keeps_rules intro: keeps_opt split: if_splits)

lemma keeps_storage_mount_overlay [keeps_opt]:
  "storage_mount_overlay K c g i p n t = Some (x, u) \<Longrightarrow> keeps H s t \<Longrightarrow> keeps H s u"
  by (auto simp: storage_mount_overlay_def bind_eq_Some_conv Let_def split_beta intro!: keeps_rules intro: keeps_mkdir_thrice split: if_splits)

lemma keeps_storage_create_diff_layer [keeps_opt]:
  "storage_create_diff_layer K c l d i q n t = Some (x, u) \<Longrightarrow> keeps H s t \<Longrightarrow> keeps H s u"
  by (auto simp: storage_create_diff_layer_def bind_eq_Some_conv Let_def split_beta intro!: keeps_rules intro: keeps_opt split: if_splits)

lemma keeps_storage_import_layer [keeps_opt]:
  "storage_import_layer K c f l q n t = Some (x, u) \<Longrightarrow> keeps H s t \<Longrightarrow> keeps H s u"
  by (auto simp: storage_import_layer_def bind_eq_Some_conv Let_def split_beta intro!: keeps_rules intro: keeps_opt split: if_splits)

lemma keeps_storage_commit_container [keeps_opt]:
  "storage_commit_container K c i l t = Some (x, u) \<Longrightarrow> keeps H s t \<Longrightarrow> keeps H s u"
  by (auto simp: storage_commit_container_def bind_eq_Some_conv Let_def split_beta intro!: keeps_rules intro: keeps_opt split: if_splits)

lemma keeps_when_st: "keeps H s t \<Longrightarrow> (\<And>u. keeps H s u \<Longrightarrow> keeps H s (f u)) \<Longrightarrow> keeps H s (when_st c f t)"
  by (simp add: when_st_def)

lemma keeps_cgroup_apply_limits [keeps_opt]:
  "cgroup_apply_limits K p lim t = Some (x, u) \<Longrightarrow> keeps H s t \<Longrightarrow> keeps H s u"
  unfolding cgroup_apply_limits_def Let_def bind_eq_Some_conv
  by (elim exE conjE) (auto simp only: option.inject prod.inject bind_eq_Some_conv
      intro!: keeps_when_st keeps_apply_control keeps_cgroup_write_file split: if_splits)

lemma keeps_namespace_persist [keeps_opt]:
  assumes "namespace_persist K pid name p t = Some (x, u)" and "keeps H s t"
  shows "keeps H s u"
proof -
  obtain a t1 where 1: "sys K (Sys_malloc (Suc (length p))) t = (a, t1)" by force
  have k1: "keeps H s t1" using keeps_sys_step [OF assms(2), of "Sys_malloc (Suc (length p))" K] 1 by simp
  let ?t2 = "case before_last_slash p of None \<Rightarrow> t1 | Some d \<Rightarrow> snd (sys K (Sys_mkdir d 493) t1)"
  have k2: "keeps H s ?t2" using k1 by (auto simp: keeps_rules split: option.split)
  obtain r t3 where 3: "sys K (Sys_open p (O_RDONLY OR O_CREAT OR O_EXCL) 292) ?t2 = (r, t3)" by force
  show ?thesis
    using assms(1) unfolding namespace_persist_def Let_def
    by (auto simp: 1 3 split_beta keeps_rules keeps_open_rules [OF 3 k2] simp del: append_Cons split: if_splits)
qed

lemma keeps_mount_volumes: "mount_volumes K root ms n t = Some (x, u) \<Longrightarrow> keeps H s t \<Longrightarrow> keeps H s u"
proof (induction ms arbitrary: n t)
  case Nil
  then show ?case by (cases n) auto
next
  case (Cons m ms)
  then show ?case
    by (cases n) (auto simp: Let_def split_beta simp del: append_Cons intro!: keeps_rules elim!: Cons.IH split: if_splits)
qed

lemma keeps_forward_ports: "forward_ports K ip ms n t = Some u \<Longrightarrow> keeps H s t \<Longrightarrow> keeps H s u"
proof (induction ms arbitrary: n t)
  case Nil
  then show ?case by (cases n) auto
next
  case (Cons m ms)
  then show ?case
    by (cases n) (auto simp: Let_def split_beta simp del: append_Cons intro!: keeps_rules elim!: Cons.IH split: if_splits)
qed

lemma keeps_unforward_ports: "unforward_ports K ip ms n t = Some u \<Longrightarrow> keeps H s t \<Longrightarrow> keeps H s u"
proof (induction ms arbitrary: n t)
  case Nil
  then show ?case by (cases n) auto
next
  case (Cons m ms)
  then show ?case
    by (cases n) (auto simp: Let_def split_beta simp del: append_Cons intro!: keeps_rules elim!: Cons.IH split: if_splits)
qed


lemma keeps_namespace_setup_mounts [keeps_opt]:
  "namespace_setup_mounts K c t = Some (x, u) \<Longrightarrow> keeps H s t \<Longrightarrow> keeps H s u"
  by (auto simp: namespace_setup_mounts_def Let_def split_beta simp del: append_Cons
      intro!: keeps_rules elim!: keeps_mount_volumes split: if_splits)

lemma keeps_configure_bridge_eq: "configure_bridge K b n g m t = (x, u) \<Longrightarrow> keeps H s t \<Longrightarrow> keeps H s u"
  using keeps_configure_bridge by (metis snd_conv)

lemma keeps_network_create_bridge [keeps_opt]:
  "network_create_bridge K b n t = Some (x, u) \<Longrightarrow> keeps H s t \<Longrightarrow> keeps H s u"
  by (auto simp: network_create_bridge_def Let_def split_beta bind_eq_Some_conv simp del: append_Cons
      intro!: keeps_rules elim!: keeps_configure_bridge_eq split: if_splits option.splits)

lemma keeps_network_setup_port_forwarding [keeps_opt]:
  "network_setup_port_forwarding K i ps n t = Some (x, u) \<Longrightarrow> keeps H s t \<Longrightarrow> keeps H s u"
  by (auto simp: network_setup_port_forwarding_def intro: keeps_forward_ports)

lemma keeps_network_remove_port_forwarding [keeps_opt]:
  "network_remove_port_forwarding K i ps n t = Some (x, u) \<Longrightarrow> keeps H s t \<Longrightarrow> keeps H s u"
  by (auto simp: network_remove_port_forwarding_def intro: keeps_unforward_ports)

lemma keeps_network_allocate_ip [keeps_opt]:
  "network_allocate_ip K n a l t = Some (x, u) \<Longrightarrow> keeps H s t \<Longrightarrow> keeps H s u"
  by (auto simp: network_allocate_ip_def Let_def split_beta bind_eq_Some_conv
      intro!: keeps_rules split: option.splits)

lemma keeps_choose_ip: "choose_ip K n t = Some (x, u) \<Longrightarrow> keeps H s t \<Longrightarrow> keeps H s u"
  by (auto simp: choose_ip_def bind_eq_Some_conv split_beta intro: keeps_opt split: if_splits)

lemma keeps_network_setup_container [keeps_opt]:
  assumes "network_setup_container K c t = Some (x, u)" and "keeps H s t"
  shows "keeps H s u"
proof -
  let ?net = "cfg_network (ct_config c)"
  obtain rc t1 where 1: "network_create_bridge K (nw_bridge_name ?net) (nw_subnet ?net) t = Some (rc, t1)"
    and rest: "rc \<noteq> CR_OK \<Longrightarrow> u = t1"
    using assms(1)
    by (cases "network_create_bridge K (nw_bridge_name ?net) (nw_subnet ?net) t")
      (auto simp: network_setup_container_def Let_def split: if_splits)
  note k1 = keeps_network_create_bridge [OF 1 assms(2)]
  show ?thesis
  proof (cases "rc = CR_OK")
    case True
    then obtain rc' net' t2 where 2: "choose_ip K ?net t1 = Some ((rc', net'), t2)"
      using assms(1) 1
      by (cases "choose_ip K ?net t1") (auto simp: network_setup_container_def Let_def)
    have k2: "keeps H s (snd (network_setup_veth K i b a g p t2))" "keeps H s t2" for i b a g p
      using keeps_choose_ip [OF 2 k1] by (simp_all add: keeps_network_setup_veth)
    show ?thesis
      using assms(1) True k2
      by (auto simp: network_setup_container_def 1 2 bind_eq_Some_conv Let_def split_beta
          intro: keeps_network_setup_port_forwarding split: if_splits)
  qed (use k1 rest in simp)
qed

lemma keeps_network_cleanup_container [keeps_opt]:
  "network_cleanup_container K c t = Some (x, u) \<Longrightarrow> keeps H s t \<Longrightarrow> keeps H s u"
  by (auto simp: network_cleanup_container_def Let_def split_beta bind_eq_Some_conv simp del: append_Cons
      intro!: keeps_rules intro: keeps_opt split: if_splits)

lemma keeps_generate_id [keeps_opt]:
  assumes "generate_id K b n t = Some (x, u)" and "keeps H s t"
  shows "keeps H s u"
proof -
  obtain r t1 where 1: "sys K (Sys_fopen ''/dev/urandom'' ''r'') t = (r, t1)" by force
  have rand: "keeps H s (snd (rand_chars K m (seed_from_clock K t1)))" if "ret r < 0" for m
  proof -
    have k: "keeps H s (seed_from_clock K t1)"
      using that by (simp add: keeps_rules keeps_open_rules [OF 1 assms(2)])
    obtain cs t2 where 2: "rand_chars K m (seed_from_clock K t1) = (cs, t2)" by force
    show ?thesis using rand_chars_hex [OF 2] k keeps_trans keeps_quiet by (metis 2 snd_conv)
  qed
  show ?thesis
    using assms(1) rand
    by (auto simp: generate_id_def 1 Let_def split_beta keeps_rules keeps_open_rules [OF 1 assms(2)] split: if_splits)
qed

lemma keeps_read_file [keeps_opt]:
  assumes "read_file K p t = Some (x, u)" and "keeps H s t"
  shows "keeps H s u"
proof -
  obtain r t1 where 1: "sys K (Sys_fopen p ''r'') t = (r, t1)" by force
  show ?thesis
    using assms(1) keeps_failed_step [OF 1 assms(2)]
    by (auto simp: read_file_def 1 Let_def split_beta keeps_rules keeps_close_step [OF 1 assms(2)] split: if_splits)
qed

lemma keeps_stats_line: "stats_line K f b a n (buf, off, t) = Some (buf', off', u) \<Longrightarrow> keeps H s t \<Longrightarrow> keeps H s u"
  by (auto simp: stats_line_def Let_def split_beta keeps_rules split: if_splits)

lemma keeps_cgroup_get_stats [keeps_opt]:
  assumes "cgroup_get_stats K p b n t = Some (x, u)" and "keeps H s t"
  shows "keeps H s u"
  using assms(1) unfolding cgroup_get_stats_def Let_def bind_eq_Some_conv
  by (auto simp: assms(2) split_paired_Ex simp del: append_Cons dest!: keeps_stats_line [where H = H and s = s])

lemma keeps_count_layers:
  assumes "count_layers K d p n z t = Some (n', z', u)" and "H_dir d \<in> H" and "keeps H s t"
  shows "keeps H s u"
proof -
  let ?P = "\<lambda>K d p n z t y. \<forall>n' z' u. y = (n', z', u) \<longrightarrow> H_dir d \<in> H \<longrightarrow> keeps H s t \<longrightarrow> keeps H s u"
  have "?P K d p n z t (n', z', u)"
    by (rule count_layers.raw_induct [where P = ?P, OF _ assms(1)])
      (fastforce simp: Let_def split_beta split: if_splits intro!: keeps_rules)
  with assms show ?thesis by blast
qed

lemma keeps_storage_get_stats [keeps_opt]:
  assumes "storage_get_stats K c b n t = Some (x, u)" and "keeps H s t"
  shows "keeps H s u"
proof -
  let ?path = "snprintf MAX_PATH_LEN (rt_image_dir c @ ''/layers'')"
  obtain r t1 where 1: "sys K (Sys_opendir ?path) t = (r, t1)" by force
  have "keeps (insert (H_dir (ret r)) H) t1 t2" if "count_layers K (ret r) ?path 0 0 t1 = Some (m, z, t2)" for m z t2
    by (rule keeps_count_layers [OF that]) simp_all
  then have "keeps H s (snd (sys K (Sys_closedir (ret r)) t2))"
    if "count_layers K (ret r) ?path 0 0 t1 = Some (m, z, t2)" and "0 \<le> ret r" for m z t2
    using that by (intro keeps_close_step(4) [OF 1 assms(2)]) auto
  with keeps_failed_step [OF 1 assms(2)] assms(1) show ?thesis
    unfolding storage_get_stats_def Let_def 1 prod.case bind_eq_Some_conv
    by (auto simp: bind_eq_Some_conv split_beta simp del: append_Cons split: if_splits)
qed

end
