(* ===== verification/Library_Steps.thy ===== *)
theory Library_Steps
  imports Handles
begin

text \<open>
  Programs over the library: the step relation whose rules are the functions of
  \<^verbatim>\<open>cruntime.h\<close>, and what holds after any number of steps, in any order and with any
  arguments and answers of the system: nothing outside the frame has changed, and every handle
  that was opened has been closed.
\<close>

section \<open>Steps of the library\<close>

text \<open>
  A program over the library: one rule for each function of \<^verbatim>\<open>cruntime.h\<close> that talks to the
  system, with any arguments. A function whose behaviour is undefined has no step.
\<close>

inductive lib_step :: "'k kernel \<Rightarrow> 'k st \<Rightarrow> 'k st \<Rightarrow> bool" for K :: "'k kernel" where
  message: "level \<noteq> LOG_FATAL \<Longrightarrow> lib_step K s (cr_log K level msg s)"
| generate: "generate_id K buf n s = Some (b, t) \<Longrightarrow> lib_step K s t"
| exists: "lib_step K s (snd (file_exists K path s))"
| read_text: "read_file K path s = Some (b, t) \<Longrightarrow> lib_step K s t"
| write_text: "lib_step K s (snd (write_file K path content s))"
| create_cgroup: "lib_step K s (snd (cgroup_create K ident old n s))"
| apply_limits: "cgroup_apply_limits K path lim s = Some (rc, t) \<Longrightarrow> lib_step K s t"
| add_process: "lib_step K s (snd (cgroup_add_process K path pid s))"
| cgroup_stats: "cgroup_get_stats K path buf n s = Some (x, t) \<Longrightarrow> lib_step K s t"
| freeze: "lib_step K s (snd (cgroup_freeze K path s))"
| unfreeze: "lib_step K s (snd (cgroup_unfreeze K path s))"
| kill_all: "lib_step K s (snd (cgroup_kill_all K path s))"
| destroy: "lib_step K s (snd (cgroup_destroy K path s))"
| setup_mounts: "namespace_setup_mounts K config s = Some (rc, t) \<Longrightarrow> lib_step K s t"
| pivot: "lib_step K s (snd (namespace_pivot_root K root s))"
| setup_uts: "lib_step K s (snd (namespace_setup_uts K hostname s))"
| setup_user: "lib_step K s (snd (namespace_setup_user K uid gid s))"
| join: "lib_step K s (snd (namespace_join K path ty s))"
| persist: "namespace_persist K pid name path s = Some (rc, t) \<Longrightarrow> lib_step K s t"
| create_bridge: "network_create_bridge K bridge subnet s = Some (rc, t) \<Longrightarrow> lib_step K s t"
| delete_bridge: "lib_step K s (snd (network_delete_bridge K bridge s))"
| setup_veth: "lib_step K s (snd (network_setup_veth K ident bridge ip gw pid s))"
| allocate_ip: "network_allocate_ip K subnet buf n s = Some (x, t) \<Longrightarrow> lib_step K s t"
| setup_ports: "network_setup_port_forwarding K ip ports m s = Some (rc, t) \<Longrightarrow> lib_step K s t"
| remove_ports: "network_remove_port_forwarding K ip ports m s = Some (rc, t) \<Longrightarrow> lib_step K s t"
| setup_network: "network_setup_container K c s = Some (x, t) \<Longrightarrow> lib_step K s t"
| cleanup_network: "network_cleanup_container K c s = Some (rc, t) \<Longrightarrow> lib_step K s t"
| init_storage: "storage_init K ctx s = Some (rc, t) \<Longrightarrow> lib_step K s t"
| create_layer: "storage_create_layer K ctx dir ident old n s = Some (x, t) \<Longrightarrow> lib_step K s t"
| mount_overlay: "storage_mount_overlay K ctx img ident buf n s = Some (x, t) \<Longrightarrow> lib_step K s t"
| unmount_overlay: "lib_step K s (snd (storage_unmount_overlay K mp s))"
| remove_overlay: "lib_step K s (snd (storage_remove_overlay K ctx ident s))"
| create_diff: "storage_create_diff_layer K ctx base changed ident old n s = Some (x, t) \<Longrightarrow> lib_step K s t"
| export_layer: "lib_step K s (snd (storage_export_layer K path tar s))"
| import_layer: "storage_import_layer K ctx tar ident old n s = Some (x, t) \<Longrightarrow> lib_step K s t"
| commit: "storage_commit_container K ctx ident layer s = Some (rc, t) \<Longrightarrow> lib_step K s t"
| storage_stats: "storage_get_stats K ctx buf n s = Some (x, t) \<Longrightarrow> lib_step K s t"

lemma lib_step_keeps: "lib_step K s t \<Longrightarrow> keeps {} s t"
  by (erule lib_step.cases) ((simp add: keeps_rules; fail) | (simp only:, erule keeps_opt, rule keeps_refl))+

lemma lib_steps_keep: "(lib_step K)\<^sup>*\<^sup>* s t \<Longrightarrow> keeps {} s t"
  by (induction rule: rtranclp_induct) (auto intro: keeps_trans lib_step_keeps)

section \<open>After any number of steps\<close>

text \<open>C2. Whatever functions of the library a program calls, in whatever order, with whatever
  arguments and whatever the system answers, no descriptor, stream, pipe or directory is leaked,
  closed twice or used when it is not open: replayed from any handles that were open before, the
  requests of the run end with exactly these handles open.\<close>

theorem handles_balanced:
  assumes "(lib_step K)\<^sup>*\<^sup>* s t"
  shows "\<exists>es. effects t = effects s @ es \<and> (\<forall>M. replay M es = Some M)"
  using lib_steps_keep [OF assms] by (auto simp: keeps_def)

theorem handles_balanced_witness:
  "\<exists>es. effects (snd (cgroup_freeze accepting_kernel ''/c'' st0)) = effects st0 @ es \<and> (\<forall>M. replay M es = Some M)"
  by (rule handles_balanced [OF r_into_rtranclp]) (rule lib_step.freeze)

text \<open>Nor does any such sequence of calls write to standard output, change the log level, end
  the process, call back into the container core, or take back anything logged or requested.\<close>

theorem library_frame:
  assumes "(lib_step K)\<^sup>*\<^sup>* s t"
  shows "log_level t = log_level s \<and> std_out t = std_out s \<and> exit_code t = exit_code s \<and> api t = api s \<and>
    prefix (trace s) (trace t) \<and> prefix (err_out s) (err_out t)"
  using keeps_frame [OF lib_steps_keep [OF assms]] by (simp add: frame_def)

theorem library_frame_witness:
  "log_level (snd (cgroup_freeze accepting_kernel ''/c'' st0)) = LOG_INFO \<and>
   prefix (err_out st0) (err_out (snd (cgroup_freeze accepting_kernel ''/c'' st0)))"
  using library_frame [OF r_into_rtranclp, OF lib_step.freeze [of accepting_kernel st0 "''/c''"]]
  by (simp add: st0_def)

end
