(* ===== verification/Overlays.thy ===== *)
theory Overlays
  imports Library_Steps Simulation
begin

text \<open>
  The storage driver of \<^verbatim>\<open>src/storage/storage.c\<close> under any sequence of its operations. Its
  abstract state is the multiset of the mount points of overlays, as the answers of the system to
  the mount and unmount requests tell it; \<open>store_step\<close> is the machine, labelled with the operations and
  the codes they return. Nothing is assumed of the system.
\<close>

section \<open>The overlays that are mounted\<close>

fun overlay_effect :: "sysreq \<times> sysres \<Rightarrow> string multiset \<Rightarrow> string multiset" where
  "overlay_effect (Sys_mount src tgt ty flags opts, r) M =
     (if 0 \<le> ret r \<and> ty = Some ''overlay'' then add_mset tgt M else M)"
| "overlay_effect (Sys_umount2 p flags, r) M = (if 0 \<le> ret r then M - {#p#} else M)"
| "overlay_effect (q, r) M = M"

definition overlay_table :: "'k st \<Rightarrow> string multiset" where
  "overlay_table s = fold overlay_effect (effects s) {#}"

lemma overlay_table_simps [simp]:
  "overlay_table (snd (sys K q s)) = overlay_effect (q, fst (sys K q s)) (overlay_table s)"
  "overlay_table (cr_log K level msg s) = overlay_table s"
  by (cases q; simp add: overlay_table_def effects_sys_snd) (simp add: overlay_table_def)

section \<open>The operations of the driver\<close>

datatype store_op =
    St_init
  | St_layer string string string nat
  | St_mount container_image_t string cbuf nat
  | St_unmount string
  | St_remove string
  | St_diff string string string string nat
  | St_export string string
  | St_import string string string nat
  | St_commit string string
  | St_stats cbuf nat

definition code_only :: "((int \<times> 'b) \<times> 'k st) option \<Rightarrow> (int \<times> 'k st) option" where
  "code_only = map_option (\<lambda>((rc, _), t). (rc, t))"

fun run_store :: "'k kernel \<Rightarrow> runtime_ctx_t \<Rightarrow> store_op \<Rightarrow> 'k st \<Rightarrow> (int \<times> 'k st) option" where
  "run_store K ctx St_init s = storage_init K ctx s"
| "run_store K ctx (St_layer dir ident old n) s = code_only (storage_create_layer K ctx dir ident old n s)"
| "run_store K ctx (St_mount img ident mp n) s = code_only (storage_mount_overlay K ctx img ident mp n s)"
| "run_store K ctx (St_unmount mp) s = Some (storage_unmount_overlay K mp s)"
| "run_store K ctx (St_remove ident) s = Some (storage_remove_overlay K ctx ident s)"
| "run_store K ctx (St_diff base changed ident old n) s =
     code_only (storage_create_diff_layer K ctx base changed ident old n s)"
| "run_store K ctx (St_export path tar) s = Some (storage_export_layer K path tar s)"
| "run_store K ctx (St_import tar ident old n) s = code_only (storage_import_layer K ctx tar ident old n s)"
| "run_store K ctx (St_commit ident layer) s = storage_commit_container K ctx ident layer s"
| "run_store K ctx (St_stats buf n) s = code_only (storage_get_stats K ctx buf n s)"

section \<open>The machine\<close>

fun target :: "runtime_ctx_t \<Rightarrow> store_op \<Rightarrow> string option" where
  "target ctx (St_mount img ident mp n) = Some (overlay_dir ctx ident ''/merged'')"
| "target ctx (St_remove ident) = Some (overlay_dir ctx ident ''/merged'')"
| "target ctx (St_unmount mp) = Some mp"
| "target ctx a = None"

text \<open>An unmount also succeeds where nothing is mounted; a removal succeeds in any case.\<close>

inductive store_step :: "runtime_ctx_t \<Rightarrow> string multiset \<Rightarrow> store_op \<times> int \<Rightarrow> string multiset \<Rightarrow> bool" for ctx where
  mounted: "store_step ctx M (St_mount img ident mp n, CR_OK) (add_mset (overlay_dir ctx ident ''/merged'') M)"
| not_mounted: "store_step ctx M (St_mount img ident mp n, CR_ESYSCALL) M"
| unmounted: "M' \<in> {M, M - {#mp#}} \<Longrightarrow> store_step ctx M (St_unmount mp, CR_OK) M'"
| not_unmounted: "store_step ctx M (St_unmount mp, CR_ESYSCALL) M"
| removed: "M' \<in> {M, M - {#overlay_dir ctx ident ''/merged''#}} \<Longrightarrow> store_step ctx M (St_remove ident, CR_OK) M'"
| other: "target ctx a = None \<Longrightarrow> store_step ctx M (a, rc) M"

section \<open>The operations implement the machine\<close>

lemma overlay_mkdir_parents: "overlay_table (snd (mkdir_parents K mode before rest s)) = overlay_table s"
  by (induction rest arbitrary: before s) (auto simp: Let_def split_beta)

lemma overlay_mkdir_recursive: "mkdir_recursive K path mode s = Some (rc, t) \<Longrightarrow> overlay_table t = overlay_table s"
  using overlay_mkdir_parents [of K mode] by (auto simp: mkdir_recursive_def Let_def split_beta split: if_splits) (metis snd_conv)+

lemma overlay_directory_size [simp]: "overlay_table (snd (get_directory_size K path s)) = overlay_table s"
  by (simp add: get_directory_size_def Let_def split_beta)

lemma overlay_count_layers: "count_layers K dir path n acc s = Some (n', acc', t) \<Longrightarrow> overlay_table t = overlay_table s"
proof -
  let ?P = "\<lambda>K (dir :: int) (path :: string) (n :: nat) (acc :: 64 word) s (r :: nat \<times> 64 word \<times> 'a st).
    overlay_table (snd (snd r)) = overlay_table s"
  assume c: "count_layers K dir path n acc s = Some (n', acc', t)"
  have "?P K dir path n acc s (n', acc', t)"
    by (rule count_layers.raw_induct [where P = ?P, OF _ c]) (auto simp: Let_def split_beta split: if_splits)
  then show ?thesis by simp
qed

lemmas overlay_keeps = overlay_mkdir_recursive overlay_count_layers

lemma run_store_other:
  assumes "target ctx a = None" and "run_store K ctx a s = Some (rc, t)"
  shows "overlay_table t = overlay_table s"
  using assms
  by (cases a) (auto simp: code_only_def storage_init_def storage_create_layer_def storage_create_diff_layer_def
      storage_export_layer_def storage_import_layer_def storage_commit_container_def storage_get_stats_def
      Let_def split_beta bind_eq_Some_conv dest!: overlay_keeps split: if_splits)

lemma run_store_mount:
  assumes "run_store K ctx (St_mount img ident mp n) s = Some (rc, t)"
  shows "rc = CR_OK \<and> overlay_table t = add_mset (overlay_dir ctx ident ''/merged'') (overlay_table s) \<or>
    rc = CR_ESYSCALL \<and> overlay_table t = overlay_table s"
  using assms by (auto simp: code_only_def storage_mount_overlay_def Let_def split_beta bind_eq_Some_conv
      dest!: overlay_keeps split: if_splits)

lemma run_store_unmount:
  assumes "storage_unmount_overlay K mp s = (rc, t)"
  shows "overlay_table t \<in> {overlay_table s, overlay_table s - {#mp#}} \<and> (rc \<noteq> CR_OK \<longrightarrow> overlay_table t = overlay_table s) \<and>
    rc \<in> {CR_OK, CR_ESYSCALL}"
  using assms by (auto simp: storage_unmount_overlay_def Let_def split_beta split: if_splits)

lemma run_store_remove:
  "overlay_table (snd (storage_remove_overlay K ctx ident s)) \<in>
     {overlay_table s, overlay_table s - {#overlay_dir ctx ident ''/merged''#}} \<and>
   fst (storage_remove_overlay K ctx ident s) = CR_OK"
proof -
  obtain rc u where u: "storage_unmount_overlay K (overlay_dir ctx ident ''/merged'') s = (rc, u)" by force
  show ?thesis using run_store_unmount [OF u] by (simp add: storage_remove_overlay_def Let_def split_beta u)
qed

lemma run_store_step:
  assumes "run_store K ctx a s = Some (rc, t)"
  shows "store_step ctx (overlay_table s) (a, rc) (overlay_table t)"
proof (cases a)
  case (St_mount img ident mp n)
  with run_store_mount [of K ctx img ident mp n s rc t] assms show ?thesis by (auto intro: store_step.intros)
next
  case (St_unmount mp)
  with run_store_unmount [of K mp s rc t] assms show ?thesis
    by (cases "rc = CR_OK") (auto intro: store_step.intros)
next
  case (St_remove ident)
  with run_store_remove [of K ctx ident s] assms show ?thesis by (auto intro: store_step.intros)
qed (use run_store_other [OF _ assms] in \<open>auto intro: store_step.other\<close>)

lemma run_store_frame:
  assumes "run_store K ctx a s = Some (rc, t)"
  shows "frame s t"
proof -
  have "lib_step K s t"
    using assms by (cases a) (auto simp: code_only_def intro: lib_step.intros; metis lib_step.intros snd_conv)+
  then show ?thesis by (rule keeps_frame [OF lib_step_keeps])
qed

interpretation store: simulation "run_store K ctx" "store_step ctx" overlay_table "\<lambda>_. True" for K :: "'k kernel" and ctx
  by unfold_locales (simp add: run_store_step run_store_frame)

section \<open>Mount points\<close>

definition mounts_at :: "runtime_ctx_t \<Rightarrow> string \<Rightarrow> store_op \<times> int \<Rightarrow> bool" where
  "mounts_at ctx p l = (case l of (St_mount img ident mp n, rc) \<Rightarrow> rc = CR_OK \<and> overlay_dir ctx ident ''/merged'' = p | _ \<Rightarrow> False)"

fun unmounts_at :: "runtime_ctx_t \<Rightarrow> string \<Rightarrow> store_op \<Rightarrow> bool" where
  "unmounts_at ctx p (St_unmount mp) = (mp = p)"
| "unmounts_at ctx p (St_remove ident) = (overlay_dir ctx ident ''/merged'' = p)"
| "unmounts_at ctx p a = False"

lemma store_step_count:
  assumes "store_step ctx M l M'" and "\<not> unmounts_at ctx p (fst l)"
  shows "count M' p = count M p + (if mounts_at ctx p l then 1 else 0)"
  using assms by cases (auto simp: mounts_at_def CR_OK_def CR_ESYSCALL_def split: store_op.splits)

lemma store_run_count:
  "machine_run (store_step ctx) M ls M' \<Longrightarrow> \<forall>l \<in> set ls. \<not> unmounts_at ctx p (fst l) \<Longrightarrow>
   count M' p = count M p + length (filter (mounts_at ctx p) ls)"
  by (induction rule: machine_run.induct) (simp_all add: store_step_count)

text \<open>C5. Any sequence of operations of the storage driver implements the machine of the mounted
  overlays: it mounts an overlay exactly when \<^verbatim>\<open>storage_mount_overlay\<close> reports \<^verbatim>\<open>CR_OK\<close>, on the merged
  directory of the container, and detaches only what \<^verbatim>\<open>storage_unmount_overlay\<close> or
  \<^verbatim>\<open>storage_remove_overlay\<close> are asked to. So a mount point that the sequence does not unmount has as many
  overlays more as mounts on it were reported to have succeeded, and no other operation mounts or
  unmounts anything.\<close>

theorem overlays_accounted:
  assumes "run_all (run_store K ctx) as s = Some (rcs, t)"
  shows "machine_run (store_step ctx) (overlay_table s) (zip as rcs) (overlay_table t) \<and> frame s t \<and>
    (\<forall>p. (\<forall>a \<in> set as. \<not> unmounts_at ctx p a) \<longrightarrow>
       count (overlay_table t) p = count (overlay_table s) p + length (filter (mounts_at ctx p) (zip as rcs)))"
proof -
  have "machine_run (store_step ctx) (overlay_table s) (zip as rcs) (overlay_table t) \<and> frame s t"
    using store.run_simulates [OF assms] by simp
  then show ?thesis by (auto intro!: store_run_count elim: in_set_zipE)
qed

lemma mount_two_layers:
  "\<exists>t. run_store (scripted (\<lambda>_. answer 0 [])) main_ctx (St_mount two_layers ''c1'' (uninit 64) 64) st0 = Some (CR_OK, t)"
proof -
  let ?K = "scripted (\<lambda>_. answer 0 [])" and ?dir = "overlay_dir main_ctx ''c1''"
  obtain c1 c2 c3 s1 s2 s3 es where m: "mkdir_recursive ?K (?dir ''/upper'') 493 st0 = Some (c1, s1)"
    "mkdir_recursive ?K (?dir ''/work'') 493 s1 = Some (c2, s2)" "mkdir_recursive ?K (?dir ''/merged'') 493 s2 = Some (c3, s3)"
    "frame st0 s3" "effects s3 = effects st0 @ es" "list_all is_mkdir (map fst es)"
    by (rule mkdir_thrice_ignored [OF overlay_dir_nonempty overlay_dir_nonempty overlay_dir_nonempty])
  have lower: "build_lowerdir (im_layers two_layers) (nat (sint (im_num_layers two_layers))) [] = Some ''/b:/a''"
    by (simp add: two_layers_def lower_append_def MAX_PATH_LEN_def numeral_2_eq_2)
  obtain b where b: "c_strncpy (uninit 64) (?dir ''/merged'') 64 = Some b"
    using c_strncpy_short [of "?dir ''/merged''" 64 "uninit 64"] by (auto simp: overlay_dir_main is_cstr_def uninit_def)
  show ?thesis
    unfolding run_store.simps code_only_def storage_mount_overlay_def Let_def m(1-3) lower b bind.bind_lunit prod.case
    by (simp add: sys_scripted answer_def)
qed

theorem overlays_accounted_witness:
  "\<exists>rcs t. run_all (run_store (scripted (\<lambda>_. answer 0 [])) main_ctx)
      [St_mount two_layers ''c1'' (uninit 64) 64, St_export ''/a'' ''/b''] st0 = Some (rcs, t) \<and>
    count (overlay_table t) ''/img/overlay/c1/merged'' = 1"
proof -
  let ?K = "scripted (\<lambda>_. answer 0 []) :: unit kernel" and ?m = "St_mount two_layers ''c1'' (uninit 64) 64"
  obtain t1 where 1: "run_store ?K main_ctx ?m st0 = Some (CR_OK, t1)" using mount_two_layers by blast
  obtain rc t where "storage_export_layer ?K ''/a'' ''/b'' t1 = (rc, t)" by force
  then have 2: "run_store ?K main_ctx (St_export ''/a'' ''/b'') t1 = Some (rc, t)" by simp
  from 1 2 have r: "run_all (run_store ?K main_ctx) [?m, St_export ''/a'' ''/b''] st0 = Some ([CR_OK, rc], t)" by simp
  have "overlay_table st0 = {#}" by (simp add: overlay_table_def effects_def st0_def)
  with overlays_accounted [OF r] r show ?thesis by (simp add: mounts_at_def overlay_dir_main)
qed

end
