(* ===== verification/Files.thy ===== *)
theory Files
  imports Utils
begin

text \<open>
  What \<^verbatim>\<open>write_file\<close> and \<^verbatim>\<open>read_file\<close> of \<^verbatim>\<open>src/utils/utils.c\<close> do together, on a system with regular
  files. The system stays a parameter: a predicate relates each stdio request and its answer to
  the contents of the files and the positions of the streams before and after it, as the C
  standard describes them, and leaves every request that may fail free to fail.
\<close>

section \<open>Regular files\<close>

text \<open>The contents of the files by path, and the open streams with their path and position.\<close>

record fs =
  contents :: "string \<Rightarrow> string option"
  streams :: "int \<Rightarrow> (string \<times> nat) option"

text \<open>A request on a stream, as a relation of the path, the contents and the position.\<close>

definition on_stream :: "int \<Rightarrow> fs \<Rightarrow> (string \<Rightarrow> string \<Rightarrow> nat \<Rightarrow> bool) \<Rightarrow> bool" where
  "on_stream f v P =
     (case streams v f of
        None \<Rightarrow> True
      | Some (p, i) \<Rightarrow> (case contents v p of None \<Rightarrow> True | Some c \<Rightarrow> P p c i))"

definition seek :: "int \<Rightarrow> string \<Rightarrow> nat \<Rightarrow> fs \<Rightarrow> fs" where
  "seek f p i v = v\<lparr>streams := (streams v)(f \<mapsto> (p, i))\<rparr>"

text \<open>Overwriting a text at a position.\<close>

definition overwrite :: "string \<Rightarrow> nat \<Rightarrow> string \<Rightarrow> string" where
  "overwrite c i d = take i c @ d @ drop (i + length d) c"

fun fs_step :: "sysreq \<Rightarrow> sysres \<Rightarrow> fs \<Rightarrow> fs \<Rightarrow> bool" where
  "fs_step (Sys_fopen p m) r v v' =
     (if ret r < 0 then v' = v
      else if m = ''w'' then v' = seek (ret r) p 0 (v\<lparr>contents := (contents v)(p \<mapsto> [])\<rparr>)
      else m = ''r'' \<longrightarrow> contents v p \<noteq> None \<and> v' = seek (ret r) p 0 v)"
| "fs_step (Sys_fputs f d) r v v' = on_stream f v (\<lambda>p c i. 0 \<le> ret r \<longrightarrow>
     v' = seek f p (i + length d) (v\<lparr>contents := (contents v)(p \<mapsto> overwrite c i d)\<rparr>))"
| "fs_step (Sys_fclose f) r v v' = (ret r = 0 \<longrightarrow> v' = v\<lparr>streams := (streams v)(f := None)\<rparr>)"
| "fs_step (Sys_fseek_end f) r v v' = on_stream f v (\<lambda>p c i. v' = seek f p (length c) v)"
| "fs_step (Sys_fseek_set f) r v v' = on_stream f v (\<lambda>p c i. v' = seek f p 0 v)"
| "fs_step (Sys_ftell f) r v v' = on_stream f v (\<lambda>p c i. ret r = int i \<and> v' = v)"
| "fs_step (Sys_fread f n) r v v' = on_stream f v (\<lambda>p c i. dat r = take n (drop i c) \<and>
     v' = seek f p (i + length (dat r)) v)"
| "fs_step (Sys_malloc n) r v v' = (v' = v)"
| "fs_step q r v v' = True"

definition plain_files :: "'k kernel \<Rightarrow> ('k \<Rightarrow> fs) \<Rightarrow> bool" where
  "plain_files K view \<longleftrightarrow> (\<forall>q k. fs_step q (fst (kcall K q k)) (view k) (view (snd (kcall K q k))))"

lemma plain_sys: "plain_files K view \<Longrightarrow> sys K q s = (r, t) \<Longrightarrow> fs_step q r (view (kst s)) (view (kst t))"
  by (auto simp: plain_files_def sys_def split: prod.splits) (metis fst_conv snd_conv)

lemma seek_simps [simp]: "contents (seek f p i v) = contents v" "streams (seek f p i v) f = Some (p, i)"
  by (simp_all add: seek_def)

lemma on_stream_at: "streams v f = Some (p, i) \<Longrightarrow> contents v p = Some c \<Longrightarrow> on_stream f v P = P p c i"
  by (simp add: on_stream_def)

section \<open>Writing and reading back\<close>

text \<open>After a write whose two unchecked results are good, the file holds the text.\<close>

lemma write_file_stores:
  assumes "plain_files K view" and "write_file K path content s = (CR_OK, t)"
    and "effects t = effects s @ [e, (q, w), (q', c)]" and "0 \<le> ret w" and "ret c = 0"
  shows "contents (view (kst t)) path = Some content"
proof -
  obtain f s1 where 1: "sys K (Sys_fopen path ''w'') s = (f, s1)" by force
  obtain w' s2 where 2: "sys K (Sys_fputs (ret f) content) s1 = (w', s2)" by force
  obtain c' s3 where 3: "sys K (Sys_fclose (ret f)) s2 = (c', s3)" by force
  have f: "0 \<le> ret f" and t: "t = s3"
    using assms(2) by (auto simp: write_file_def 1 2 3 split: if_splits)
  have "w' = w" "c' = c"
    using assms(3) effects_sys [OF 1] effects_sys [OF 2] effects_sys [OF 3] by (simp_all add: t)
  with assms(4,5) f plain_sys [OF assms(1) 1] plain_sys [OF assms(1) 2] plain_sys [OF assms(1) 3]
  show ?thesis by (simp add: t on_stream_def overwrite_def)
qed

text \<open>Reading a file that holds a text: the text, or no memory or no stream.\<close>

lemma read_file_returns:
  assumes "plain_files K view" and "contents (view (kst s)) path = Some content"
    and "is_cstr content" and "int (length content) < INT64_MAX"
  shows "\<exists>b t es. read_file K path s = Some (b, t) \<and> effects t = effects s @ es \<and>
    (case b of
       None \<Rightarrow> \<exists>(q, r) \<in> set es. ret r < 0 \<and> (q = Sys_fopen path ''r'' \<or> q = Sys_malloc (length content + 1))
     | Some buf \<Rightarrow> length buf = length content + 1 \<and> cbuf_str buf = Some content)"
proof -
  note P = plain_sys [OF assms(1)]
  obtain f s1 where 1: "sys K (Sys_fopen path ''r'') s = (f, s1)" by force
  show ?thesis
  proof (cases "ret f < 0")
    case True
    with effects_sys [OF 1] show ?thesis by (simp add: read_file_def 1)
  next
    case False
    with P [OF 1] assms(2) have v1: "streams (view (kst s1)) (ret f) = Some (path, 0)" "contents (view (kst s1)) path = Some content"
      by simp_all
    obtain a s2 where 2: "sys K (Sys_fseek_end (ret f)) s1 = (a, s2)" by force
    from P [OF 2] v1 have v2: "streams (view (kst s2)) (ret f) = Some (path, length content)" "contents (view (kst s2)) path = Some content"
      by (simp_all add: on_stream_at)
    obtain z s3 where 3: "sys K (Sys_ftell (ret f)) s2 = (z, s3)" by force
    from P [OF 3] v2 have z: "ret z = int (length content)" and v3: "view (kst s3) = view (kst s2)"
      by (simp_all add: on_stream_at)
    obtain b s4 where 4: "sys K (Sys_fseek_set (ret f)) s3 = (b, s4)" by force
    from P [OF 4] v2 have v4: "streams (view (kst s4)) (ret f) = Some (path, 0)" "contents (view (kst s4)) path = Some content"
      by (simp_all add: on_stream_at v3)
    obtain m s5 where 5: "sys K (Sys_malloc (Suc (length content))) s4 = (m, s5)" by force
    have size: "in_int64 (int (length content) + 1)" "nat (int (length content) + 1) = Suc (length content)" "nat ((int (length content) + 1) mod 2 ^ 64) = Suc (length content)"
      using assms(4) by (simp_all add: in_int64_def INT64_MIN_def INT64_MAX_def nat_add_distrib)
    note e = effects_sys [OF 1] effects_sys [OF 2] effects_sys [OF 3] effects_sys [OF 4] effects_sys [OF 5]
    obtain d s6 where 6: "sys K (Sys_fread (ret f) (length content)) s5 = (d, s6)" by force
    have d: "dat d = content" using P [OF 5] P [OF 6] v4 by (simp add: on_stream_at)
    obtain x s7 where 7: "sys K (Sys_fclose (ret f)) (if ret m < 0 then s5 else s6) = (x, s7)" by force
    have "read_file K path s = Some (if ret m < 0 then None else Some (of_lit content), s7)"
      using False size 7 by (simp add: read_file_def 1 2 3 4 z 5 6 d of_lit_def split: if_splits)
    with e effects_sys [OF 6] effects_sys [OF 7] assms(3) show ?thesis by (auto simp: of_lit_def)
  qed
qed

text \<open>C16. What \<^verbatim>\<open>write_file\<close> has written, \<^verbatim>\<open>read_file\<close> reads back: on a system with regular files, after a
  write whose \<^verbatim>\<open>fputs\<close> and \<^verbatim>\<open>fclose\<close> went well (the function does not look at their results), reading
  the same path has no undefined behaviour and returns a buffer of exactly the size of the text
  and its terminator that holds the text; it returns NULL only when the file could not be opened
  or the memory not be allocated.\<close>

theorem write_then_read:
  assumes "plain_files K view" and "write_file K path content s = (CR_OK, t)"
    and "effects t = effects s @ [e, (q, w), (q', c)]" and "0 \<le> ret w" and "ret c = 0"
    and "is_cstr content" and "int (length content) < INT64_MAX"
  shows "\<exists>b u es. read_file K path t = Some (b, u) \<and> effects u = effects t @ es \<and>
    (case b of
       None \<Rightarrow> \<exists>(q, r) \<in> set es. ret r < 0 \<and> (q = Sys_fopen path ''r'' \<or> q = Sys_malloc (length content + 1))
     | Some buf \<Rightarrow> length buf = length content + 1 \<and> cbuf_str buf = Some content)"
  using read_file_returns [OF assms(1) write_file_stores [OF assms(1-5)] assms(6,7)] .

section \<open>An instance\<close>

text \<open>A system that keeps its files in memory and has one stream.\<close>

definition ramdisk :: "fs kernel" where
  "ramdisk = \<lparr>kcall = (\<lambda>q v. case q of
       Sys_fopen p m \<Rightarrow>
         if m = ''w'' then (answer 3 [], seek 3 p 0 (v\<lparr>contents := (contents v)(p \<mapsto> [])\<rparr>))
         else if m = ''r'' \<and> contents v p = None then (failure 2, v) else (answer 3 [], seek 3 p 0 v)
     | Sys_fputs f d \<Rightarrow> (case streams v f of
         Some (p, i) \<Rightarrow> (answer 0 [], seek f p (i + length d) (v\<lparr>contents := (contents v)(p \<mapsto> overwrite (the (contents v p)) i d)\<rparr>))
       | None \<Rightarrow> (failure 9, v))
     | Sys_fclose f \<Rightarrow> (answer 0 [], v\<lparr>streams := (streams v)(f := None)\<rparr>)
     | Sys_fseek_end f \<Rightarrow> (case streams v f of
         Some (p, i) \<Rightarrow> (answer 0 [], seek f p (length (the (contents v p))) v) | None \<Rightarrow> (failure 9, v))
     | Sys_fseek_set f \<Rightarrow> (case streams v f of Some (p, i) \<Rightarrow> (answer 0 [], seek f p 0 v) | None \<Rightarrow> (failure 9, v))
     | Sys_ftell f \<Rightarrow> (case streams v f of Some (p, i) \<Rightarrow> (answer (int i) [], v) | None \<Rightarrow> (failure 9, v))
     | Sys_fread f n \<Rightarrow> (case streams v f of
         Some (p, i) \<Rightarrow> (let d = take n (drop i (the (contents v p))) in (answer (int (length d)) d, seek f p (i + length d) v))
       | None \<Rightarrow> (failure 9, v))
     | _ \<Rightarrow> (answer 0 [], v)),
     kstrerror = (\<lambda>_. ''error''), klocaltime = klocaltime (scripted (\<lambda>_. answer 0 [])), krand = (\<lambda>_ _. 0)\<rparr>"

definition empty_disk :: "fs st" where
  "empty_disk = \<lparr>kst = \<lparr>contents = (\<lambda>_. None), streams = (\<lambda>_. None)\<rparr>, trace = [], log_level = LOG_INFO, errno = 0,
     std_out = [], err_out = [], exit_code = None, rng = (1, 0), api = []\<rparr>"

lemma ramdisk_plain: "plain_files ramdisk (\<lambda>v. v)"
  unfolding plain_files_def
proof (intro allI)
  fix q v
  show "fs_step q (fst (kcall ramdisk q v)) v (snd (kcall ramdisk q v))"
    by (cases q) (auto simp: ramdisk_def answer_def failure_def on_stream_def Let_def split: option.splits prod.splits)
qed

theorem write_then_read_witness:
  "\<exists>t b u. write_file ramdisk ''/a'' ''hi'' empty_disk = (CR_OK, t) \<and> read_file ramdisk ''/a'' t = Some (b, u) \<and>
    (case b of None \<Rightarrow> True | Some buf \<Rightarrow> cbuf_str buf = Some ''hi'')"
proof -
  obtain t where t: "write_file ramdisk ''/a'' ''hi'' empty_disk = (CR_OK, t)"
    and e: "effects t = effects empty_disk @ [(Sys_fopen ''/a'' ''w'', answer 3 []), (Sys_fputs 3 ''hi'', answer 0 []),
      (Sys_fclose 3, answer 0 [])]"
    by (simp add: write_file_def sys_def ramdisk_def answer_def effects_def empty_disk_def)
  from write_then_read [OF ramdisk_plain t e] show ?thesis
    using t by (auto simp: answer_def is_cstr_def INT64_MAX_def split: option.splits)
qed

end
