(* ===== verification/Getopt.thy ===== *)
theory Getopt
  imports Utils
begin

text \<open>
  \<^verbatim>\<open>getopt_long\<close> of the C library (glibc), as far as \<^verbatim>\<open>src/main.c\<close> uses it. Its static variables are
  the record \<open>getopt_t\<close>, next to \<^verbatim>\<open>argv\<close>, which it may permute. The first call of the program is
  made by \<^verbatim>\<open>main\<close> with an option string that begins with a plus sign: it fixes the ordering
  REQUIRE_ORDER, which no later call changes, so that an argument that is no option ends the
  scan in \<^verbatim>\<open>cmd_run\<close> as well. The option strings use neither optional arguments nor \<^verbatim>\<open>W;\<close>.

  A pointer into an argument is the index of the argument and an offset. The result of a call is
  the character it returns, \<open>None\<close> for -1, and the index of the long option it has found.
\<close>

section \<open>State\<close>

type_synonym ptr = "nat \<times> nat"

text \<open>\<^verbatim>\<open>struct option\<close> with \<^verbatim>\<open>flag\<close> NULL.\<close>

record option_t =
  lo_name :: string
  has_arg :: bool
  lo_val :: char

record getopt_t =
  argv :: "string list"
  optind :: nat
  optarg :: "ptr option"
  nextchar :: "ptr option"
  first_nonopt :: nat
  last_nonopt :: nat

definition getopt0 :: "string list \<Rightarrow> getopt_t" where
  "getopt0 args = \<lparr>argv = args, optind = 1, optarg = None, nextchar = None, first_nonopt = 1, last_nonopt = 1\<rparr>"

definition argc :: "getopt_t \<Rightarrow> nat" where
  "argc g = length (argv g)"

definition deref :: "getopt_t \<Rightarrow> ptr \<Rightarrow> string" where
  "deref g p = drop (snd p) (argv g ! fst p)"

definition eprint :: "string \<Rightarrow> 'k st \<Rightarrow> 'k st" where
  "eprint msg s = s\<lparr>err_out := err_out s @ msg\<rparr>"

section \<open>The scan\<close>

text \<open>The arguments between \<^verbatim>\<open>first_nonopt\<close> and \<^verbatim>\<open>last_nonopt\<close> change places with those from there to
  \<^verbatim>\<open>optind\<close>.\<close>

definition exchange :: "getopt_t \<Rightarrow> getopt_t" where
  "exchange g = g\<lparr>
     argv := take (first_nonopt g) (argv g) @ drop (last_nonopt g) (take (optind g) (argv g)) @
       drop (first_nonopt g) (take (last_nonopt g) (argv g)) @ drop (optind g) (argv g),
     first_nonopt := first_nonopt g + (optind g - last_nonopt g),
     last_nonopt := optind g\<rparr>"

text \<open>The argument \<^verbatim>\<open>--\<close> ends the options.\<close>

definition skip_dashes :: "getopt_t \<Rightarrow> getopt_t" where
  "skip_dashes g =
     (let g = g\<lparr>optind := Suc (optind g)\<rparr>;
          g = (if first_nonopt g \<noteq> last_nonopt g \<and> last_nonopt g \<noteq> optind g then exchange g
               else if first_nonopt g = last_nonopt g then g\<lparr>first_nonopt := optind g\<rparr>
               else g)
      in g\<lparr>last_nonopt := argc g, optind := argc g\<rparr>)"

definition is_nonoption :: "string \<Rightarrow> bool" where
  "is_nonoption a \<longleftrightarrow> take 1 a \<noteq> ''-'' \<or> length a = 1"

text \<open>The long option a name stands for: the one of that name, or the first that it abbreviates, if
  it abbreviates none with another argument or value (then \<open>Inl\<close> lists the possibilities).\<close>

definition find_long :: "string \<Rightarrow> option_t list \<Rightarrow> nat list + nat option" where
  "find_long name opts =
     (case filter (\<lambda>i. lo_name (opts ! i) = name) [0..<length opts] of
        i # _ \<Rightarrow> Inr (Some i)
      | [] \<Rightarrow>
        (case filter (\<lambda>i. prefix name (lo_name (opts ! i))) [0..<length opts] of
           [] \<Rightarrow> Inr None
         | i # js \<Rightarrow>
           (case filter (\<lambda>j. has_arg (opts ! i) \<noteq> has_arg (opts ! j) \<or> lo_val (opts ! i) \<noteq> lo_val (opts ! j)) js of
              [] \<Rightarrow> Inr (Some i)
            | bad \<Rightarrow> Inl (i # bad))))"

text \<open>The messages; \<open>CHR 39\<close> is the quotation mark.\<close>

definition quoted :: "string \<Rightarrow> string" where
  "quoted str = [CHR 39] @ str @ [CHR 39]"

definition msg_ambiguous :: "string \<Rightarrow> string \<Rightarrow> string list \<Rightarrow> string" where
  "msg_ambiguous prog arg names = prog @ '': option '' @ quoted (''--'' @ arg) @ '' is ambiguous; possibilities:'' @
     concat (map (\<lambda>n. '' '' @ quoted (''--'' @ n)) names) @ [CHR 0x0A]"

definition msg_unrecognized :: "string \<Rightarrow> string \<Rightarrow> string" where
  "msg_unrecognized prog arg = prog @ '': unrecognized option '' @ quoted (''--'' @ arg) @ [CHR 0x0A]"

definition msg_no_argument :: "string \<Rightarrow> string \<Rightarrow> string" where
  "msg_no_argument prog name = prog @ '': option '' @ quoted (''--'' @ name) @ '' doesn'' @ [CHR 39] @
     ''t allow an argument'' @ [CHR 0x0A]"

definition msg_argument :: "string \<Rightarrow> string \<Rightarrow> string" where
  "msg_argument prog name = prog @ '': option '' @ quoted (''--'' @ name) @ '' requires an argument'' @ [CHR 0x0A]"

definition msg_invalid :: "string \<Rightarrow> char \<Rightarrow> string" where
  "msg_invalid prog c = prog @ '': invalid option -- '' @ quoted [c] @ [CHR 0x0A]"

definition msg_argument_short :: "string \<Rightarrow> char \<Rightarrow> string" where
  "msg_argument_short prog c = prog @ '': option requires an argument -- '' @ quoted [c] @ [CHR 0x0A]"

definition long_option ::
  "option_t list \<Rightarrow> nat \<Rightarrow> getopt_t \<Rightarrow> 'k st \<Rightarrow> char option \<times> nat \<times> getopt_t \<times> 'k st" where
  "long_option opts ind g s =
     (let arg = drop 2 (argv g ! optind g);
          name = takeWhile (\<lambda>c. c \<noteq> CHR ''='') arg;
          rest = dropWhile (\<lambda>c. c \<noteq> CHR ''='') arg;
          prog = argv g ! 0;
          g' = g\<lparr>optind := Suc (optind g), nextchar := None\<rparr>
      in case find_long name opts of
        Inl poss \<Rightarrow> (Some CHR ''?'', ind,
          g\<lparr>optind := Suc (optind g), nextchar := Some (optind g, length (argv g ! optind g))\<rparr>,
          eprint (msg_ambiguous prog arg (map (\<lambda>i. lo_name (opts ! i)) poss)) s)
      | Inr None \<Rightarrow> (Some CHR ''?'', ind, g',
          eprint (msg_unrecognized prog arg) s)
      | Inr (Some i) \<Rightarrow>
          if rest \<noteq> [] then
            if has_arg (opts ! i) then
              (Some (lo_val (opts ! i)), i, g'\<lparr>optarg := Some (optind g, 2 + length name + 1)\<rparr>, s)
            else (Some CHR ''?'', ind, g', eprint (msg_no_argument prog (lo_name (opts ! i))) s)
          else if has_arg (opts ! i) then
            if optind g' < argc g' then
              (Some (lo_val (opts ! i)), i, g'\<lparr>optarg := Some (optind g', 0), optind := Suc (optind g')\<rparr>, s)
            else (Some CHR ''?'', ind, g', eprint (msg_argument prog (lo_name (opts ! i))) s)
          else (Some (lo_val (opts ! i)), i, g', s))"

text \<open>The character at \<open>p\<close>, inside the argument it points into.\<close>

definition short_option ::
  "string \<Rightarrow> nat \<Rightarrow> ptr \<Rightarrow> getopt_t \<Rightarrow> 'k st \<Rightarrow> char option \<times> nat \<times> getopt_t \<times> 'k st" where
  "short_option optstring ind p g s =
     (let c = hd (deref g p);
          p = (fst p, Suc (snd p));
          g = g\<lparr>nextchar := Some p\<rparr>;
          g = (if deref g p = [] then g\<lparr>optind := Suc (optind g)\<rparr> else g);
          prog = argv g ! 0
      in case strchr_split c optstring of
        None \<Rightarrow> (Some CHR ''?'', ind, g, eprint (msg_invalid prog c) s)
      | Some (_, rest) \<Rightarrow>
          if c = CHR '':'' \<or> c = CHR '';'' then
            (Some CHR ''?'', ind, g, eprint (msg_invalid prog c) s)
          else if take 1 rest = '':'' then
            let g' = g\<lparr>nextchar := None\<rparr>
            in if deref g p \<noteq> [] then (Some c, ind, g'\<lparr>optarg := Some p, optind := Suc (optind g)\<rparr>, s)
               else if argc g \<le> optind g then
                 (Some CHR ''?'', ind, g', eprint (msg_argument_short prog c) s)
               else (Some c, ind, g'\<lparr>optarg := Some (optind g, 0), optind := Suc (optind g)\<rparr>, s)
          else (Some c, ind, g, s))"

text \<open>Whether the scan is inside an argument.\<close>

definition inside :: "getopt_t \<Rightarrow> bool" where
  "inside g \<longleftrightarrow> (case nextchar g of None \<Rightarrow> False | Some p \<Rightarrow> deref g p \<noteq> [])"

text \<open>At the end of an argument the scan goes to the next one, past \<^verbatim>\<open>--\<close> if that is it.\<close>

definition next_argument :: "getopt_t \<Rightarrow> getopt_t" where
  "next_argument g =
     (let g = g\<lparr>last_nonopt := min (last_nonopt g) (optind g), first_nonopt := min (first_nonopt g) (optind g)\<rparr>
      in if optind g < argc g \<and> argv g ! optind g = ''--'' then skip_dashes g else g)"

definition getopt_long ::
  "string \<Rightarrow> option_t list \<Rightarrow> nat \<Rightarrow> getopt_t \<Rightarrow> 'k st \<Rightarrow> char option \<times> nat \<times> getopt_t \<times> 'k st" where
  "getopt_long optstring opts ind g s =
     (if argc g < 1 then (None, ind, g, s)
      else
        let g = g\<lparr>optarg := None\<rparr>
        in if inside g then short_option optstring ind (the (nextchar g)) g s
        else
          let g = next_argument g
          in if argc g \<le> optind g then
               (None, ind, (if first_nonopt g \<noteq> last_nonopt g then g\<lparr>optind := first_nonopt g\<rparr> else g), s)
             else if is_nonoption (argv g ! optind g) then (None, ind, g, s)
             else if take 2 (argv g ! optind g) = ''--'' then long_option opts ind g s
             else short_option optstring ind (optind g, 1) g s)"

section \<open>Every option found is progress\<close>

definition getopt_left :: "getopt_t \<Rightarrow> nat" where
  "getopt_left g = argc g - optind g"

definition chars_left :: "getopt_t \<Rightarrow> nat" where
  "chars_left g = (if inside g then length (deref g (the (nextchar g)))
     else if optind g < argc g then Suc (length (argv g ! optind g)) else 0)"

definition getopt_less :: "(getopt_t \<times> getopt_t) set" where
  "getopt_less = measures [getopt_left, chars_left]"

lemma wf_getopt_less [simp]: "wf getopt_less"
  by (simp add: getopt_less_def)

lemma getopt_less_iff: "(g', g) \<in> getopt_less \<longleftrightarrow>
    getopt_left g' < getopt_left g \<or> (getopt_left g' = getopt_left g \<and> chars_left g' < chars_left g)"
  by (simp add: getopt_less_def)

lemma short_option_moves:
  assumes "short_option optstring ind p g s = (r, ind', g', s')" and "deref g p \<noteq> []"
  shows "argv g' = argv g" and "r \<noteq> None" and "optarg g' \<noteq> optarg g \<Longrightarrow> nextchar g' = None"
    and "optind g' = optind g \<and> nextchar g' = Some (fst p, Suc (snd p)) \<and> drop 1 (deref g p) \<noteq> [] \<or>
      optind g < optind g' \<and> (nextchar g' = None \<or> nextchar g' = Some (fst p, Suc (snd p)))"
  using assms
  by (auto simp: short_option_def Let_def argc_def deref_def split: option.splits if_splits)

lemma long_option_moves:
  assumes "long_option opts ind g s = (r, ind', g', s')"
  shows "argv g' = argv g" and "r \<noteq> None" and "optarg g' \<noteq> optarg g \<Longrightarrow> nextchar g' = None" and "optind g < optind g'"
  using assms by (auto simp: long_option_def Let_def split: option.splits if_splits sum.splits)

lemma next_argument_cases:
  "next_argument g = g\<lparr>last_nonopt := min (last_nonopt g) (optind g), first_nonopt := min (first_nonopt g) (optind g)\<rparr> \<or>
   optind (next_argument g) = argc (next_argument g)"
  by (auto simp: next_argument_def skip_dashes_def Let_def argc_def exchange_def)

text \<open>How a call that finds an option gets there: inside an argument, at a long option, or at the first
  character of an argument.\<close>

lemma getopt_long_cases:
  assumes "getopt_long optstring opts ind g s = (Some c, ind', g', s')"
  obtains (inside) "inside g" "short_option optstring ind (the (nextchar g)) (g\<lparr>optarg := None\<rparr>) s = (Some c, ind', g', s')"
  | (long) a b where "\<not> inside g" "optind g < argc g"
      "long_option opts ind (g\<lparr>optarg := None, last_nonopt := a, first_nonopt := b\<rparr>) s = (Some c, ind', g', s')"
  | (short) a b where "\<not> inside g" "optind g < argc g" "1 < length (argv g ! optind g)"
      "short_option optstring ind (optind g, 1) (g\<lparr>optarg := None, last_nonopt := a, first_nonopt := b\<rparr>) s = (Some c, ind', g', s')"
proof (cases "inside g")
  case True
  with assms show thesis
    by (intro inside) (auto simp: getopt_long_def Let_def inside_def deref_def split: if_splits option.splits)
next
  case False
  define g2 where "g2 = next_argument (g\<lparr>optarg := None\<rparr>)"
  from False have "\<not> inside (g\<lparr>optarg := None\<rparr>)" by (auto simp: inside_def deref_def split: option.splits)
  with assms have r: "(if argc g2 \<le> optind g2 then
               (None, ind, (if first_nonopt g2 \<noteq> last_nonopt g2 then g2\<lparr>optind := first_nonopt g2\<rparr> else g2), s)
             else if is_nonoption (argv g2 ! optind g2) then (None, ind, g2, s)
             else if take 2 (argv g2 ! optind g2) = ''--'' then long_option opts ind g2 s
             else short_option optstring ind (optind g2, 1) g2 s) = (Some c, ind', g', s')"
    unfolding getopt_long_def Let_def g2_def by (metis prod.inject option.distinct(1))
  then have lt2: "optind g2 < argc g2" by (auto split: if_splits)
  obtain a b where g2: "g2 = g\<lparr>optarg := None, last_nonopt := a, first_nonopt := b\<rparr>"
    using next_argument_cases [of "g\<lparr>optarg := None\<rparr>"] lt2 by (auto simp: g2_def)
  from lt2 have lt: "optind g < argc g" by (simp add: g2 argc_def)
  show thesis
  proof (cases "take 2 (argv g2 ! optind g2) = ''--''")
    case True
    with r False lt show thesis
      by (intro long) (auto simp: g2 argc_def split: if_splits)
  next
    case nl: False
    have "is_nonoption (argv g ! optind g) \<or> 1 < length (argv g ! optind g)"
      by (cases "argv g ! optind g") (auto simp: is_nonoption_def)
    with r False nl lt show thesis
      by (intro short) (auto simp: g2 argc_def split: if_splits)
  qed
qed

lemma getopt_long_moves:
  assumes "getopt_long optstring opts ind g s = (Some c, ind', g', s')"
  shows "argv g' = argv g" and "optarg g' \<noteq> None \<Longrightarrow> nextchar g' = None" and "(g', g) \<in> getopt_less"
proof -
  have "argv g' = argv g \<and> (optarg g' \<noteq> None \<longrightarrow> nextchar g' = None) \<and> (g', g) \<in> getopt_less"
    using assms
  proof (cases rule: getopt_long_cases)
    case inside
    from inside(1) obtain p where p: "nextchar g = Some p" "deref g p \<noteq> []" by (auto simp: inside_def split: option.splits)
    have ne: "deref (g\<lparr>optarg := None\<rparr>) (the (nextchar g)) \<noteq> []" using p by (simp add: deref_def)
    note m = short_option_moves [OF inside(2) ne]
    have "deref g' (fst p, Suc (snd p)) = drop 1 (deref g p)" using m(1) by (simp add: deref_def)
    with m inside(1) p show ?thesis
      by (auto simp: getopt_less_iff getopt_left_def chars_left_def inside_def argc_def deref_def)
  next
    case (long a b)
    note m = long_option_moves [OF long(3)]
    with long show ?thesis by (auto simp: getopt_less_iff getopt_left_def argc_def)
  next
    case (short a b)
    have ne: "deref (g\<lparr>optarg := None, last_nonopt := a, first_nonopt := b\<rparr>) (optind g, 1) \<noteq> []"
      using short(3) by (simp add: deref_def)
    note m = short_option_moves [OF short(4) ne]
    with short show ?thesis
      by (auto simp: getopt_less_iff getopt_left_def chars_left_def inside_def argc_def deref_def)
  qed
  then show "argv g' = argv g" and "optarg g' \<noteq> None \<Longrightarrow> nextchar g' = None" and "(g', g) \<in> getopt_less" by auto
qed

section \<open>What a call finds\<close>

text \<open>Between two arguments, with nothing skipped.\<close>

definition clean :: "getopt_t \<Rightarrow> bool" where
  "clean g \<longleftrightarrow> \<not> inside g \<and> first_nonopt g = last_nonopt g \<and> last_nonopt g \<le> optind g"

definition args_left :: "getopt_t \<Rightarrow> string list" where
  "args_left g = drop (optind g) (argv g)"

lemma args_left_Cons:
  "args_left g = a # r \<longleftrightarrow> optind g < argc g \<and> argv g ! optind g = a \<and> drop (Suc (optind g)) (argv g) = r"
  by (cases "optind g < argc g") (auto simp: args_left_def argc_def Cons_nth_drop_Suc [symmetric])

lemma args_left_Cons2:
  assumes "args_left g = a # v # r"
  shows "argv g ! optind g = a" "Suc (optind g) < length (argv g)" "argv g ! Suc (optind g) = v"
    "drop (Suc (Suc (optind g))) (argv g) = r"
proof -
  have a: "argv g ! optind g = a" "drop (Suc (optind g)) (argv g) = v # r"
    using assms by (simp_all add: args_left_Cons)
  then have "args_left (g\<lparr>optind := Suc (optind g)\<rparr>) = v # r" "argv g ! optind g = a"
    by (simp_all add: args_left_def)
  then show "argv g ! optind g = a" "Suc (optind g) < length (argv g)" "argv g ! Suc (optind g) = v"
    "drop (Suc (Suc (optind g))) (argv g) = r"
    by (simp_all add: args_left_Cons argc_def)
qed

lemma inside_optarg [simp]: "inside (g\<lparr>optarg := x\<rparr>) = inside g"
  by (simp add: inside_def deref_def split: option.split)

lemma inside_None [simp]: "nextchar g = None \<Longrightarrow> \<not> inside g"
  by (simp add: inside_def)

lemma args_left_Nil: "args_left g = [] \<longleftrightarrow> argc g \<le> optind g"
  by (simp add: args_left_def argc_def)

lemma next_argument_clean: "clean g \<Longrightarrow> args_left g = a # r \<Longrightarrow> a \<noteq> ''--'' \<Longrightarrow>
    next_argument (g\<lparr>optarg := None\<rparr>) = g\<lparr>optarg := None\<rparr>"
  by (simp add: next_argument_def clean_def args_left_Cons argc_def min_absorb1)

lemma getopt_long_at:
  assumes "clean g" and "args_left g = a # r" and "a \<noteq> ''--''"
  shows "getopt_long optstring opts ind g s =
    (if is_nonoption a then (None, ind, g\<lparr>optarg := None\<rparr>, s)
     else if take 2 a = ''--'' then long_option opts ind (g\<lparr>optarg := None\<rparr>) s
     else short_option optstring ind (optind g, 1) (g\<lparr>optarg := None\<rparr>) s)"
proof -
  have "\<not> inside (g\<lparr>optarg := None\<rparr>)" using assms(1) by (simp add: clean_def)
  moreover have "optind g < argc g" "argv g ! optind g = a" using assms(2) by (simp_all add: args_left_Cons)
  moreover have "\<not> argc g < 1" using assms(2) by (simp add: args_left_Cons)
  ultimately show ?thesis using next_argument_clean [OF assms]
    by (simp add: getopt_long_def Let_def argc_def)
qed

lemma getopt_long_stops:
  assumes "clean g" and "args_left g = a # r" and "is_nonoption a"
  shows "getopt_long optstring opts ind g s = (None, ind, g\<lparr>optarg := None\<rparr>, s)"
proof -
  have "a \<noteq> ''--''" using assms(3) by (auto simp: is_nonoption_def)
  with getopt_long_at [OF assms(1,2)] assms(3) show ?thesis by simp
qed

lemma getopt_long_exhausted:
  assumes "clean g" and "args_left g = []" and "0 < argc g"
  shows "getopt_long optstring opts ind g s = (None, ind, g\<lparr>optarg := None\<rparr>, s)"
proof -
  have "\<not> inside (g\<lparr>optarg := None\<rparr>)" using assms(1) by (simp add: clean_def)
  moreover have "next_argument (g\<lparr>optarg := None\<rparr>) = g\<lparr>optarg := None\<rparr>"
    using assms by (simp add: next_argument_def clean_def args_left_Nil argc_def min_absorb1)
  ultimately show ?thesis using assms by (simp add: getopt_long_def Let_def argc_def args_left_Nil clean_def)
qed

text \<open>The argument of an option, and where it stands: behind the name or as the next one.\<close>

definition finds :: "getopt_t \<Rightarrow> nat \<Rightarrow> string list \<Rightarrow> getopt_t \<Rightarrow> bool" where
  "finds g n r g' \<longleftrightarrow> clean g' \<and> argv g' = argv g \<and> optind g' = optind g + n \<and> args_left g' = r \<and>
     first_nonopt g' = first_nonopt g"

definition finds_arg :: "getopt_t \<Rightarrow> nat \<Rightarrow> string list \<Rightarrow> string \<Rightarrow> getopt_t \<Rightarrow> bool" where
  "finds_arg g n r v g' \<longleftrightarrow> finds g n r g' \<and>
     (\<exists>i k. optarg g' = Some (i, k) \<and> i < optind g' \<and> deref g' (i, k) = v)"

lemma long_name_split:
  "CHR ''='' \<notin> set name \<Longrightarrow> takeWhile (\<lambda>c. c \<noteq> CHR ''='') name = name"
  "CHR ''='' \<notin> set name \<Longrightarrow> dropWhile (\<lambda>c. c \<noteq> CHR ''='') name = []"
  by (auto intro: takeWhile_neq_self simp: dropWhile_eq_Nil_conv)

lemma append_Cons_not_Nil: "a @ c # b \<noteq> []"
  by simp

lemma not_dashes: "name \<noteq> [] \<Longrightarrow> ''--'' @ name \<noteq> ''--''" "\<not> is_nonoption (''--'' @ name)" "take 2 (''--'' @ name) = ''--''"
  by (auto simp: is_nonoption_def)

lemma getopt_long_separate:
  assumes "clean g" and "args_left g = (''--'' @ name) # v # r" and "name \<noteq> []" and "CHR ''='' \<notin> set name"
    and "find_long name opts = Inr (Some i)" and "has_arg (opts ! i)"
  obtains g' where "getopt_long optstring opts ind g s = (Some (lo_val (opts ! i)), i, g', s)" "finds_arg g 2 r v g'"
proof -
  let ?g = "g\<lparr>nextchar := None, optind := optind g + 2, optarg := Some (Suc (optind g), 0)\<rparr>"
  have a: "argv g ! optind g = ''--'' @ name" "optind g < argc g"
    and v: "Suc (optind g) < argc g" "argv g ! Suc (optind g) = v" "drop (Suc (Suc (optind g))) (argv g) = r"
    using args_left_Cons2 [OF assms(2)] by (simp_all add: argc_def)
  have "getopt_long optstring opts ind g s = (Some (lo_val (opts ! i)), i, ?g, s)"
    unfolding getopt_long_at [OF assms(1,2) not_dashes(1) [OF assms(3)]] long_option_def Let_def
    using not_dashes(2,3) [of name] v(1) assms(4-6) by (simp add: a long_name_split argc_def)
  moreover have "finds_arg g 2 r v ?g"
    using assms(1) v by (simp add: finds_arg_def finds_def clean_def args_left_def deref_def)
  ultimately show thesis by (rule that)
qed

lemma getopt_long_joined:
  assumes "clean g" and "args_left g = (''--'' @ name @ CHR ''='' # v) # r" and "CHR ''='' \<notin> set name"
    and "find_long name opts = Inr (Some i)" and "has_arg (opts ! i)"
  obtains g' where "getopt_long optstring opts ind g s = (Some (lo_val (opts ! i)), i, g', s)" "finds_arg g 1 r v g'"
proof -
  let ?g = "g\<lparr>nextchar := None, optind := Suc (optind g), optarg := Some (optind g, 2 + length name + 1)\<rparr>"
  have a: "argv g ! optind g = ''--'' @ name @ CHR ''='' # v" "optind g < argc g" "drop (Suc (optind g)) (argv g) = r"
    using assms(2) by (simp_all add: args_left_Cons)
  have "getopt_long optstring opts ind g s = (Some (lo_val (opts ! i)), i, ?g, s)"
    unfolding getopt_long_at [OF assms(1,2) not_dashes(1) [of "name @ CHR ''='' # v", OF append_Cons_not_Nil]] long_option_def Let_def
    using not_dashes(2,3) [of "name @ CHR ''='' # v"] assms(3-5) by (simp add: a argc_def)
  moreover have "finds_arg g 1 r v ?g"
    using assms(1) a(1,3) by (simp add: finds_arg_def finds_def clean_def args_left_def deref_def)
  ultimately show thesis by (rule that)
qed

lemma getopt_long_flag:
  assumes "clean g" and "args_left g = (''--'' @ name) # r" and "name \<noteq> []" and "CHR ''='' \<notin> set name"
    and "find_long name opts = Inr (Some i)" and "\<not> has_arg (opts ! i)"
  obtains g' where "getopt_long optstring opts ind g s = (Some (lo_val (opts ! i)), i, g', s)" "finds g 1 r g'" "optarg g' = None"
proof -
  let ?g = "g\<lparr>nextchar := None, optind := Suc (optind g), optarg := None\<rparr>"
  have a: "argv g ! optind g = ''--'' @ name" "optind g < argc g" "drop (Suc (optind g)) (argv g) = r"
    using assms(2) by (simp_all add: args_left_Cons)
  have "getopt_long optstring opts ind g s = (Some (lo_val (opts ! i)), i, ?g, s)"
    unfolding getopt_long_at [OF assms(1,2) not_dashes(1) [OF assms(3)]] long_option_def Let_def
    using not_dashes(2,3) [of name] assms(4-6) by (simp add: a long_name_split)
  moreover have "finds g 1 r ?g" using assms(1) a(3) by (simp add: finds_def clean_def args_left_def)
  ultimately show thesis by (rule that) simp
qed

lemma getopt_short_separate:
  assumes "clean g" and "args_left g = [CHR ''-'', c] # v # r" and "c \<noteq> CHR ''-''" and "c \<notin> {CHR '':'', CHR '';''}"
    and "strchr_split c optstring = Some (x, CHR '':'' # y)"
  obtains g' where "getopt_long optstring opts ind g s = (Some c, ind, g', s)" "finds_arg g 2 r v g'"
proof -
  let ?g = "g\<lparr>nextchar := None, optind := optind g + 2, optarg := Some (Suc (optind g), 0)\<rparr>"
  have a: "argv g ! optind g = [CHR ''-'', c]"
    and v: "Suc (optind g) < argc g" "argv g ! Suc (optind g) = v" "drop (Suc (Suc (optind g))) (argv g) = r"
    using args_left_Cons2 [OF assms(2)] by (simp_all add: argc_def)
  have "\<not> is_nonoption [CHR ''-'', c]" by (simp add: is_nonoption_def)
  then have "getopt_long optstring opts ind g s = (Some c, ind, ?g, s)"
    using getopt_long_at [OF assms(1,2), of optstring opts ind s] v(1) assms(3-5)
    by (simp add: short_option_def Let_def deref_def a argc_def)
  moreover have "finds_arg g 2 r v ?g"
    using assms(1) v by (simp add: finds_arg_def finds_def clean_def args_left_def deref_def)
  ultimately show thesis by (rule that)
qed

lemma getopt_short_joined:
  assumes "clean g" and "args_left g = (CHR ''-'' # c # v) # r" and "v \<noteq> []" and "c \<noteq> CHR ''-''"
    and "c \<notin> {CHR '':'', CHR '';''}" and "strchr_split c optstring = Some (x, CHR '':'' # y)"
  obtains g' where "getopt_long optstring opts ind g s = (Some c, ind, g', s)" "finds_arg g 1 r v g'"
proof -
  let ?g = "g\<lparr>nextchar := None, optind := Suc (optind g), optarg := Some (optind g, 2)\<rparr>"
  have a: "argv g ! optind g = CHR ''-'' # c # v" "drop (Suc (optind g)) (argv g) = r"
    using assms(2) by (simp_all add: args_left_Cons)
  have "\<not> is_nonoption (CHR ''-'' # c # v)" by (simp add: is_nonoption_def)
  then have "getopt_long optstring opts ind g s = (Some c, ind, ?g, s)"
    using getopt_long_at [OF assms(1,2), of optstring opts ind s] assms(3-6)
    by (simp add: short_option_def Let_def deref_def a numeral_2_eq_2)
  moreover have "finds_arg g 1 r v ?g"
    using assms(1) a by (simp add: finds_arg_def finds_def clean_def args_left_def deref_def)
  ultimately show thesis by (rule that)
qed

lemma getopt_short_flag:
  assumes "clean g" and "args_left g = [CHR ''-'', c] # r" and "c \<noteq> CHR ''-''" and "c \<notin> {CHR '':'', CHR '';''}"
    and "strchr_split c optstring = Some (x, y)" and "take 1 y \<noteq> '':''"
  obtains g' where "getopt_long optstring opts ind g s = (Some c, ind, g', s)" "clean g'" "args_left g' = r"
proof -
  let ?g = "g\<lparr>optind := Suc (optind g), optarg := None, nextchar := Some (optind g, 2)\<rparr>"
  have a: "argv g ! optind g = [CHR ''-'', c]" "drop (Suc (optind g)) (argv g) = r"
    using assms(2) by (simp_all add: args_left_Cons)
  have "\<not> is_nonoption [CHR ''-'', c]" by (simp add: is_nonoption_def)
  then have "getopt_long optstring opts ind g s = (Some c, ind, ?g, s)"
    using getopt_long_at [OF assms(1,2), of optstring opts ind s] assms(3-6)
    by (simp add: short_option_def Let_def deref_def a numeral_2_eq_2)
  then show thesis by (rule that) (use assms(1) in \<open>simp_all add: clean_def args_left_def a inside_def deref_def\<close>)
qed

section \<open>Loops over the options\<close>

text \<open>The contract of a loop \<^verbatim>\<open>while ((opt = getopt_long(...)) != -1) switch (opt)\<close>: the \<^verbatim>\<open>switch\<close> ends the
  program, has undefined behaviour, or goes on, and when it goes on it has undone no progress.\<close>

locale option_loop =
  fixes loop :: "nat \<Rightarrow> 'x \<Rightarrow> getopt_t \<Rightarrow> 'k st \<Rightarrow> ('r \<times> 'k st) option"
    and optstring :: string and opts :: "option_t list"
    and handle :: "char \<Rightarrow> nat \<Rightarrow> 'x \<Rightarrow> getopt_t \<Rightarrow> 'k st \<Rightarrow> (('r + 'x \<times> getopt_t) \<times> 'k st) option"
    and finish :: "'x \<Rightarrow> getopt_t \<Rightarrow> 'r"
  assumes loop: "loop ind x g s =
      (case getopt_long optstring opts ind g s of
         (None, _, g, s) \<Rightarrow> Some (finish x g, s)
       | (Some c, ind, g, s) \<Rightarrow>
          (case handle c ind x g s of
             None \<Rightarrow> None
           | Some (Inl r, s) \<Rightarrow> Some (r, s)
           | Some (Inr (x, g), s) \<Rightarrow> loop ind x g s))"
    and progress: "getopt_long optstring opts ind g s = (Some c, ind1, g1, s1) \<Longrightarrow>
      handle c ind1 x g1 s1 = Some (Inr (x', g'), s2) \<Longrightarrow> (g', g) \<in> getopt_less"
begin

lemma loop_stop: "getopt_long optstring opts ind g s = (None, ind1, g1, s1) \<Longrightarrow> loop ind x g s = Some (finish x g1, s1)"
  by (simp add: loop [of ind x g s])

lemma loop_step: "getopt_long optstring opts ind g s = (Some c, ind1, g1, s1) \<Longrightarrow>
    loop ind x g s = (case handle c ind1 x g1 s1 of None \<Rightarrow> None | Some (Inl r, s) \<Rightarrow> Some (r, s)
      | Some (Inr (x, g), s) \<Rightarrow> loop ind1 x g s)"
  by (simp add: loop [of ind x g s])

lemma loop_cases:
  assumes "loop ind x g s = Some (r, t)"
  obtains ind1 g1 where "getopt_long optstring opts ind g s = (None, ind1, g1, t)" "r = finish x g1"
  | c ind1 g1 s1 where "getopt_long optstring opts ind g s = (Some c, ind1, g1, s1)" "handle c ind1 x g1 s1 = Some (Inl r, t)"
  | c ind1 g1 s1 x' g' s2 where "getopt_long optstring opts ind g s = (Some c, ind1, g1, s1)"
      "handle c ind1 x g1 s1 = Some (Inr (x', g'), s2)" "loop ind1 x' g' s2 = Some (r, t)"
  using assms by (subst (asm) loop) (auto split: prod.splits option.splits sum.splits)

text \<open>Induction along a loop: the scan ends, an option ends the program, or the loop goes on.\<close>

lemma loop_induct [consumes 1, case_names stop return step]:
  assumes "loop ind x g s = Some (r, t)"
    and stop: "\<And>ind x g s ind1 g1 s1. getopt_long optstring opts ind g s = (None, ind1, g1, s1) \<Longrightarrow> P x g s (finish x g1) s1"
    and return: "\<And>ind x g s c ind1 g1 s1 r t. getopt_long optstring opts ind g s = (Some c, ind1, g1, s1) \<Longrightarrow>
      handle c ind1 x g1 s1 = Some (Inl r, t) \<Longrightarrow> P x g s r t"
    and step: "\<And>ind x g s c ind1 g1 s1 x' g' s2 r t. getopt_long optstring opts ind g s = (Some c, ind1, g1, s1) \<Longrightarrow>
      handle c ind1 x g1 s1 = Some (Inr (x', g'), s2) \<Longrightarrow> P x' g' s2 r t \<Longrightarrow> P x g s r t"
  shows "P x g s r t"
  using assms(1)
proof (induction "(g, x, ind, s)" arbitrary: g x ind s rule: wf_induct_rule [OF wf_inv_image [OF wf_getopt_less, of fst]])
  case less: 1
  from less.prems show ?case
  proof (cases rule: loop_cases)
    case (1 ind1 g1)
    then show ?thesis using stop by simp
  next
    case (2 c ind1 g1 s1)
    then show ?thesis using return by simp
  next
    case (3 c ind1 g1 s1 x' g' s2)
    have "P x' g' s2 r t"
      by (rule less.hyps [OF _ 3(3)]) (simp add: progress [OF 3(1,2)])
    with 3 show ?thesis using step by blast
  qed
qed

end

end
