(* ===== verification/Cli.thy ===== *)
theory Cli
  imports Getopt Runtime_Types
begin

text \<open>
  \<^verbatim>\<open>src/main.c\<close>: the global options, the options of \<^verbatim>\<open>run\<close>, and the commands. Every branch of the
  two option loops is a definition of its own. The functions of \<^verbatim>\<open>core/runtime.c\<close>, which is not
  part of the repository, are the parameter \<open>'k core\<close>: they may change everything they get a
  pointer to and the whole state of the process, and they return; the calls made to them are
  recorded in \<open>api\<close>.

  The strings of \<^verbatim>\<open>argv\<close> are cut in place by the options \<^verbatim>\<open>-p\<close> and \<^verbatim>\<open>-v\<close>, and the model does the
  same: what \<^verbatim>\<open>argv\<close> holds afterwards is what the program would read there.
\<close>

section \<open>The parameter\<close>

record 'k core =
  core_runtime_init :: "runtime_ctx_t \<Rightarrow> 'k st \<Rightarrow> (int \<times> runtime_ctx_t) \<times> 'k st"
  core_runtime_cleanup :: "runtime_ctx_t \<Rightarrow> 'k st \<Rightarrow> 'k st"
  core_container_create :: "runtime_ctx_t \<Rightarrow> container_config_t \<Rightarrow> 'k st \<Rightarrow>
    (int \<times> runtime_ctx_t \<times> container_config_t \<times> container_t) \<times> 'k st"
  core_container_start :: "runtime_ctx_t \<Rightarrow> container_t \<Rightarrow> 'k st \<Rightarrow> (int \<times> runtime_ctx_t \<times> container_t) \<times> 'k st"
  core_container_delete :: "runtime_ctx_t \<Rightarrow> container_t \<Rightarrow> 'k st \<Rightarrow> (int \<times> runtime_ctx_t) \<times> 'k st"

text \<open>A call into it: whatever it does to the state, the record of calls grows by this one.\<close>

definition record_call :: "api_event \<Rightarrow> 'k st \<Rightarrow> 'k st \<Rightarrow> 'k st" where
  "record_call e before after = after\<lparr>api := api before @ [e]\<rparr>"

definition runtime_init :: "'k core \<Rightarrow> runtime_ctx_t \<Rightarrow> 'k st \<Rightarrow> (int \<times> runtime_ctx_t) \<times> 'k st" where
  "runtime_init C ctx s = (let ((rc, ctx), t) = core_runtime_init C ctx s
     in ((rc, ctx), record_call (Api_runtime_init rc) s t))"

definition runtime_cleanup :: "'k core \<Rightarrow> runtime_ctx_t \<Rightarrow> 'k st \<Rightarrow> 'k st" where
  "runtime_cleanup C ctx s = record_call Api_runtime_cleanup s (core_runtime_cleanup C ctx s)"

definition container_create :: "'k core \<Rightarrow> runtime_ctx_t \<Rightarrow> container_config_t \<Rightarrow> 'k st \<Rightarrow>
    (int \<times> runtime_ctx_t \<times> container_config_t \<times> container_t) \<times> 'k st" where
  "container_create C ctx config s = (let ((rc, x), t) = core_container_create C ctx config s
     in ((rc, x), record_call (Api_container_create rc) s t))"

definition container_start :: "'k core \<Rightarrow> runtime_ctx_t \<Rightarrow> container_t \<Rightarrow> 'k st \<Rightarrow>
    (int \<times> runtime_ctx_t \<times> container_t) \<times> 'k st" where
  "container_start C ctx c s = (let ((rc, x), t) = core_container_start C ctx c s
     in ((rc, x), record_call (Api_container_start rc) s t))"

definition container_delete :: "'k core \<Rightarrow> runtime_ctx_t \<Rightarrow> container_t \<Rightarrow> 'k st \<Rightarrow>
    (int \<times> runtime_ctx_t) \<times> 'k st" where
  "container_delete C ctx c s = (let ((rc, x), t) = core_container_delete C ctx c s
     in ((rc, x), record_call (Api_container_delete rc) s t))"

section \<open>Output\<close>

definition print :: "string \<Rightarrow> 'k st \<Rightarrow> 'k st" where
  "print msg s = s\<lparr>std_out := std_out s @ msg\<rparr>"

definition lines :: "string list \<Rightarrow> string" where
  "lines ls = concat (map (\<lambda>l. l @ [CHR 0x0A]) ls)"

definition usage_text :: "string \<Rightarrow> string" where
  "usage_text prog = lines [''CRuntime v'' @ CRUNTIME_VERSION @ '' - Production Container Runtime'', '''',
     ''Usage: '' @ prog @ '' [OPTIONS] COMMAND [ARGS...]'', '''',
     ''Commands:'',
     ''  run        Create and start a container'',
     ''  create     Create a container'',
     ''  start      Start a container'',
     ''  stop       Stop a container'',
     ''  kill       Kill a container'',
     ''  rm         Remove a container'',
     ''  ps         List containers'',
     ''  exec       Execute command in running container'',
     ''  pause      Pause a container'',
     ''  unpause    Resume a paused container'',
     ''  logs       View container logs'',
     ''  stats      Display container statistics'', '''',
     ''Options:'',
     ''  -h, --help              Show this help message'',
     ''  -v, --version           Show version'',
     ''  -d, --runtime-dir DIR   Runtime directory (default: /var/run/cruntime)'',
     ''  --debug                 Enable debug logging'']"

definition print_usage :: "string \<Rightarrow> 'k st \<Rightarrow> 'k st" where
  "print_usage prog s = print (usage_text prog) s"

definition print_version :: "'k st \<Rightarrow> 'k st" where
  "print_version s = print (''cruntime version '' @ CRUNTIME_VERSION @ [CHR 0x0A]) s"

section \<open>The options of the run command\<close>

definition run_long_options :: "option_t list" where
  "run_long_options =
     [\<lparr>lo_name = ''name'', has_arg = True, lo_val = CHR ''n''\<rparr>,
      \<lparr>lo_name = ''hostname'', has_arg = True, lo_val = CHR ''h''\<rparr>,
      \<lparr>lo_name = ''memory'', has_arg = True, lo_val = CHR ''m''\<rparr>,
      \<lparr>lo_name = ''cpus'', has_arg = True, lo_val = CHR ''c''\<rparr>,
      \<lparr>lo_name = ''network'', has_arg = True, lo_val = NUL\<rparr>,
      \<lparr>lo_name = ''ip'', has_arg = True, lo_val = NUL\<rparr>,
      \<lparr>lo_name = ''publish'', has_arg = True, lo_val = CHR ''p''\<rparr>,
      \<lparr>lo_name = ''volume'', has_arg = True, lo_val = CHR ''v''\<rparr>,
      \<lparr>lo_name = ''env'', has_arg = True, lo_val = CHR ''e''\<rparr>,
      \<lparr>lo_name = ''workdir'', has_arg = True, lo_val = CHR ''w''\<rparr>,
      \<lparr>lo_name = ''detach'', has_arg = False, lo_val = CHR ''d''\<rparr>,
      \<lparr>lo_name = ''rm'', has_arg = False, lo_val = NUL\<rparr>]"

definition run_optstring :: string where
  "run_optstring = ''n:h:m:c:p:v:e:w:d''"

definition default_config :: "string \<Rightarrow> 32 word \<Rightarrow> 32 word \<Rightarrow> container_config_t" where
  "default_config ident uid gid = zero_config\<lparr>
     cfg_id := ident,
     cfg_namespaces := zero_namespaces\<lparr>ns_pid := True, ns_mnt := True, ns_uts := True, ns_ipc := True,
       ns_net := True, ns_cgroup := True\<rparr>,
     cfg_hostname := ''container'',
     cfg_network := zero_network\<lparr>nw_bridge_name := ''cr0'', nw_subnet := ''172.17.0.0/16''\<rparr>,
     cfg_limits := zero_limits\<lparr>memory_limit := - 1, cpu_shares := 1024, cpu_quota := - 1,
       cpu_period := 100000, pids_limit := - 1\<rparr>,
     cfg_uid := uid, cfg_gid := gid\<rparr>"

text \<open>\<^verbatim>\<open>*colon = 0\<close> at the offset \<open>n\<close> behind the pointer: the argument ends there.\<close>

definition cut_at :: "getopt_t \<Rightarrow> ptr \<Rightarrow> nat \<Rightarrow> getopt_t" where
  "cut_at g p n = g\<lparr>argv := (argv g)[fst p := take (snd p + n) (argv g ! fst p)]\<rparr>"

text \<open>Storing into a cell of an array.\<close>

definition put_nth :: "'a list \<Rightarrow> nat \<Rightarrow> 'a \<Rightarrow> 'a list option" where
  "put_nth xs i x = (if i < length xs then Some (xs[i := x]) else None)"

text \<open>\<^verbatim>\<open>case 'p'\<close>: \<^verbatim>\<open>host:container\<close> or \<^verbatim>\<open>host:container/proto\<close>; the numbers are cut to 16 bits.\<close>

definition port_of :: "string \<Rightarrow> string \<Rightarrow> port_mapping_t" where
  "port_of host rest =
     (case strchr_split (CHR ''/'') rest of
        Some (port, proto) \<Rightarrow>
          \<lparr>host_port = ucast (atoi host), container_port = ucast (atoi port), protocol = strncpy_field 8 proto\<rparr>
      | None \<Rightarrow> \<lparr>host_port = ucast (atoi host), container_port = ucast (atoi rest), protocol = ''tcp''\<rparr>)"

definition opt_publish :: "container_config_t \<Rightarrow> ptr \<Rightarrow> getopt_t \<Rightarrow> (container_config_t \<times> getopt_t) option" where
  "opt_publish cfg p g =
     (case strchr_split (CHR '':'') (deref g p) of
        None \<Rightarrow> Some (cfg, g)
      | Some (host, rest) \<Rightarrow>
          let nw = cfg_network cfg; n = nw_num_ports nw in
          if sint n < int MAX_PORTS then do {
            ports \<leftarrow> put_nth (nw_ports nw) (nat (sint n)) (port_of host rest);
            Some (cfg\<lparr>cfg_network := nw\<lparr>nw_ports := ports, nw_num_ports := n + 1\<rparr>\<rparr>, cut_at g p (length host))
          }
          else Some (cfg, g))"

text \<open>\<^verbatim>\<open>case 'v'\<close>: \<^verbatim>\<open>host:container\<close>.\<close>

definition opt_volume :: "container_config_t \<Rightarrow> ptr \<Rightarrow> getopt_t \<Rightarrow> (container_config_t \<times> getopt_t) option" where
  "opt_volume cfg p g =
     (if sint (cfg_num_mounts cfg) < int MAX_MOUNTS then
        case strchr_split (CHR '':'') (deref g p) of
          None \<Rightarrow> Some (cfg, g)
        | Some (src, tgt) \<Rightarrow> do {
            let n = nat (sint (cfg_num_mounts cfg));
            mounts \<leftarrow> put_nth (cfg_mounts cfg) n ((cfg_mounts cfg ! n)\<lparr>
              mp_source := strncpy_field MAX_PATH_LEN src, mp_target := strncpy_field MAX_PATH_LEN tgt,
              mp_fstype := ''bind'', mp_flags := MS_BIND\<rparr>);
            Some (cfg\<lparr>cfg_mounts := mounts, cfg_num_mounts := cfg_num_mounts cfg + 1\<rparr>, cut_at g p (length src))
          }
      else Some (cfg, g))"

text \<open>\<^verbatim>\<open>case 'e'\<close>: a store through \<^verbatim>\<open>config.env\<close>, undefined while that is NULL.\<close>

definition opt_env :: "container_config_t \<Rightarrow> string \<Rightarrow> container_config_t option" where
  "opt_env cfg arg =
     (if sint (cfg_num_env cfg) < int MAX_ENV_VARS then do {
        env \<leftarrow> cfg_env cfg;
        env \<leftarrow> put_nth env (nat (sint (cfg_num_env cfg))) arg;
        Some (cfg\<lparr>cfg_env := Some env, cfg_num_env := cfg_num_env cfg + 1\<rparr>)
      }
      else Some cfg)"

text \<open>What the loop works on: the configuration and the two flags.\<close>

record run_t =
  r_config :: container_config_t
  r_detach :: bool
  r_remove :: bool

definition set_config :: "run_t \<Rightarrow> container_config_t \<Rightarrow> run_t" where
  "set_config x cfg = x\<lparr>r_config := cfg\<rparr>"

text \<open>\<^verbatim>\<open>case 0\<close>: the long options without a letter, by the name of the option that was found.\<close>

definition opt_long_only :: "nat \<Rightarrow> run_t \<Rightarrow> getopt_t \<Rightarrow> run_t option" where
  "opt_long_only option_index x g =
     (let name = lo_name (run_long_options ! option_index); cfg = r_config x; nw = cfg_network cfg in
      if name = ''rm'' then Some (x\<lparr>r_remove := True\<rparr>)
      else if name = ''network'' then do {
        p \<leftarrow> optarg g;
        Some (set_config x (cfg\<lparr>cfg_network := nw\<lparr>nw_bridge_name := strncpy_field 64 (deref g p)\<rparr>\<rparr>)) }
      else if name = ''ip'' then do {
        p \<leftarrow> optarg g;
        Some (set_config x (cfg\<lparr>cfg_network := nw\<lparr>nw_ip_address := strncpy_field 64 (deref g p)\<rparr>\<rparr>)) }
      else Some x)"

text \<open>The \<^verbatim>\<open>switch\<close>: \<open>Some None\<close> is \<^verbatim>\<open>return 1\<close>, \<open>None\<close> undefined behaviour.\<close>

definition run_option :: "char \<Rightarrow> nat \<Rightarrow> run_t \<Rightarrow> getopt_t \<Rightarrow> (run_t \<times> getopt_t) option option" where
  "run_option opt option_index x g =
     (let cfg = r_config x; arg = map_option (deref g) (optarg g) in
      if opt = CHR ''n'' then do {
        a \<leftarrow> arg; Some (Some (set_config x (cfg\<lparr>cfg_name := strncpy_field MAX_CONTAINER_NAME a\<rparr>), g)) }
      else if opt = CHR ''h'' then do {
        a \<leftarrow> arg; Some (Some (set_config x (cfg\<lparr>cfg_hostname := strncpy_field 256 a\<rparr>), g)) }
      else if opt = CHR ''m'' then do {
        a \<leftarrow> arg; v \<leftarrow> parse_size a;
        Some (Some (set_config x (cfg\<lparr>cfg_limits := (cfg_limits cfg)\<lparr>memory_limit := word_of_int v\<rparr>\<rparr>), g)) }
      else if opt = CHR ''c'' then do {
        a \<leftarrow> arg; v \<leftarrow> int64_of_double (dmul (atof a) (double_of_int 100000));
        Some (Some (set_config x (cfg\<lparr>cfg_limits := (cfg_limits cfg)\<lparr>cpu_quota := word_of_int v\<rparr>\<rparr>), g)) }
      else if opt = CHR ''p'' then do {
        p \<leftarrow> optarg g; (cfg, g) \<leftarrow> opt_publish cfg p g; Some (Some (set_config x cfg, g)) }
      else if opt = CHR ''v'' then do {
        p \<leftarrow> optarg g; (cfg, g) \<leftarrow> opt_volume cfg p g; Some (Some (set_config x cfg, g)) }
      else if opt = CHR ''e'' then do {
        a \<leftarrow> arg; cfg \<leftarrow> opt_env cfg a; Some (Some (set_config x cfg, g)) }
      else if opt = CHR ''w'' then do {
        a \<leftarrow> arg; Some (Some (set_config x (cfg\<lparr>cfg_working_dir := strncpy_field MAX_PATH_LEN a\<rparr>), g)) }
      else if opt = CHR ''d'' then Some (Some (x\<lparr>r_detach := True\<rparr>, g))
      else if opt = NUL then do { x \<leftarrow> opt_long_only option_index x g; Some (Some (x, g)) }
      else Some None)"

text \<open>The loop ends because a call of \<^verbatim>\<open>getopt_long\<close> makes progress and cutting an argument undoes
  none of it.\<close>

lemma cut_at_less:
  assumes "(g1, g) \<in> getopt_less" and "optarg g1 = Some p \<Longrightarrow> nextchar g1 = None" and "optarg g1 = Some p"
  shows "(cut_at g1 p n, g) \<in> getopt_less"
proof -
  have "nextchar g1 = None" using assms(2,3) by simp
  then have "getopt_left (cut_at g1 p n) = getopt_left g1" "chars_left (cut_at g1 p n) \<le> chars_left g1"
    by (cases "fst p = optind g1"; simp add: getopt_left_def chars_left_def cut_at_def argc_def inside_def)+
  with assms(1) show ?thesis by (auto simp: getopt_less_iff)
qed

lemma opt_cuts:
  "opt_publish cfg p g = Some (cfg', g') \<Longrightarrow> g' = g \<or> (\<exists>n. g' = cut_at g p n)"
  "opt_volume cfg p g = Some (cfg', g') \<Longrightarrow> g' = g \<or> (\<exists>n. g' = cut_at g p n)"
  by (auto simp: opt_publish_def opt_volume_def Let_def bind_eq_Some_conv split: if_splits option.splits)

lemma run_option_moves:
  assumes "run_option c ind x g = Some (Some (x', g'))"
  shows "g' = g \<or> (\<exists>p n. optarg g = Some p \<and> g' = cut_at g p n)"
  using assms
  by (auto simp: run_option_def Let_def bind_eq_Some_conv split: if_splits dest!: opt_cuts)

lemma run_option_less:
  assumes "getopt_long os lo ind g s = (Some c, ind', g1, s1)" and "run_option c ind'' x g1 = Some (Some (x', g'))"
  shows "(g', g) \<in> getopt_less"
proof -
  note m = getopt_long_moves [OF assms(1)]
  from run_option_moves [OF assms(2)] show ?thesis
  proof (elim disjE exE conjE)
    fix p n
    assume "optarg g1 = Some p" and "g' = cut_at g1 p n"
    with m(2,3) show ?thesis using cut_at_less [of g1 g p n] by auto
  qed (use m(3) in simp)
qed

text \<open>C35. Every pass of the loop of \<^verbatim>\<open>cmd_run\<close>, a call of \<^verbatim>\<open>getopt_long\<close> that finds an option and
  the branch of the \<^verbatim>\<open>switch\<close> for it, leaves fewer arguments to scan, or as many and fewer
  characters of the current one, although \<^verbatim>\<open>-p\<close> and \<^verbatim>\<open>-v\<close> write into \<^verbatim>\<open>argv\<close>. This measure is
  well-founded, so the loop ends on every command line.\<close>

theorem run_loop_progress:
  assumes "getopt_long run_optstring run_long_options ind g s = (Some c, ind', g1, s1)"
    and "run_option c ind' x g1 = Some (Some (x', g'))"
  shows "wf getopt_less \<and> (g', g) \<in> getopt_less"
  using run_option_less [OF assms] by simp

function run_options :: "nat \<Rightarrow> run_t \<Rightarrow> getopt_t \<Rightarrow> 'k st \<Rightarrow> ((run_t \<times> getopt_t) option \<times> 'k st) option" where
  "run_options option_index x g s =
     (case getopt_long run_optstring run_long_options option_index g s of
        (None, _, g, s) \<Rightarrow> Some (Some (x, g), s)
      | (Some opt, option_index, g, s) \<Rightarrow>
         (case run_option opt option_index x g of
            None \<Rightarrow> None
          | Some None \<Rightarrow> Some (None, s)
          | Some (Some (x, g)) \<Rightarrow> run_options option_index x g s))"
  by pat_completeness auto
termination
  by (relation "inv_image getopt_less (\<lambda>(i, x, g, s). g)") (auto intro: run_option_less [OF sym])

declare run_options.simps [simp del]

text \<open>The loop, as the shared contract of option loops sees it.\<close>

definition run_handle :: "char \<Rightarrow> nat \<Rightarrow> run_t \<Rightarrow> getopt_t \<Rightarrow> 'k st \<Rightarrow>
    (((run_t \<times> getopt_t) option + run_t \<times> getopt_t) \<times> 'k st) option" where
  "run_handle c ind x g s =
     map_option (\<lambda>r. (case r of None \<Rightarrow> Inl None | Some y \<Rightarrow> Inr y, s)) (run_option c ind x g)"

lemma run_handle_simps [simp]:
  "run_handle c ind x g s = Some (Inl r, t) \<longleftrightarrow> run_option c ind x g = Some None \<and> r = None \<and> t = s"
  "run_handle c ind x g s = Some (Inr y, t) \<longleftrightarrow> run_option c ind x g = Some (Some y) \<and> t = s"
  by (cases "run_option c ind x g"; auto simp: run_handle_def split: option.split)+

interpretation run_loop: option_loop run_options run_optstring run_long_options run_handle "\<lambda>x g. Some (x, g)"
proof
  show "run_options ind x g s = (case getopt_long run_optstring run_long_options ind g s of
         (None, _, g, s) \<Rightarrow> Some (Some (x, g), s)
       | (Some c, ind, g, s) \<Rightarrow>
          (case run_handle c ind x g s of
             None \<Rightarrow> None
           | Some (Inl r, s) \<Rightarrow> Some (r, s)
           | Some (Inr (x, g), s) \<Rightarrow> run_options ind x g s))" for ind x g and s :: "'k st"
    by (subst run_options.simps) (auto simp: run_handle_def split: prod.split option.split)
qed (auto simp: run_option_less)

section \<open>The commands\<close>

text \<open>The configuration made from the command line: the identifier, the defaults, the options, the
  image and the command; \<open>None\<close> in the answer is \<^verbatim>\<open>return 1\<close>.\<close>

definition image_and_command :: "runtime_ctx_t \<Rightarrow> container_config_t \<Rightarrow> getopt_t \<Rightarrow> container_config_t" where
  "image_and_command ctx config g =
     (let i = optind g;
          config = config\<lparr>cfg_rootfs :=
            snprintf MAX_PATH_LEN (rt_image_dir ctx @ ''/images/'' @ argv g ! i @ ''/rootfs'')\<rparr>;
          i = Suc i
      in if i < argc g then
           config\<lparr>cfg_command := Some (argv g ! i), cfg_args := drop i (argv g),
             cfg_num_args := word_of_int (int (argc g) - int (Suc i) + 1)\<rparr>
         else config\<lparr>cfg_command := Some ''/bin/sh''\<rparr>)"

definition run_config :: "'k kernel \<Rightarrow> runtime_ctx_t \<Rightarrow> getopt_t \<Rightarrow> 'k st \<Rightarrow> (run_t option \<times> 'k st) option" where
  "run_config K ctx g s = do {
     (buffer, s) \<leftarrow> generate_id K (zeroed 65) 65 s;
     ident \<leftarrow> cbuf_str buffer;
     let (uid, s) = sys K Sys_getuid s;
     let (gid, s) = sys K Sys_getgid s;
     let x = \<lparr>r_config = default_config ident (word_of_int (ret uid)) (word_of_int (ret gid)),
              r_detach = False, r_remove = False\<rparr>;
     (r, s) \<leftarrow> run_options 0 x g s;
     (case r of
        None \<Rightarrow> Some (None, s)
      | Some (x, g) \<Rightarrow>
          if argc g \<le> optind g then Some (None, eprint (''Error: missing image name'' @ [CHR 0x0A]) s)
          else Some (Some (set_config x (image_and_command ctx (r_config x) g)), s))
   }"

definition launch :: "'k core \<Rightarrow> 'k kernel \<Rightarrow> runtime_ctx_t \<Rightarrow> run_t \<Rightarrow> 'k st \<Rightarrow> (int \<times> runtime_ctx_t) \<times> 'k st" where
  "launch C K ctx x s =
     (let ((rc, ctx, config, container), s) = container_create C ctx (r_config x) s in
      if rc \<noteq> CR_OK then ((1, ctx), eprint (''Failed to create container'' @ [CHR 0x0A]) s)
      else
        let s = print (cfg_id config @ [CHR 0x0A]) s;
            ((rc, ctx, container), s) = container_start C ctx container s
        in
        if rc \<noteq> CR_OK then
          let ((_, ctx), s) = container_delete C ctx container (eprint (''Failed to start container'' @ [CHR 0x0A]) s)
          in ((1, ctx), s)
        else if r_detach x then ((0, ctx), s)
        else
          let (_, s) = sys K (Sys_waitpid (ct_init_pid container)) s in
          if r_remove x then let ((_, ctx), s) = container_delete C ctx container s in ((0, ctx), s)
          else ((0, ctx), s))"

definition cmd_run :: "'k core \<Rightarrow> 'k kernel \<Rightarrow> runtime_ctx_t \<Rightarrow> getopt_t \<Rightarrow> 'k st \<Rightarrow>
    ((int \<times> runtime_ctx_t) \<times> 'k st) option" where
  "cmd_run C K ctx g s = do {
     (x, s) \<leftarrow> run_config K ctx g s;
     (case x of None \<Rightarrow> Some ((1, ctx), s) | Some x \<Rightarrow> Some (launch C K ctx x s))
   }"

definition cmd_ps :: "'k st \<Rightarrow> int \<times> 'k st" where
  "cmd_ps s = (0, print (lines [''CONTAINER ID    NAME              STATUS     PID'',
     ''(container listing not yet implemented)'']) s)"

section \<open>main\<close>

definition main_long_options :: "option_t list" where
  "main_long_options =
     [\<lparr>lo_name = ''help'', has_arg = False, lo_val = CHR ''h''\<rparr>,
      \<lparr>lo_name = ''version'', has_arg = False, lo_val = CHR ''v''\<rparr>,
      \<lparr>lo_name = ''runtime-dir'', has_arg = True, lo_val = CHR ''d''\<rparr>,
      \<lparr>lo_name = ''debug'', has_arg = False, lo_val = NUL\<rparr>]"

text \<open>The option string without the plus sign, which \<^verbatim>\<open>getopt_long\<close> skips.\<close>

definition main_optstring :: string where
  "main_optstring = ''hvd:''"

text \<open>The context on the stack of \<^verbatim>\<open>main\<close>: behind the default directory the array is indeterminate.\<close>

definition initial_ctx :: "runtime_ctx_t option" where
  "initial_ctx = do {
     dir \<leftarrow> c_strcpy (uninit MAX_PATH_LEN) ''/var/run/cruntime'';
     Some \<lparr>rt_runtime_dir = dir, rt_state_dir = ''/var/lib/cruntime/state'',
       rt_image_dir = ''/var/lib/cruntime/images'', rt_network_dir = ''/var/run/cruntime/netns'',
       rt_use_systemd = False\<rparr>
   }"

text \<open>The \<^verbatim>\<open>switch\<close>: \<open>Inl\<close> is the value returned.\<close>

definition main_option :: "char \<Rightarrow> nat \<Rightarrow> runtime_ctx_t \<Rightarrow> getopt_t \<Rightarrow> 'k st \<Rightarrow> ((int + runtime_ctx_t) \<times> 'k st) option" where
  "main_option opt option_index ctx g s =
     (if opt = CHR ''h'' then Some (Inl 0, print_usage (argv g ! 0) s)
      else if opt = CHR ''v'' then Some (Inl 0, print_version s)
      else if opt = CHR ''d'' then do {
        p \<leftarrow> optarg g;
        dir \<leftarrow> c_strncpy (rt_runtime_dir ctx) (deref g p) (MAX_PATH_LEN - 1);
        Some (Inr (ctx\<lparr>rt_runtime_dir := dir\<rparr>), s) }
      else if opt = NUL then
        Some (Inr ctx, if lo_name (main_long_options ! option_index) = ''debug'' then cr_set_log_level LOG_DEBUG s else s)
      else Some (Inl 1, print_usage (argv g ! 0) s))"

function main_options :: "nat \<Rightarrow> runtime_ctx_t \<Rightarrow> getopt_t \<Rightarrow> 'k st \<Rightarrow> ((int + runtime_ctx_t \<times> getopt_t) \<times> 'k st) option" where
  "main_options option_index ctx g s =
     (case getopt_long main_optstring main_long_options option_index g s of
        (None, _, g, s) \<Rightarrow> Some (Inr (ctx, g), s)
      | (Some opt, option_index, g, s) \<Rightarrow>
         (case main_option opt option_index ctx g s of
            None \<Rightarrow> None
          | Some (Inl rc, s) \<Rightarrow> Some (Inl rc, s)
          | Some (Inr ctx, s) \<Rightarrow> main_options option_index ctx g s))"
  by pat_completeness auto
termination
  by (relation "inv_image getopt_less (\<lambda>(i, x, g, s). g)") (auto intro: getopt_long_moves(3) [OF sym])

declare main_options.simps [simp del]

definition main_handle :: "char \<Rightarrow> nat \<Rightarrow> runtime_ctx_t \<Rightarrow> getopt_t \<Rightarrow> 'k st \<Rightarrow>
    (((int + runtime_ctx_t \<times> getopt_t) + runtime_ctx_t \<times> getopt_t) \<times> 'k st) option" where
  "main_handle c ind ctx g s =
     map_option (\<lambda>(r, t). (case r of Inl rc \<Rightarrow> Inl (Inl rc) | Inr ctx \<Rightarrow> Inr (ctx, g), t)) (main_option c ind ctx g s)"

lemma main_handle_simps [simp]:
  "main_handle c ind ctx g s = Some (Inl r, t) \<longleftrightarrow> (\<exists>rc. main_option c ind ctx g s = Some (Inl rc, t) \<and> r = Inl rc)"
  "main_handle c ind ctx g s = Some (Inr (ctx', g'), t) \<longleftrightarrow> main_option c ind ctx g s = Some (Inr ctx', t) \<and> g' = g"
proof -
  show "main_handle c ind ctx g s = Some (Inl r, t) \<longleftrightarrow> (\<exists>rc. main_option c ind ctx g s = Some (Inl rc, t) \<and> r = Inl rc)"
  proof (cases "main_option c ind ctx g s")
    case (Some y)
    then show ?thesis by (cases "fst y"; cases y) (auto simp: main_handle_def)
  qed (simp add: main_handle_def)
  show "main_handle c ind ctx g s = Some (Inr (ctx', g'), t) \<longleftrightarrow> main_option c ind ctx g s = Some (Inr ctx', t) \<and> g' = g"
  proof (cases "main_option c ind ctx g s")
    case (Some y)
    then show ?thesis by (cases "fst y"; cases y) (auto simp: main_handle_def)
  qed (simp add: main_handle_def)
qed

interpretation main_loop: option_loop main_options main_optstring main_long_options main_handle "\<lambda>ctx g. Inr (ctx, g)"
proof
  show "main_options ind ctx g s = (case getopt_long main_optstring main_long_options ind g s of
         (None, _, g, s) \<Rightarrow> Some (Inr (ctx, g), s)
       | (Some c, ind, g, s) \<Rightarrow>
          (case main_handle c ind ctx g s of
             None \<Rightarrow> None
           | Some (Inl r, s) \<Rightarrow> Some (r, s)
           | Some (Inr (ctx, g), s) \<Rightarrow> main_options ind ctx g s))" for ind ctx g and s :: "'k st"
    by (subst main_options.simps) (auto simp: main_handle_def split: prod.split option.split sum.split)
qed (auto intro: getopt_long_moves(3))

text \<open>After the options: the checks, the runtime, and the command.\<close>

definition main_command :: "'k core \<Rightarrow> 'k kernel \<Rightarrow> runtime_ctx_t \<Rightarrow> getopt_t \<Rightarrow> 'k st \<Rightarrow> (int \<times> 'k st) option" where
  "main_command C K ctx g s =
     (if argc g \<le> optind g then Some (1, print_usage (argv g ! 0) s)
      else
        let (euid, s) = sys K Sys_geteuid s in
        if ret euid \<noteq> 0 then Some (1, eprint (''Error: cruntime requires root privileges'' @ [CHR 0x0A]) s)
        else
          let ((rc, ctx), s) = runtime_init C ctx s in
          if rc \<noteq> CR_OK then Some (1, eprint (''Failed to initialize runtime'' @ [CHR 0x0A]) s)
          else do {
            let cmd = argv g ! optind g;
            let g = g\<lparr>optind := Suc (optind g)\<rparr>;
            ((r, ctx), s) \<leftarrow>
              (if cmd = ''run'' then cmd_run C K ctx g s
               else if cmd = ''ps'' then let (r, s) = cmd_ps s in Some ((r, ctx), s)
               else Some ((1, ctx), print_usage (argv g ! 0) (eprint (''Unknown command: '' @ cmd @ [CHR 0x0A]) s)));
            Some (r, runtime_cleanup C ctx s)
          })"

text \<open>Without any argument, not even the program name, \<^verbatim>\<open>argv[0]\<close> is NULL and printed.\<close>

definition cruntime_main :: "'k core \<Rightarrow> 'k kernel \<Rightarrow> string list \<Rightarrow> 'k st \<Rightarrow> (int \<times> 'k st) option" where
  "cruntime_main C K args s =
     (if args = [] then None
      else do {
        ctx \<leftarrow> initial_ctx;
        (r, s) \<leftarrow> main_options 0 ctx (getopt0 args) s;
        (case r of Inl rc \<Rightarrow> Some (rc, s) | Inr (ctx, g) \<Rightarrow> main_command C K ctx g s)
      })"

section \<open>What the option loops leave alone\<close>

lemma eprint_simps [simp]:
  "api (eprint m s) = api s" "trace (eprint m s) = trace s" "effects (eprint m s) = effects s"
  "std_out (eprint m s) = std_out s" "log_level (eprint m s) = log_level s" "exit_code (eprint m s) = exit_code s"
  "kst (eprint m s) = kst s" "eprint [] s = s" "eprint b (eprint a s) = eprint (a @ b) s"
  by (simp_all add: eprint_def effects_def)

lemma print_simps [simp]:
  "api (print m s) = api s" "trace (print m s) = trace s" "effects (print m s) = effects s"
  "err_out (print m s) = err_out s" "log_level (print m s) = log_level s" "kst (print m s) = kst s"
  by (simp_all add: print_def effects_def)

lemma frame_eprint: "frame s (eprint m s)"
  by (simp add: frame_def eprint_def)

lemma frame_eprint_step [frame_rules]: "frame s t \<Longrightarrow> frame s (eprint m t)"
  using frame_eprint frame_trans by metis

text \<open>Only the error output grows.\<close>

definition prints :: "'k st \<Rightarrow> 'k st \<Rightarrow> bool" where
  "prints s t \<longleftrightarrow> (\<exists>m. t = eprint m s)"

lemma prints_simps [simp]: "prints s s" "prints s (eprint m s)"
  unfolding prints_def by (metis eprint_simps(8)) blast

lemma prints_trans: "prints s t \<Longrightarrow> prints t u \<Longrightarrow> prints s u"
  by (auto simp: prints_def)

lemma prints_keeps: "prints s t \<Longrightarrow> frame s t \<and> effects t = effects s \<and> api t = api s \<and> trace t = trace s"
  by (auto simp: prints_def frame_eprint)

lemma long_option_prints: "long_option opts ind g s = (r, ind', g', s') \<Longrightarrow> prints s s'"
  by (auto simp: long_option_def Let_def split: sum.splits option.splits if_splits)

lemma short_option_prints: "short_option os ind p g s = (r, ind', g', s') \<Longrightarrow> prints s s'"
  by (auto simp: short_option_def Let_def split: option.splits if_splits)

lemma getopt_long_prints: "getopt_long os opts ind g s = (r, ind', g', s') \<Longrightarrow> prints s s'"
  by (auto simp: getopt_long_def Let_def dest: long_option_prints short_option_prints split: if_splits)

lemma run_options_prints: "run_options ind x g s = Some (r, t) \<Longrightarrow> prints s t"
  by (induction rule: run_loop.loop_induct) (auto dest: getopt_long_prints intro: prints_trans)

lemma main_option_keeps: "main_option c ind ctx g s = Some (r, t) \<Longrightarrow> api t = api s \<and> trace t = trace s"
  by (auto simp: main_option_def print_usage_def print_version_def cr_set_log_level_def bind_eq_Some_conv split: if_splits)

lemma main_options_keeps: "main_options ind ctx g s = Some (r, t) \<Longrightarrow> api t = api s \<and> trace t = trace s"
  by (induction rule: main_loop.loop_induct)
    (auto dest!: getopt_long_prints prints_keeps main_option_keeps)

lemma generate_id_string:
  assumes "generate_id K b n s = Some (b', t)"
  shows "length b' = length b" and "frame s t"
proof -
  obtain f s1 where 1: "sys K (Sys_fopen ''/dev/urandom'' ''r'') s = (f, s1)" by force
  obtain r s2 where 2: "sys K (Sys_fread (ret f) 32) s1 = (r, s2)" by force
  obtain c s3 where 3: "sys K (Sys_fclose (ret f)) s2 = (c, s3)" by force
  obtain cs s4 where 4: "rand_chars K (n - 1) (seed_from_clock K s1) = (cs, s4)" by force
  note f = frame_sysE [OF 1] frame_sysE [OF 2] frame_sysE [OF 3] rand_chars_hex [OF 4] frame_seed [of s1 K]
  have "length b' = length b \<and> frame s t"
    using assms f unfolding generate_id_def Let_def 1 2 3 4 prod.case
    by (auto simp: min_def intro: frame_trans split: if_splits)
  then show "length b' = length b" and "frame s t" by simp_all
qed

lemma run_config_frame:
  assumes "run_config K ctx g s = Some (x, t)"
  shows "frame s t"
proof -
  obtain b s1 ident where 1: "generate_id K (zeroed 65) 65 s = Some (b, s1)" "cbuf_str b = Some ident"
    using assms by (auto simp: run_config_def bind_eq_Some_conv)
  obtain u s2 where 2: "sys K Sys_getuid s1 = (u, s2)" by force
  obtain v s3 where 3: "sys K Sys_getgid s2 = (v, s3)" by force
  obtain r s4 where 4: "run_options 0 \<lparr>r_config = default_config ident (word_of_int (ret u)) (word_of_int (ret v)),
      r_detach = False, r_remove = False\<rparr> g s3 = Some (r, s4)"
    using assms by (auto simp: run_config_def 1 2 3 bind_eq_Some_conv)
  note prints_keeps [OF run_options_prints [OF 4]]
  with 1 frame_sysE [OF 2] frame_sysE [OF 3] have "frame s s4"
    using generate_id_string(2) frame_trans frame_eprint by metis
  moreover have "t = s4 \<or> (\<exists>m. t = eprint m s4)"
    using assms by (auto simp: run_config_def 1 2 3 4 split: option.splits if_splits)
  ultimately show ?thesis using frame_eprint_step by blast
qed

section \<open>The protocol with the runtime core\<close>

text \<open>The calls that \<^verbatim>\<open>main\<close> may make into \<^verbatim>\<open>core/runtime.c\<close>, as a state machine: nothing before a
  successful \<^verbatim>\<open>runtime_init\<close>, one container at most, which is deleted when it could not be
  started, and \<^verbatim>\<open>runtime_cleanup\<close> at the end.\<close>

datatype phase = P_start | P_ready | P_none | P_created | P_running | P_failed | P_gone | P_down

inductive api_step :: "phase \<Rightarrow> api_event \<Rightarrow> phase \<Rightarrow> bool" where
  init_failed: "rc \<noteq> CR_OK \<Longrightarrow> api_step P_start (Api_runtime_init rc) P_down"
| init: "api_step P_start (Api_runtime_init CR_OK) P_ready"
| create_failed: "rc \<noteq> CR_OK \<Longrightarrow> api_step P_ready (Api_container_create rc) P_none"
| create: "api_step P_ready (Api_container_create CR_OK) P_created"
| start_failed: "rc \<noteq> CR_OK \<Longrightarrow> api_step P_created (Api_container_start rc) P_failed"
| start: "api_step P_created (Api_container_start CR_OK) P_running"
| delete_failed: "api_step P_failed (Api_container_delete rc) P_gone"
| delete: "api_step P_running (Api_container_delete rc) P_gone"
| cleanup: "p = P_ready \<or> p = P_none \<or> p = P_running \<or> p = P_gone \<Longrightarrow> api_step p Api_runtime_cleanup P_down"

inductive api_steps :: "phase \<Rightarrow> api_event list \<Rightarrow> phase \<Rightarrow> bool" where
  nil: "api_steps p [] p"
| step: "api_step p e q \<Longrightarrow> api_steps q es r \<Longrightarrow> api_steps p (e # es) r"

code_pred api_step .
code_pred api_steps .

inductive_simps api_steps_simps: "api_steps p [] q" "api_steps p (e # es) q"
inductive_cases api_step_downE: "api_step P_down e q"
inductive_cases api_step_startE: "api_step P_start e q"

lemma api_steps_append: "api_steps p xs q \<Longrightarrow> api_steps q ys r \<Longrightarrow> api_steps p (xs @ ys) r"
  by (induction rule: api_steps.induct) (auto intro: api_steps.intros)

lemma api_steps_down: "api_steps P_down es q \<Longrightarrow> es = [] \<and> q = P_down"
  by (erule api_steps.cases) (auto elim: api_step_downE)

text \<open>A run of the machine that ends down, after a successful start, ends with the cleanup and has
  no other.\<close>

lemma api_step_to_down: "api_step p e P_down \<Longrightarrow> p \<noteq> P_start \<Longrightarrow> e = Api_runtime_cleanup"
  by (erule api_step.cases) auto

lemma api_step_not_start: "api_step p e q \<Longrightarrow> q \<noteq> P_start"
  by (erule api_step.cases) auto

lemma api_step_cleanup: "api_step p Api_runtime_cleanup q \<Longrightarrow> q = P_down"
  by (erule api_step.cases) auto

lemma api_steps_ends:
  "api_steps p es q \<Longrightarrow> q = P_down \<Longrightarrow> p \<noteq> P_start \<Longrightarrow> p \<noteq> P_down \<Longrightarrow>
    es \<noteq> [] \<and> last es = Api_runtime_cleanup \<and> Api_runtime_cleanup \<notin> set (butlast es)"
proof (induction rule: api_steps.induct)
  case (step p e q es r)
  show ?case
  proof (cases "q = P_down")
    case True
    then have "es = []" using step.hyps(2) api_steps_down by blast
    with step True show ?thesis by (simp add: api_step_to_down)
  next
    case False
    then have "e \<noteq> Api_runtime_cleanup" using step.hyps(1) api_step_cleanup by blast
    with step False api_step_not_start show ?thesis by auto
  qed
qed simp

text \<open>What each command adds to the record of calls.\<close>

lemma record_call_api [simp]: "api (record_call e s t) = api s @ [e]"
  by (simp add: record_call_def)

lemma core_calls:
  "runtime_init C ctx s = ((rc, ctx'), t) \<Longrightarrow> api t = api s @ [Api_runtime_init rc]"
  "container_create C ctx cfg s = ((rc, x), t) \<Longrightarrow> api t = api s @ [Api_container_create rc]"
  "container_start C ctx c s = ((rc, y), t) \<Longrightarrow> api t = api s @ [Api_container_start rc]"
  "container_delete C ctx c s = ((rc, z), t) \<Longrightarrow> api t = api s @ [Api_container_delete rc]"
  by (auto simp: runtime_init_def container_create_def container_start_def container_delete_def split: prod.splits)

lemma api_sys [simp]: "sys K q s = (r, t) \<Longrightarrow> api t = api s"
  by (auto simp: sys_def split: prod.splits)

lemma launch_outcomes:
  assumes "launch C K ctx x s = ((rc, ctx'), t)"
  shows "(\<exists>c. c \<noteq> CR_OK \<and> rc = 1 \<and> api t = api s @ [Api_container_create c]) \<or>
    (\<exists>c d. c \<noteq> CR_OK \<and> rc = 1 \<and>
      api t = api s @ [Api_container_create CR_OK, Api_container_start c, Api_container_delete d]) \<or>
    (\<exists>d. rc = 0 \<and> api t = api s @ [Api_container_create CR_OK, Api_container_start CR_OK] @
      (if r_remove x \<and> \<not> r_detach x then [Api_container_delete d] else []))"
proof -
  obtain rc1 ctx1 config container s1 where 1: "container_create C ctx (r_config x) s = ((rc1, ctx1, config, container), s1)"
    by (metis surj_pair)
  note a1 = core_calls(2) [OF 1]
  show ?thesis
  proof (cases "rc1 = CR_OK")
    case False
    with assms 1 a1 show ?thesis by (auto simp: launch_def)
  next
    case True
    define s2 where "s2 = print (cfg_id config @ [CHR 0x0A]) s1"
    obtain rc3 ctx3 c3 s3 where 3: "container_start C ctx1 container s2 = ((rc3, ctx3, c3), s3)" by (metis surj_pair)
    have a3: "api s3 = api s @ [Api_container_create CR_OK, Api_container_start rc3]"
      using core_calls(3) [OF 3] a1 True by (simp add: s2_def)
    show ?thesis
    proof (cases "rc3 = CR_OK")
      case False
      define s4 where "s4 = eprint (''Failed to start container'' @ [CHR 0x0A]) s3"
      obtain rc5 ctx5 s5 where 5: "container_delete C ctx3 c3 s4 = ((rc5, ctx5), s5)" by (metis surj_pair)
      have t: "rc = 1" "t = s5"
        using assms False True unfolding launch_def Let_def 1 prod.case s2_def [symmetric] 3 s4_def [symmetric] 5 by simp_all
      have "api t = api s @ [Api_container_create CR_OK, Api_container_start rc3, Api_container_delete rc5]"
        using core_calls(4) [OF 5] a3 by (simp add: t s4_def)
      with False t(1) show ?thesis by blast
    next
      case ok: True
      obtain w s4 where 4: "sys K (Sys_waitpid (ct_init_pid c3)) s3 = (w, s4)" by force
      obtain rc5 ctx5 s5 where 5: "container_delete C ctx3 c3 s4 = ((rc5, ctx5), s5)" by (metis surj_pair)
      have t: "rc = 0" "t = (if r_detach x then s3 else if r_remove x then s5 else s4)"
        using assms ok True unfolding launch_def Let_def 1 prod.case s2_def [symmetric] 3 4 5 by (auto split: if_splits)
      have "api t = api s @ [Api_container_create CR_OK, Api_container_start CR_OK] @
          (if r_remove x \<and> \<not> r_detach x then [Api_container_delete rc5] else [])"
        using core_calls(4) [OF 5] a3 ok t(2) api_sys [OF 4] by auto
      with t(1) show ?thesis by blast
    qed
  qed
qed

text \<open>C13. A run creates the container, starts it, and deletes it again exactly when it could not be
  started or when \<^verbatim>\<open>--rm\<close> was given without \<^verbatim>\<open>-d\<close>; it reports 0 exactly when the container was
  started, whatever the container's own exit status.\<close>

theorem launch_calls:
  assumes "launch C K ctx x s = ((rc, ctx'), t)"
  shows "(\<exists>c. c \<noteq> CR_OK \<and> rc = 1 \<and> api t = api s @ [Api_container_create c]) \<or>
    (\<exists>c d. c \<noteq> CR_OK \<and> rc = 1 \<and>
      api t = api s @ [Api_container_create CR_OK, Api_container_start c, Api_container_delete d]) \<or>
    (\<exists>d. rc = 0 \<and> api t = api s @ [Api_container_create CR_OK, Api_container_start CR_OK] @
      (if r_remove x \<and> \<not> r_detach x then [Api_container_delete d] else []))"
  using assms by (rule launch_outcomes)

lemma launch_steps:
  assumes "launch C K ctx x s = ((rc, ctx'), t)"
  obtains es p where "api t = api s @ es" "api_steps P_ready es p" "p \<in> {P_none, P_running, P_gone}"
proof -
  note steps = api_steps.intros api_step.intros
  from launch_outcomes [OF assms] consider
      c where "c \<noteq> CR_OK" "api t = api s @ [Api_container_create c]"
    | c d where "c \<noteq> CR_OK" "api t = api s @ [Api_container_create CR_OK, Api_container_start c, Api_container_delete d]"
    | d where "api t = api s @ [Api_container_create CR_OK, Api_container_start CR_OK, Api_container_delete d]"
    | "api t = api s @ [Api_container_create CR_OK, Api_container_start CR_OK]"
    by (auto split: if_splits)
  then show thesis
  proof cases
    case (1 c)
    then have "api_steps P_ready [Api_container_create c] P_none" by (blast intro: steps)
    with 1 that show thesis by blast
  next
    case (2 c d)
    then have "api_steps P_ready [Api_container_create CR_OK, Api_container_start c, Api_container_delete d] P_gone"
      by (blast intro: steps)
    with 2 that show thesis by blast
  next
    case (3 d)
    have "api_steps P_ready [Api_container_create CR_OK, Api_container_start CR_OK, Api_container_delete d] P_gone"
      by (blast intro: steps)
    with 3 that show thesis by blast
  next
    case 4
    have "api_steps P_ready [Api_container_create CR_OK, Api_container_start CR_OK] P_running"
      by (blast intro: steps)
    with 4 that show thesis by blast
  qed
qed

lemma cmd_run_steps:
  assumes "cmd_run C K ctx g s = Some ((rc, ctx'), t)"
  obtains es p where "api t = api s @ es" "api_steps P_ready es p" "p \<in> {P_ready, P_none, P_running, P_gone}"
proof -
  obtain x s1 where 1: "run_config K ctx g s = Some (x, s1)"
    and r: "(case x of None \<Rightarrow> Some ((1, ctx), s1) | Some x \<Rightarrow> Some (launch C K ctx x s1)) = Some ((rc, ctx'), t)"
    using assms by (auto simp: cmd_run_def bind_eq_Some_conv)
  have a: "api s1 = api s" using run_config_frame [OF 1] by (simp add: frame_def)
  show thesis
  proof (cases x)
    case None
    with r a show thesis by (intro that [of "[]" P_ready]) (auto intro: api_steps.intros)
  next
    case (Some y)
    with r have "launch C K ctx y s1 = ((rc, ctx'), t)" by simp
    then show thesis by (rule launch_steps) (use that a in auto)
  qed
qed

text \<open>The dispatch on the command name.\<close>

lemma dispatch_steps:
  assumes "(if name = ''run'' then cmd_run C K ctx g s
    else if name = ''ps'' then let (r, s) = cmd_ps s in Some ((r, ctx), s)
    else Some ((1, ctx), print_usage prog (eprint msg s))) = Some ((r, ctx'), t)"
  obtains es p where "api t = api s @ es" "api_steps P_ready es p" "p \<in> {P_ready, P_none, P_running, P_gone}"
proof (cases "name = ''run''")
  case True
  with assms have "cmd_run C K ctx g s = Some ((r, ctx'), t)" by simp
  then show thesis by (rule cmd_run_steps) (rule that)
next
  case False
  with assms have "api t = api s" by (auto simp: cmd_ps_def print_usage_def split: if_splits)
  then show thesis by (intro that [of "[]" P_ready]) (auto intro: api_steps.intros)
qed

lemma main_command_steps:
  assumes "main_command C K ctx g s = Some (rc, t)"
  obtains es q where "api t = api s @ es" "api_steps P_start es q" "es = [] \<or> q = P_down"
    "es \<noteq> [] \<Longrightarrow> ret (fst (sys K Sys_geteuid s)) = 0"
proof -
  obtain u s1 where 1: "sys K Sys_geteuid s = (u, s1)" by force
  obtain rc2 ctx2 s2 where 2: "runtime_init C ctx s1 = ((rc2, ctx2), s2)" by (metis surj_pair)
  define g2 where "g2 = g\<lparr>optind := Suc (optind g)\<rparr>"
  define body where "body = (if argv g ! optind g = ''run'' then cmd_run C K ctx2 g2 s2
               else if argv g ! optind g = ''ps'' then let (r, s) = cmd_ps s2 in Some ((r, ctx2), s)
               else Some ((1, ctx2), print_usage (argv g2 ! 0) (eprint (''Unknown command: '' @ argv g ! optind g @ [CHR 0x0A]) s2)))"
  have eq: "main_command C K ctx g s = (if argc g \<le> optind g then Some (1, print_usage (argv g ! 0) s)
      else if ret u \<noteq> 0 then Some (1, eprint (''Error: cruntime requires root privileges'' @ [CHR 0x0A]) s1)
      else if rc2 \<noteq> CR_OK then Some (1, eprint (''Failed to initialize runtime'' @ [CHR 0x0A]) s2)
      else do { ((r, ctx), s) \<leftarrow> body; Some (r, runtime_cleanup C ctx s) })"
    unfolding main_command_def Let_def 1 2 prod.case body_def g2_def ..
  note a = core_calls(1) [OF 2] api_sys [OF 1]
  show thesis
  proof (cases "argc g \<le> optind g \<or> ret u \<noteq> 0")
    case True
    with assms a have "api t = api s" unfolding eq by (cases "argc g \<le> optind g") (auto simp: print_usage_def)
    with that [of "[]" P_start, OF _ api_steps.nil] show thesis by simp
  next
    case go: False
    show thesis
    proof (cases "rc2 = CR_OK")
      case False
      with assms go a have "api t = api s @ [Api_runtime_init rc2]" unfolding eq by auto
      with False go 1 show thesis
        by (intro that [of _ P_down]) (auto intro!: api_steps.intros intro: api_step.intros)
    next
      case True
      with assms go have "do { ((r, ctx), s) \<leftarrow> body; Some (r, runtime_cleanup C ctx s) } = Some (rc, t)"
        unfolding eq by simp
      then obtain r ctx3 s3 where 3: "body = Some ((r, ctx3), s3)" "t = runtime_cleanup C ctx3 s3"
        by (auto simp: bind_eq_Some_conv)
      obtain es p where es: "api s3 = api s2 @ es" "api_steps P_ready es p" "p \<in> {P_ready, P_none, P_running, P_gone}"
        using 3(1) unfolding body_def by (rule dispatch_steps)
      have "api_steps P_start (Api_runtime_init CR_OK # es @ [Api_runtime_cleanup]) P_down"
        using es by (intro api_steps.step [OF api_step.init] api_steps_append [OF es(2)])
          (auto intro!: api_steps.intros api_step.cleanup)
      moreover have "api t = api s @ Api_runtime_init CR_OK # es @ [Api_runtime_cleanup]"
        using es(1) a True by (simp add: 3(2) runtime_cleanup_def)
      ultimately show thesis using go 1 by (intro that [of _ P_down]) auto
    qed
  qed
qed

text \<open>C3. Whatever the command line and whatever the core and the system answer, the calls that a run
  of \<^verbatim>\<open>main\<close> makes into the core follow the protocol, and the machine is never left halfway: there
  is no call at all, or the last one is a failed \<^verbatim>\<open>runtime_init\<close> or the only \<^verbatim>\<open>runtime_cleanup\<close>.\<close>

theorem main_protocol:
  assumes "cruntime_main C K args s = Some (rc, t)"
  shows "\<exists>es q. api t = api s @ es \<and> api_steps P_start es q \<and> (es = [] \<or> q = P_down) \<and>
    (hd (es @ [Api_runtime_cleanup]) = Api_runtime_init CR_OK \<longrightarrow>
       last es = Api_runtime_cleanup \<and> Api_runtime_cleanup \<notin> set (butlast es))"
proof -
  obtain ctx r s1 where 1: "main_options 0 ctx (getopt0 args) s = Some (r, s1)"
    and rest: "(case r of Inl rc \<Rightarrow> Some (rc, s1) | Inr (ctx, g) \<Rightarrow> main_command C K ctx g s1) = Some (rc, t)"
    using assms by (auto simp: cruntime_main_def bind_eq_Some_conv split: if_splits)
  note a = main_options_keeps [OF 1]
  show ?thesis
  proof (cases r)
    case (Inl c)
    with rest a have "api t = api s" by simp
    then show ?thesis by (intro exI [of _ "[]"] exI [of _ P_start]) (auto intro: api_steps.intros)
  next
    case (Inr y)
    then obtain ctx' g where r: "main_command C K ctx' g s1 = Some (rc, t)" using rest by (cases y) auto
    from r obtain es q where es: "api t = api s @ es" "api_steps P_start es q" "es = [] \<or> q = P_down"
      by (rule main_command_steps) (use that a in auto)
    have "last es = Api_runtime_cleanup \<and> Api_runtime_cleanup \<notin> set (butlast es)"
      if "hd (es @ [Api_runtime_cleanup]) = Api_runtime_init CR_OK"
    proof -
      from that obtain es' where e: "es = Api_runtime_init CR_OK # es'" by (cases es) auto
      with es(2) obtain p where p: "api_step P_start (Api_runtime_init CR_OK) p" "api_steps p es' q"
        by (auto simp: api_steps_simps)
      then have "p = P_ready" by (auto elim: api_step_startE)
      with p(2) es(3) e api_steps_ends [of p es' q] show ?thesis by auto
    qed
    with es show ?thesis by blast
  qed
qed

text \<open>C12. Without root privileges nothing is done: the core is not called, the only request to the
  system is the one for the user, and the program reports an error unless it was asked for its help
  or version.\<close>

theorem main_needs_root:
  assumes "\<And>k. ret (fst (kcall K Sys_geteuid k)) \<noteq> 0" and "cruntime_main C K args s = Some (rc, t)"
  shows "api t = api s \<and> effects t = effects s \<and> (rc = 0 \<longrightarrow> trace t = trace s)"
proof -
  obtain ctx r s1 where 1: "main_options 0 ctx (getopt0 args) s = Some (r, s1)"
    and rest: "(case r of Inl rc \<Rightarrow> Some (rc, s1) | Inr (ctx, g) \<Rightarrow> main_command C K ctx g s1) = Some (rc, t)"
    using assms by (auto simp: cruntime_main_def bind_eq_Some_conv split: if_splits)
  note a = main_options_keeps [OF 1]
  then have e: "effects s1 = effects s" by (simp add: effects_def)
  show ?thesis
  proof (cases r)
    case (Inl c)
    with rest a e show ?thesis by simp
  next
    case (Inr y)
    then obtain ctx' g where r: "main_command C K ctx' g s1 = Some (rc, t)" using rest by (cases y) auto
    obtain u s2 where 2: "sys K Sys_geteuid s1 = (u, s2)" by force
    have "ret u \<noteq> 0" using assms(1) [of "kst s1"] 2 by (auto simp: sys_def split: prod.splits)
    with r effects_sys [OF 2] api_sys [OF 2] a e show ?thesis
      by (auto simp: main_command_def 2 print_usage_def split: if_splits)
  qed
qed

section \<open>The configuration is well-formed\<close>

text \<open>The arguments are strings and the pointers point into them.\<close>

definition getopt_inv :: "getopt_t \<Rightarrow> bool" where
  "getopt_inv g \<longleftrightarrow> (\<forall>a \<in> set (argv g). is_cstr a) \<and>
     (\<forall>i k. nextchar g = Some (i, k) \<or> optarg g = Some (i, k) \<longrightarrow> i < argc g) \<and> first_nonopt g \<le> last_nonopt g"

lemma getopt_inv_deref: "getopt_inv g \<Longrightarrow> optarg g = Some p \<Longrightarrow> is_cstr (deref g p)"
  by (cases p) (auto simp: getopt_inv_def deref_def argc_def)

lemma getopt_inv_update [simp]:
  "getopt_inv g \<Longrightarrow> getopt_inv (g\<lparr>optarg := None\<rparr>)" "getopt_inv (g\<lparr>optind := i\<rparr>) = getopt_inv g"
  by (auto simp: getopt_inv_def argc_def)

lemma exchange_inv:
  assumes "getopt_inv g" and "last_nonopt g \<le> optind g" and "optind g \<le> argc g"
  shows "getopt_inv (exchange g)" "argc (exchange g) = argc g" "first_nonopt (exchange g) \<le> argc g"
  using assms by (auto simp: getopt_inv_def exchange_def argc_def min_def dest!: in_set_takeD in_set_dropD)

lemma next_argument_inv:
  assumes "getopt_inv g"
  shows "getopt_inv (next_argument g)"
proof -
  define g1 where "g1 = g\<lparr>last_nonopt := min (last_nonopt g) (optind g), first_nonopt := min (first_nonopt g) (optind g)\<rparr>"
  have 1: "getopt_inv g1" "first_nonopt g1 \<le> optind g1" "last_nonopt g1 \<le> optind g1"
    using assms by (auto simp: getopt_inv_def g1_def argc_def)
  have "getopt_inv (skip_dashes g1)" if lt: "optind g1 < argc g1"
  proof -
    define g2 where "g2 = g1\<lparr>optind := Suc (optind g1)\<rparr>"
    have 2: "getopt_inv g2" "last_nonopt g2 \<le> optind g2" "optind g2 \<le> argc g2" "first_nonopt g2 \<le> argc g2"
      using 1 lt by (auto simp: g2_def argc_def)
    note e = exchange_inv [OF 2(1-3)]
    show ?thesis
      using 2 e by (auto simp: skip_dashes_def Let_def g2_def [symmetric] getopt_inv_def argc_def)
  qed
  with 1(1) show ?thesis by (simp add: next_argument_def Let_def g1_def [symmetric])
qed

lemma short_option_inv:
  assumes "getopt_inv g" and "fst p < argc g" and "short_option os ind p g s = (r, ind', g', s')"
  shows "getopt_inv g'"
  using assms
  by (auto simp: short_option_def getopt_inv_def argc_def Let_def split: option.splits if_splits)

lemma long_option_inv:
  assumes "getopt_inv g" and "optind g < argc g" and "long_option opts ind g s = (r, ind', g', s')"
  shows "getopt_inv g'"
  using assms
  by (auto simp: long_option_def getopt_inv_def argc_def Let_def split: option.splits sum.splits if_splits)

lemma getopt_long_inv:
  assumes "getopt_inv g" and "getopt_long os opts ind g s = (r, ind', g', s')"
  shows "getopt_inv g'"
proof (cases "argc g < 1 \<or> inside (g\<lparr>optarg := None\<rparr>)")
  case True
  have "fst (the (nextchar g)) < argc g" if "inside g"
    using assms(1) that by (auto simp: getopt_inv_def inside_def split: option.splits)
  with True assms short_option_inv [of "g\<lparr>optarg := None\<rparr>" "the (nextchar g)"] show ?thesis
    by (auto simp: getopt_long_def Let_def argc_def split: if_splits)
next
  case False
  define g2 where "g2 = next_argument (g\<lparr>optarg := None\<rparr>)"
  have 2: "getopt_inv g2" using assms(1) by (simp add: g2_def next_argument_inv)
  have "(if argc g2 \<le> optind g2 then
               (None, ind, (if first_nonopt g2 \<noteq> last_nonopt g2 then g2\<lparr>optind := first_nonopt g2\<rparr> else g2), s)
             else if is_nonoption (argv g2 ! optind g2) then (None, ind, g2, s)
             else if take 2 (argv g2 ! optind g2) = ''--'' then long_option opts ind g2 s
             else short_option os ind (optind g2, 1) g2 s) = (r, ind', g', s')"
    using assms(2) False unfolding getopt_long_def Let_def g2_def by simp
  with 2 long_option_inv [OF 2] short_option_inv [OF 2, of "(optind g2, 1)"] show ?thesis
    by (auto split: if_splits)
qed

lemma cut_at_inv: "getopt_inv g \<Longrightarrow> getopt_inv (cut_at g p n)"
  by (cases "fst p < argc g") (auto simp: getopt_inv_def cut_at_def argc_def list_update_beyond
      dest!: set_update_subset_insert [THEN subsetD])

lemma sint_plus1:
  assumes "0 \<le> sint (n :: 32 word)" and "sint n < 2 ^ 30"
  shows "sint (n + 1) = sint n + 1"
  using assms by (simp add: sint_word_ariths signed_take_bit_int_eq_self)

text \<open>One option keeps the configuration well-formed.\<close>

lemma wf_update_nth: "\<forall>x \<in> set xs. P x \<Longrightarrow> P y \<Longrightarrow> \<forall>x \<in> set (xs[i := y]). P x"
  using set_update_subset_insert [of xs i y] by auto

lemma wf_port_of: "is_cstr rest \<Longrightarrow> wf_port (port_of host rest)"
  by (auto simp: port_of_def wf_port_def fits_def strchr_split_Some length_strncpy_field split: option.split)

lemma opt_publish_wf:
  assumes "wf_config cfg" and "is_cstr (deref g p)" and "opt_publish cfg p g = Some (cfg', g')"
  shows "wf_config cfg'"
proof (cases "strchr_split (CHR '':'') (deref g p)")
  case None
  with assms show ?thesis by (simp add: opt_publish_def)
next
  case (Some y)
  then obtain host rest where y: "strchr_split (CHR '':'') (deref g p) = Some (host, rest)" by (cases y) auto
  let ?n = "nw_num_ports (cfg_network cfg)"
  have "is_cstr rest" using assms(2) y by (simp add: strchr_split_Some)
  note port = wf_port_of [OF this, of host]
  show ?thesis
  proof (cases "sint ?n < int MAX_PORTS")
    case True
    then obtain ports where ports: "put_nth (nw_ports (cfg_network cfg)) (nat (sint ?n)) (port_of host rest) = Some ports"
      and c: "cfg' = cfg\<lparr>cfg_network := (cfg_network cfg)\<lparr>nw_ports := ports, nw_num_ports := ?n + 1\<rparr>\<rparr>"
      using assms(3) y by (auto simp: opt_publish_def Let_def bind_eq_Some_conv)
    have n: "0 \<le> sint ?n" "sint (?n + 1) = sint ?n + 1"
      using assms(1) True sint_plus1 [of ?n] by (auto simp: wf_config_def wf_network_def MAX_PORTS_def)
    have ps: "length ports = MAX_PORTS" "\<forall>p \<in> set ports. wf_port p"
      using assms(1) ports port by (auto simp: put_nth_def wf_config_def wf_network_def split: if_splits
          dest: set_update_subset_insert [THEN subsetD])
    from assms(1) ps n True show ?thesis by (simp add: c wf_config_def wf_network_def)
  qed (use assms y in \<open>simp add: opt_publish_def Let_def\<close>)
qed

lemma opt_volume_wf:
  assumes "wf_config cfg" and "is_cstr (deref g p)" and "opt_volume cfg p g = Some (cfg', g')"
  shows "wf_config cfg'"
proof (cases "sint (cfg_num_mounts cfg) < int MAX_MOUNTS")
  case True
  let ?n = "cfg_num_mounts cfg"
  show ?thesis
  proof (cases "strchr_split (CHR '':'') (deref g p)")
    case None
    with assms True show ?thesis by (simp add: opt_volume_def)
  next
    case (Some y)
    then obtain src tgt where y: "strchr_split (CHR '':'') (deref g p) = Some (src, tgt)" by (cases y) auto
    define m where "m = (cfg_mounts cfg ! nat (sint ?n))\<lparr>mp_source := strncpy_field MAX_PATH_LEN src,
      mp_target := strncpy_field MAX_PATH_LEN tgt, mp_fstype := ''bind'', mp_flags := MS_BIND\<rparr>"
    obtain ms where ms: "put_nth (cfg_mounts cfg) (nat (sint ?n)) m = Some ms"
      and c: "cfg' = cfg\<lparr>cfg_mounts := ms, cfg_num_mounts := ?n + 1\<rparr>"
      using assms(3) y True by (auto simp: opt_volume_def Let_def bind_eq_Some_conv m_def)
    have n: "0 \<le> sint ?n" "sint (?n + 1) = sint ?n + 1"
      using assms(1) True sint_plus1 [of ?n] by (auto simp: wf_config_def MAX_MOUNTS_def)
    have "nat (sint ?n) < length (cfg_mounts cfg)" using assms(1) True n by (simp add: wf_config_def)
    then have "wf_mount (cfg_mounts cfg ! nat (sint ?n))" using assms(1) by (simp add: wf_config_def)
    then have "wf_mount m" using y assms(2) by (auto simp: m_def wf_mount_def strchr_split_Some fits_def length_strncpy_field)
    then have "length ms = MAX_MOUNTS" "\<forall>m \<in> set ms. wf_mount m"
      using assms(1) ms by (auto simp: put_nth_def wf_config_def split: if_splits dest: set_update_subset_insert [THEN subsetD])
    with assms(1) n True show ?thesis by (simp add: c wf_config_def)
  qed
qed (use assms in \<open>simp add: opt_volume_def\<close>)

lemma opt_env_wf: "wf_config cfg \<Longrightarrow> opt_env cfg a = Some cfg' \<Longrightarrow> wf_config cfg'"
  by (auto simp: opt_env_def bind_eq_Some_conv wf_config_def split: if_splits)

lemma r_config_set [simp]: "r_config (set_config x c) = c"
  by (simp add: set_config_def)

lemma opt_long_only_wf:
  assumes "wf_config (r_config x)" and "getopt_inv g" and "opt_long_only i x g = Some x'"
  shows "wf_config (r_config x')"
proof -
  have [simp]: "is_cstr (deref g p)" if "optarg g = Some p" for p using getopt_inv_deref [OF assms(2) that] .
  show ?thesis using assms(1,3)
    by (auto simp: opt_long_only_def Let_def bind_eq_Some_conv wf_config_def wf_network_def split: if_splits)
qed

lemma run_option_wf:
  assumes "wf_config (r_config x)" and "getopt_inv g" and "run_option c i x g = Some (Some (x', g'))"
  shows "wf_config (r_config x') \<and> getopt_inv g'"
proof -
  have g: "is_cstr (deref g p)" if "optarg g = Some p" for p using getopt_inv_deref [OF assms(2) that] .
  have "wf_config (r_config x')"
  proof (cases "c = CHR ''p'' \<or> c = CHR ''v'' \<or> c = CHR ''e'' \<or> c = NUL")
    case True
    then show ?thesis
    proof (elim disjE)
      assume "c = CHR ''p''"
      with assms(3) obtain p cfg where "optarg g = Some p" "opt_publish (r_config x) p g = Some (cfg, g')" "x' = set_config x cfg"
        by (auto simp: run_option_def Let_def bind_eq_Some_conv)
      then show ?thesis using opt_publish_wf [OF assms(1) g] by simp
    next
      assume "c = CHR ''v''"
      with assms(3) obtain p cfg where "optarg g = Some p" "opt_volume (r_config x) p g = Some (cfg, g')" "x' = set_config x cfg"
        by (auto simp: run_option_def Let_def bind_eq_Some_conv)
      then show ?thesis using opt_volume_wf [OF assms(1) g] by simp
    next
      assume "c = CHR ''e''"
      with assms(3) show ?thesis using opt_env_wf [OF assms(1)]
        by (auto simp: run_option_def Let_def bind_eq_Some_conv)
    next
      assume "c = NUL"
      with assms(3) show ?thesis using opt_long_only_wf [OF assms(1,2)]
        by (auto simp: run_option_def Let_def bind_eq_Some_conv)
    qed
  next
    case False
    with assms(1,3) g show ?thesis
      by (auto simp: run_option_def Let_def bind_eq_Some_conv wf_config_def split: if_splits)
  qed
  moreover have "getopt_inv g'"
    using run_option_moves [OF assms(3)] assms(2) cut_at_inv by auto
  ultimately show ?thesis ..
qed

text \<open>What no option changes.\<close>

definition same_base :: "container_config_t \<Rightarrow> container_config_t \<Rightarrow> bool" where
  "same_base a b \<longleftrightarrow> cfg_id b = cfg_id a \<and> cfg_args b = cfg_args a \<and> cfg_command b = cfg_command a \<and>
     cfg_namespaces b = cfg_namespaces a \<and> cfg_uid b = cfg_uid a \<and> cfg_gid b = cfg_gid a \<and>
     cfg_privileged b = cfg_privileged a \<and>
     cpu_shares (cfg_limits b) = cpu_shares (cfg_limits a) \<and> nw_subnet (cfg_network b) = nw_subnet (cfg_network a)"

lemma opt_same_base:
  "opt_publish cfg p g = Some (cfg', g') \<Longrightarrow> same_base cfg cfg'"
  "opt_volume cfg p g = Some (cfg', g') \<Longrightarrow> same_base cfg cfg'"
  "opt_env cfg a = Some cfg' \<Longrightarrow> same_base cfg cfg'"
  by (auto simp: opt_publish_def opt_volume_def opt_env_def Let_def bind_eq_Some_conv same_base_def split: if_splits option.splits)

lemma run_option_same_base: "run_option c i x g = Some (Some (x', g')) \<Longrightarrow> same_base (r_config x) (r_config x')"
  by (auto simp: run_option_def opt_long_only_def Let_def bind_eq_Some_conv split: if_splits dest!: opt_same_base)
    (auto simp: same_base_def)

lemma run_options_same_base:
  "run_options ind x g s = Some (r, t) \<Longrightarrow> case r of None \<Rightarrow> True | Some (x', g') \<Rightarrow> same_base (r_config x) (r_config x')"
proof (induction rule: run_loop.loop_induct)
  case (step ind x g s c ind1 g1 s1 x' g' s2 r t)
  with run_option_same_base [of c ind1 x g1 x' g'] show ?case by (auto simp: same_base_def split: option.splits)
qed (simp_all add: same_base_def)

lemma run_options_wf:
  "run_options ind x g s = Some (r, t) \<Longrightarrow> wf_config (r_config x) \<Longrightarrow> getopt_inv g \<Longrightarrow>
     case r of None \<Rightarrow> True | Some (x', g') \<Rightarrow> wf_config (r_config x') \<and> getopt_inv g'"
proof (induction rule: run_loop.loop_induct)
  case (stop ind x g s ind1 g1 s1)
  with getopt_long_inv [OF stop.prems(2) stop.hyps] show ?case by simp
next
  case (step ind x g s c ind1 g1 s1 x' g' s2 r t)
  with getopt_long_inv [OF step.prems(2) step.hyps(1)] run_option_wf [of x g1 c ind1 x' g'] show ?case by simp
qed simp

lemma main_options_inv:
  "main_options ind ctx g s = Some (r, t) \<Longrightarrow> getopt_inv g \<Longrightarrow>
     case r of Inl _ \<Rightarrow> True | Inr (ctx', g') \<Rightarrow> getopt_inv g' \<and> rt_image_dir ctx' = rt_image_dir ctx"
proof (induction rule: main_loop.loop_induct)
  case (stop ind ctx g s ind1 g1 s1)
  with getopt_long_inv [OF stop.prems stop.hyps] show ?case by simp
next
  case (step ind ctx g s c ind1 g1 s1 ctx' g' s2 r t)
  then have "rt_image_dir ctx' = rt_image_dir ctx"
    by (auto simp: main_option_def bind_eq_Some_conv split: if_splits)
  with step getopt_long_inv [OF step.prems step.hyps(1)] show ?case by (auto split: sum.splits)
qed auto

lemma getopt0_inv: "\<forall>a \<in> set args. is_cstr a \<Longrightarrow> getopt_inv (getopt0 args)"
  by (simp add: getopt_inv_def getopt0_def)

lemma wf_default_config: "fits 65 ident \<Longrightarrow> wf_config (default_config ident uid gid)"
  by (simp add: default_config_def zero_config_def wf_config_def wf_network_def zero_network_def wf_mount_def
      zero_mount_def wf_port_def zero_port_def fits_def)

lemma initial_ctx_image_dir: "initial_ctx = Some ctx \<Longrightarrow> rt_image_dir ctx = ''/var/lib/cruntime/images''"
  by (auto simp: initial_ctx_def bind_eq_Some_conv)

lemma run_config_props:
  assumes "\<forall>a \<in> set args. is_cstr a" and "initial_ctx = Some ctx0"
    and "main_options 0 ctx0 (getopt0 args) s0 = Some (Inr (ctx, g), s1)"
    and "run_config K ctx (g\<lparr>optind := Suc (optind g)\<rparr>) s2 = Some (Some x, t)"
  shows "wf_config (r_config x) \<and>
    (cfg_args (r_config x) \<noteq> [] \<longrightarrow> cfg_command (r_config x) = Some (hd (cfg_args (r_config x))) \<and>
       cfg_num_args (r_config x) = word_of_nat (length (cfg_args (r_config x)))) \<and>
    cpu_shares (cfg_limits (r_config x)) = 1024 \<and> nw_subnet (cfg_network (r_config x)) = ''172.17.0.0/16''"
proof -
  let ?g = "g\<lparr>optind := Suc (optind g)\<rparr>"
  have g: "getopt_inv ?g" "rt_image_dir ctx = ''/var/lib/cruntime/images''"
    using main_options_inv [OF assms(3) getopt0_inv [OF assms(1)]] initial_ctx_image_dir [OF assms(2)] by simp_all
  obtain b s3 ident where 1: "generate_id K (zeroed 65) 65 s2 = Some (b, s3)" "cbuf_str b = Some ident"
    using assms(4) by (auto simp: run_config_def bind_eq_Some_conv)
  obtain u s4 where 2: "sys K Sys_getuid s3 = (u, s4)" by force
  obtain v s5 where 3: "sys K Sys_getgid s4 = (v, s5)" by force
  define x0 where "x0 = \<lparr>r_config = default_config ident (word_of_int (ret u)) (word_of_int (ret v)),
      r_detach = False, r_remove = False\<rparr>"
  obtain r s6 where 4: "run_options 0 x0 ?g s5 = Some (r, s6)"
    and r: "(case r of None \<Rightarrow> Some (None, s6) | Some (x, g) \<Rightarrow>
      if argc g \<le> optind g then Some (None, eprint (''Error: missing image name'' @ [CHR 0x0A]) s6)
      else Some (Some (set_config x (image_and_command ctx (r_config x) g)), s6)) = Some (Some x, t)"
    using assms(4) unfolding run_config_def 1 bind.bind_lunit prod.case Let_def 2 3 x0_def [symmetric]
    by (cases "run_options 0 x0 ?g s5") auto
  from r obtain x1 g1 where x1: "r = Some (x1, g1)" "optind g1 < argc g1"
    "x = set_config x1 (image_and_command ctx (r_config x1) g1)"
    by (cases r) (auto split: if_splits)
  note base = run_options_same_base [OF 4]
  have "fits 65 ident"
    using 1 generate_id_string(1) [OF 1(1)] cbuf_str_length [OF 1(2)] cbuf_str_Some [of b ident] by (auto simp: fits_def zeroed_def)
  then have "wf_config (r_config x0)" by (simp add: x0_def wf_default_config)
  from run_options_wf [OF 4 this g(1)] have w: "wf_config (r_config x1)" "getopt_inv g1" by (simp_all add: x1)
  have "is_cstr (argv g1 ! optind g1)" using w(2) x1(2) by (simp add: getopt_inv_def argc_def)
  with w(1) have "wf_config (r_config x)"
    by (simp add: x1(3) image_and_command_def Let_def wf_config_def g(2))
  moreover have "cfg_args (r_config x1) = []"
    using base by (simp add: x1 same_base_def x0_def default_config_def zero_config_def)
  moreover have "cpu_shares (cfg_limits (r_config x)) = 1024" "nw_subnet (cfg_network (r_config x)) = ''172.17.0.0/16''"
    using base by (simp_all add: x1 same_base_def x0_def default_config_def image_and_command_def Let_def)
  ultimately show ?thesis
    by (auto simp: x1(3) image_and_command_def Let_def argc_def hd_drop_conv_nth of_nat_diff)
qed

text \<open>C11. The configuration that \<^verbatim>\<open>cmd_run\<close> hands to \<^verbatim>\<open>container_create\<close> is well-formed for every command
  line, however long its strings and however often its options are repeated: every string is
  terminated inside its array, the counters of ports and mounts stay within their arrays, and
  the argument vector, when there is one, starts with the command and has as many elements as
  its counter says.\<close>

theorem run_config_wf:
  assumes "\<forall>a \<in> set args. is_cstr a" and "initial_ctx = Some ctx0"
    and "main_options 0 ctx0 (getopt0 args) s0 = Some (Inr (ctx, g), s1)"
    and "run_config K ctx (g\<lparr>optind := Suc (optind g)\<rparr>) s2 = Some (Some x, t)"
  shows "wf_config (r_config x) \<and>
    (cfg_args (r_config x) \<noteq> [] \<longrightarrow> cfg_command (r_config x) = Some (hd (cfg_args (r_config x))) \<and>
       cfg_num_args (r_config x) = word_of_nat (length (cfg_args (r_config x))))"
  using run_config_props [OF assms] by blast

end
