(* ===== verification/CliSpec.thy ===== *)
theory CliSpec
  imports Cli
begin

text \<open>
  What the command line of \<^verbatim>\<open>run\<close> means, without \<^verbatim>\<open>getopt_long\<close>: a list of options, each written in
  one of its forms, does to the configuration what the options do one after the other.
\<close>

section \<open>The meaning of an option\<close>

datatype run_opt =
    O_name string | O_hostname string | O_memory string | O_cpus string | O_network string | O_ip string
  | O_publish string | O_volume string | O_env string | O_workdir string | O_detach | O_rm

fun opt_index :: "run_opt \<Rightarrow> nat" where
  "opt_index (O_name _) = 0"
| "opt_index (O_hostname _) = 1"
| "opt_index (O_memory _) = 2"
| "opt_index (O_cpus _) = 3"
| "opt_index (O_network _) = 4"
| "opt_index (O_ip _) = 5"
| "opt_index (O_publish _) = 6"
| "opt_index (O_volume _) = 7"
| "opt_index (O_env _) = 8"
| "opt_index (O_workdir _) = 9"
| "opt_index O_detach = 10"
| "opt_index O_rm = 11"

fun opt_value :: "run_opt \<Rightarrow> string option" where
  "opt_value (O_name v) = Some v"
| "opt_value (O_hostname v) = Some v"
| "opt_value (O_memory v) = Some v"
| "opt_value (O_cpus v) = Some v"
| "opt_value (O_network v) = Some v"
| "opt_value (O_ip v) = Some v"
| "opt_value (O_publish v) = Some v"
| "opt_value (O_volume v) = Some v"
| "opt_value (O_env v) = Some v"
| "opt_value (O_workdir v) = Some v"
| "opt_value O_detach = None"
| "opt_value O_rm = None"

text \<open>The forms of an option of a table: \<^verbatim>\<open>--name value\<close>, \<^verbatim>\<open>--name=value\<close>, and with a letter
  \<^verbatim>\<open>-n value\<close> and \<^verbatim>\<open>-nvalue\<close>.\<close>

definition spells :: "option_t \<Rightarrow> string option \<Rightarrow> string list \<Rightarrow> bool" where
  "spells lo value args \<longleftrightarrow>
     (case value of
        None \<Rightarrow> \<not> has_arg lo \<and> (args = [''--'' @ lo_name lo] \<or> lo_val lo \<noteq> NUL \<and> args = [[CHR ''-'', lo_val lo]])
      | Some v \<Rightarrow> has_arg lo \<and> (args = [''--'' @ lo_name lo, v] \<or> args = [''--'' @ lo_name lo @ CHR ''='' # v] \<or>
          lo_val lo \<noteq> NUL \<and> (args = [[CHR ''-'', lo_val lo], v] \<or> v \<noteq> [] \<and> args = [CHR ''-'' # lo_val lo # v])))"

definition spelled :: "run_opt \<Rightarrow> string list \<Rightarrow> bool" where
  "spelled opt args = spells (run_long_options ! opt_index opt) (opt_value opt) args"

definition add_port :: "container_config_t \<Rightarrow> string \<Rightarrow> container_config_t" where
  "add_port cfg v =
     (case strchr_split (CHR '':'') v of
        None \<Rightarrow> cfg
      | Some (host, rest) \<Rightarrow>
          let nw = cfg_network cfg; n = nw_num_ports nw in
          if sint n < int MAX_PORTS then
            cfg\<lparr>cfg_network := nw\<lparr>nw_ports := (nw_ports nw)[nat (sint n) := port_of host rest], nw_num_ports := n + 1\<rparr>\<rparr>
          else cfg)"

definition add_volume :: "container_config_t \<Rightarrow> string \<Rightarrow> container_config_t" where
  "add_volume cfg v =
     (case strchr_split (CHR '':'') v of
        None \<Rightarrow> cfg
      | Some (src, tgt) \<Rightarrow>
          let n = cfg_num_mounts cfg; i = nat (sint n) in
          if sint n < int MAX_MOUNTS then
            cfg\<lparr>cfg_mounts := (cfg_mounts cfg)[i := (cfg_mounts cfg ! i)\<lparr>
                  mp_source := strncpy_field MAX_PATH_LEN src, mp_target := strncpy_field MAX_PATH_LEN tgt,
                  mp_fstype := ''bind'', mp_flags := MS_BIND\<rparr>],
                cfg_num_mounts := n + 1\<rparr>
          else cfg)"

text \<open>Sizes and quotas out of the range of \<^verbatim>\<open>int64_t\<close> are undefined, and so is every \<^verbatim>\<open>-e\<close>.\<close>

fun meaning :: "run_opt \<Rightarrow> run_t \<Rightarrow> run_t option" where
  "meaning (O_name v) x = Some (set_config x ((r_config x)\<lparr>cfg_name := strncpy_field MAX_CONTAINER_NAME v\<rparr>))"
| "meaning (O_hostname v) x = Some (set_config x ((r_config x)\<lparr>cfg_hostname := strncpy_field 256 v\<rparr>))"
| "meaning (O_memory v) x = map_option (\<lambda>n. set_config x ((r_config x)\<lparr>cfg_limits :=
     (cfg_limits (r_config x))\<lparr>memory_limit := word_of_int n\<rparr>\<rparr>)) (parse_size v)"
| "meaning (O_cpus v) x = map_option (\<lambda>n. set_config x ((r_config x)\<lparr>cfg_limits :=
     (cfg_limits (r_config x))\<lparr>cpu_quota := word_of_int n\<rparr>\<rparr>)) (int64_of_double (dmul (atof v) (double_of_int 100000)))"
| "meaning (O_network v) x = Some (set_config x ((r_config x)\<lparr>cfg_network :=
     (cfg_network (r_config x))\<lparr>nw_bridge_name := strncpy_field 64 v\<rparr>\<rparr>))"
| "meaning (O_ip v) x = Some (set_config x ((r_config x)\<lparr>cfg_network :=
     (cfg_network (r_config x))\<lparr>nw_ip_address := strncpy_field 64 v\<rparr>\<rparr>))"
| "meaning (O_publish v) x = Some (set_config x (add_port (r_config x) v))"
| "meaning (O_volume v) x = Some (set_config x (add_volume (r_config x) v))"
| "meaning (O_env v) x = None"
| "meaning (O_workdir v) x = Some (set_config x ((r_config x)\<lparr>cfg_working_dir := strncpy_field MAX_PATH_LEN v\<rparr>))"
| "meaning O_detach x = Some (x\<lparr>r_detach := True\<rparr>)"
| "meaning O_rm x = Some (x\<lparr>r_remove := True\<rparr>)"

fun meanings :: "run_opt list \<Rightarrow> run_t \<Rightarrow> run_t option" where
  "meanings [] x = Some x"
| "meanings (opt # opts) x = do { x \<leftarrow> meaning opt x; meanings opts x }"

section \<open>Finding an option of the table\<close>

text \<open>What the scan needs to know of the tables: names are found, letters stand in the option
  string, with a colon exactly if the option has an argument.\<close>

definition in_table :: "string \<Rightarrow> option_t list \<Rightarrow> nat \<Rightarrow> bool" where
  "in_table optstring opts i \<longleftrightarrow>
     (let lo = opts ! i in
      lo_name lo \<noteq> [] \<and> CHR ''='' \<notin> set (lo_name lo) \<and> find_long (lo_name lo) opts = Inr (Some i) \<and>
      (lo_val lo = NUL \<or> lo_val lo \<notin> {CHR ''-'', CHR '':'', CHR '';''} \<and>
        (case strchr_split (lo_val lo) optstring of None \<Rightarrow> False | Some (x, y) \<Rightarrow> (take 1 y = '':'') = has_arg lo)))"

lemma run_table: "\<forall>i \<in> set [0..<12]. in_table run_optstring run_long_options i"
  by code_simp

lemma main_table: "\<forall>i \<in> set [0..<4]. in_table main_optstring main_long_options i"
  by code_simp

lemma take1_eq: "take 1 y = [c] \<longleftrightarrow> (\<exists>z. y = c # z)"
  by (cases y) auto

lemma found_arg:
  assumes "in_table os opts i" and "spells (opts ! i) (Some v) args" and "clean g" and "args_left g = args @ r"
  obtains j g' where "getopt_long os opts ind g s = (Some (lo_val (opts ! i)), j, g', s)"
    "finds_arg g (length args) r v g'" "lo_val (opts ! i) = NUL \<Longrightarrow> j = i"
proof -
  let ?lo = "opts ! i"
  have t: "lo_name ?lo \<noteq> []" "CHR ''='' \<notin> set (lo_name ?lo)" "find_long (lo_name ?lo) opts = Inr (Some i)"
    and c: "lo_val ?lo \<noteq> NUL \<Longrightarrow> lo_val ?lo \<noteq> CHR ''-'' \<and> lo_val ?lo \<notin> {CHR '':'', CHR '';''} \<and>
      (case strchr_split (lo_val ?lo) os of None \<Rightarrow> False | Some (x, y) \<Rightarrow> (take 1 y = '':'') = has_arg ?lo)"
    using assms(1) by (auto simp: in_table_def Let_def)
  have a: "has_arg ?lo" and forms: "args = [''--'' @ lo_name ?lo, v] \<or> args = [''--'' @ lo_name ?lo @ CHR ''='' # v] \<or>
          lo_val ?lo \<noteq> NUL \<and> (args = [[CHR ''-'', lo_val ?lo], v] \<or> v \<noteq> [] \<and> args = [CHR ''-'' # lo_val ?lo # v])"
    using assms(2) by (auto simp: spells_def)
  have sc: "\<exists>x y. strchr_split (lo_val ?lo) os = Some (x, CHR '':'' # y)" if "lo_val ?lo \<noteq> NUL"
    using c [OF that] a by (auto simp del: One_nat_def simp: take1_eq split: option.splits)
  from forms show thesis
  proof (elim disjE conjE)
    assume f: "args = [''--'' @ lo_name ?lo, v]"
    with assms(4) have left: "args_left g = (''--'' @ lo_name ?lo) # v # r" by simp
    show thesis
      by (rule getopt_long_separate [OF assms(3) left t a, where optstring = os and ind = ind and s = s]) (use that f in \<open>simp add: numeral_2_eq_2\<close>)
  next
    assume f: "args = [''--'' @ lo_name ?lo @ CHR ''='' # v]"
    with assms(4) have left: "args_left g = (''--'' @ lo_name ?lo @ CHR ''='' # v) # r" by simp
    show thesis
      by (rule getopt_long_joined [OF assms(3) left t(2,3) a, where optstring = os and ind = ind and s = s]) (use that f in simp)
  next
    assume n: "lo_val ?lo \<noteq> NUL" and f: "args = [[CHR ''-'', lo_val ?lo], v]"
    with assms(4) have left: "args_left g = [CHR ''-'', lo_val ?lo] # v # r" by simp
    from sc [OF n] obtain x y where xy: "strchr_split (lo_val ?lo) os = Some (x, CHR '':'' # y)" by blast
    show thesis
      by (rule getopt_short_separate [OF assms(3) left _ _ xy]) (use that f c [OF n] n in \<open>simp_all add: numeral_2_eq_2\<close>)
  next
    assume n: "lo_val ?lo \<noteq> NUL" and v: "v \<noteq> []" and f: "args = [CHR ''-'' # lo_val ?lo # v]"
    with assms(4) have left: "args_left g = (CHR ''-'' # lo_val ?lo # v) # r" by simp
    from sc [OF n] obtain x y where xy: "strchr_split (lo_val ?lo) os = Some (x, CHR '':'' # y)" by blast
    show thesis
      by (rule getopt_short_joined [OF assms(3) left v _ _ xy]) (use that f c [OF n] n in simp_all)
  qed
qed

lemma found_flag:
  assumes "in_table os opts i" and "spells (opts ! i) None args" and "clean g" and "args_left g = args @ r"
  obtains j g' where "getopt_long os opts ind g s = (Some (lo_val (opts ! i)), j, g', s)"
    "clean g'" "args_left g' = r" "lo_val (opts ! i) = NUL \<Longrightarrow> j = i"
proof -
  let ?lo = "opts ! i"
  have t: "lo_name ?lo \<noteq> []" "CHR ''='' \<notin> set (lo_name ?lo)" "find_long (lo_name ?lo) opts = Inr (Some i)"
    and c: "lo_val ?lo \<noteq> NUL \<Longrightarrow> lo_val ?lo \<noteq> CHR ''-'' \<and> lo_val ?lo \<notin> {CHR '':'', CHR '';''} \<and>
      (case strchr_split (lo_val ?lo) os of None \<Rightarrow> False | Some (x, y) \<Rightarrow> (take 1 y = '':'') = has_arg ?lo)"
    using assms(1) by (auto simp: in_table_def Let_def)
  have a: "\<not> has_arg ?lo" and forms: "args = [''--'' @ lo_name ?lo] \<or>
      lo_val ?lo \<noteq> NUL \<and> args = [[CHR ''-'', lo_val ?lo]]"
    using assms(2) by (auto simp: spells_def)
  from forms show thesis
  proof (elim disjE conjE)
    assume f: "args = [''--'' @ lo_name ?lo]"
    with assms(4) have left: "args_left g = (''--'' @ lo_name ?lo) # r" by simp
    show thesis
    proof (rule getopt_long_flag [OF assms(3) left t a, of os ind s])
      fix g'
      assume "getopt_long os opts ind g s = (Some (lo_val ?lo), i, g', s)" "finds g 1 r g'"
      then show thesis using that by (simp add: finds_def)
    qed
  next
    assume n: "lo_val ?lo \<noteq> NUL" and f: "args = [[CHR ''-'', lo_val ?lo]]"
    with assms(4) have left: "args_left g = [CHR ''-'', lo_val ?lo] # r" by simp
    from c [OF n] a obtain x y where xy: "strchr_split (lo_val ?lo) os = Some (x, y)" "take 1 y \<noteq> '':''"
      by (auto split: option.splits)
    show thesis
    proof (rule getopt_short_flag [OF assms(3) left _ _ xy])
      fix g'
      assume "getopt_long os opts ind g s = (Some (lo_val ?lo), ind, g', s)" "clean g'" "args_left g' = r"
      then show thesis using that n by blast
    qed (use c [OF n] in simp_all)
  qed
qed

section \<open>The loop does what the options mean\<close>

lemma args_left_cut: "fst p < optind g \<Longrightarrow> args_left (cut_at g p n) = args_left g"
  by (simp add: args_left_def cut_at_def)

lemma clean_optind: "clean g \<Longrightarrow> optind g \<le> i \<Longrightarrow> clean (g\<lparr>optind := i\<rparr>)"
  by (auto simp: clean_def inside_def deref_def split: option.splits)

lemma clean_cut: "clean g \<Longrightarrow> clean (cut_at g p n)"
proof -
  assume c: "clean g"
  have "drop k ((argv g)[fst p := take m (argv g ! fst p)] ! i) = []" if "drop k (argv g ! i) = []" for i k m
    using that by (cases "i = fst p"; cases "fst p < length (argv g)") (auto simp: list_update_beyond)
  with c show "clean (cut_at g p n)"
    by (auto simp: clean_def cut_at_def inside_def deref_def split: option.splits)
qed

text \<open>What the branches rely on: the arrays have their sizes, and there is no environment.\<close>

definition ready :: "run_t \<Rightarrow> bool" where
  "ready x \<longleftrightarrow> length (nw_ports (cfg_network (r_config x))) = MAX_PORTS \<and> length (cfg_mounts (r_config x)) = MAX_MOUNTS \<and>
     cfg_env (r_config x) = None \<and> cfg_num_env (r_config x) = 0"

lemma ready_meaning: "ready x \<Longrightarrow> meaning opt x = Some x' \<Longrightarrow> ready x'"
  by (cases opt) (auto simp: ready_def add_port_def add_volume_def set_config_def Let_def split: option.splits)

lemma put_nth_fits: "i < length xs \<Longrightarrow> put_nth xs i x = Some (xs[i := x])"
  by (simp add: put_nth_def)

lemma opt_publish_meaning:
  assumes "length (nw_ports (cfg_network cfg)) = MAX_PORTS"
  shows "\<exists>n. opt_publish cfg p g = Some (add_port cfg (deref g p), cut_at g p n) \<or>
    opt_publish cfg p g = Some (add_port cfg (deref g p), g)"
proof -
  let ?n = "nw_num_ports (cfg_network cfg)"
  have "nat (sint ?n) < length (nw_ports (cfg_network cfg))" if "sint ?n < int MAX_PORTS"
    using that assms by (cases "0 \<le> sint ?n") (simp_all add: nat_less_iff)
  then show ?thesis by (auto simp: opt_publish_def add_port_def Let_def put_nth_fits split: option.split)
qed

lemma opt_volume_meaning:
  assumes "length (cfg_mounts cfg) = MAX_MOUNTS"
  shows "\<exists>n. opt_volume cfg p g = Some (add_volume cfg (deref g p), cut_at g p n) \<or>
    opt_volume cfg p g = Some (add_volume cfg (deref g p), g)"
proof -
  let ?n = "cfg_num_mounts cfg"
  have "nat (sint ?n) < length (cfg_mounts cfg)" if "sint ?n < int MAX_MOUNTS"
    using that assms by (cases "0 \<le> sint ?n") (simp_all add: nat_less_iff)
  then show ?thesis by (auto simp: opt_volume_def add_volume_def Let_def put_nth_fits split: option.split)
qed

text \<open>The branch of the \<^verbatim>\<open>switch\<close> that an option selects.\<close>

definition selects :: "run_opt \<Rightarrow> nat \<Rightarrow> run_t \<Rightarrow> getopt_t \<Rightarrow> bool" where
  "selects opt j x g \<longleftrightarrow>
     (case meaning opt x of
        None \<Rightarrow> run_option (lo_val (run_long_options ! opt_index opt)) j x g = None
      | Some x' \<Rightarrow> \<exists>n g2. run_option (lo_val (run_long_options ! opt_index opt)) j x g = Some (Some (x', g2)) \<and>
          (g2 = g \<or> g2 = cut_at g (the (optarg g)) n))"

lemma selects_arg:
  assumes "optarg g = Some p" and "opt_value opt = Some (deref g p)" and "ready x"
    and "lo_val (run_long_options ! opt_index opt) = NUL \<Longrightarrow> j = opt_index opt"
  shows "selects opt j x g"
proof (cases opt)
  case (O_publish v)
  with assms(1,2) opt_publish_meaning [of "r_config x" p g] assms(3) show ?thesis
    by (auto simp: selects_def run_long_options_def run_option_def Let_def ready_def)
next
  case (O_volume v)
  with assms(1,2) opt_volume_meaning [of "r_config x" p g] assms(3) show ?thesis
    by (auto simp: selects_def run_long_options_def run_option_def Let_def ready_def)
next
  case (O_env v)
  with assms show ?thesis
    by (simp add: selects_def run_long_options_def run_option_def Let_def opt_env_def ready_def MAX_ENV_VARS_def)
next
  case (O_network v)
  with assms show ?thesis
    by (auto simp: selects_def run_long_options_def run_option_def opt_long_only_def Let_def)
next
  case (O_ip v)
  with assms show ?thesis
    by (auto simp: selects_def run_long_options_def run_option_def opt_long_only_def Let_def)
next
  case (O_memory v)
  with assms(1,2) show ?thesis
    by (cases "parse_size v") (auto simp: selects_def run_long_options_def run_option_def Let_def)
next
  case (O_cpus v)
  with assms(1,2) show ?thesis
    by (cases "int64_of_double (dmul (atof v) (double_of_int 100000))")
      (auto simp: selects_def run_long_options_def run_option_def Let_def)
qed (use assms(1,2) in \<open>auto simp: selects_def run_long_options_def run_option_def Let_def\<close>)

lemma selects_flag:
  assumes "opt_value opt = None" and "lo_val (run_long_options ! opt_index opt) = NUL \<Longrightarrow> j = opt_index opt"
  shows "\<exists>x'. meaning opt x = Some x' \<and> run_option (lo_val (run_long_options ! opt_index opt)) j x g = Some (Some (x', g))"
  using assms
  by (cases opt) (auto simp: selects_def run_long_options_def run_option_def opt_long_only_def Let_def)

text \<open>One step of the loop, for an option of any form.\<close>

lemma step_meaning:
  assumes "spelled opt args" and "clean g" and "args_left g = args @ r" and "ready x"
  obtains c j g1 where "getopt_long run_optstring run_long_options ind g s = (Some c, j, g1, s)"
    "case meaning opt x of None \<Rightarrow> run_option c j x g1 = None
     | Some x' \<Rightarrow> \<exists>g2. run_option c j x g1 = Some (Some (x', g2)) \<and> clean g2 \<and> args_left g2 = r"
proof -
  have "opt_index opt < 12" by (cases opt) simp_all
  with run_table have tab: "in_table run_optstring run_long_options (opt_index opt)" by simp
  let ?c = "lo_val (run_long_options ! opt_index opt)"
  show thesis
  proof (cases "opt_value opt")
    case None
    with assms(1) have "spells (run_long_options ! opt_index opt) None args" by (simp add: spelled_def)
    then obtain j g1 where 1: "getopt_long run_optstring run_long_options ind g s = (Some ?c, j, g1, s)"
      "clean g1" "args_left g1 = r" "?c = NUL \<longrightarrow> j = opt_index opt"
      by (rule found_flag [OF tab _ assms(2,3), of ind s]) blast
    with selects_flag [OF None, of j x g1] show thesis
      by (intro that [OF 1(1)]) auto
  next
    case (Some v)
    with assms(1) have "spells (run_long_options ! opt_index opt) (Some v) args" by (simp add: spelled_def)
    then obtain j g1 where 1: "getopt_long run_optstring run_long_options ind g s = (Some ?c, j, g1, s)"
      "finds_arg g (length args) r v g1" "?c = NUL \<longrightarrow> j = opt_index opt"
      by (rule found_arg [OF tab _ assms(2,3), of v ind s]) blast
    then obtain p where p: "optarg g1 = Some p" "fst p < optind g1" "deref g1 p = v" "clean g1" "args_left g1 = r"
      by (auto simp: finds_arg_def finds_def)
    with selects_arg [of g1 p opt x j] Some assms(4) 1(3) have "selects opt j x g1" by simp
    moreover have "args_left (cut_at g1 p n) = r" "clean (cut_at g1 p n)" for n
      using p args_left_cut clean_cut by simp_all
    ultimately show thesis
      using p by (intro that [OF 1(1)]) (auto simp: selects_def split: option.splits)
  qed
qed

lemma run_options_meanings:
  "list_all2 spelled opts forms \<Longrightarrow> args_left g = concat forms @ rest \<Longrightarrow> clean g \<Longrightarrow> ready x \<Longrightarrow> 0 < argc g \<Longrightarrow>
   rest = [] \<or> is_nonoption (hd rest) \<Longrightarrow>
   case meanings opts x of None \<Rightarrow> run_options ind x g s = None
   | Some x' \<Rightarrow> \<exists>g'. run_options ind x g s = Some (Some (x', g'), s) \<and> args_left g' = rest"
proof (induction opts forms arbitrary: g x ind rule: list_all2_induct)
  case Nil
  obtain g' where "getopt_long run_optstring run_long_options ind g s = (None, ind, g', s)" "args_left g' = rest"
  proof (cases rest)
    case Nil': Nil
    with Nil getopt_long_exhausted [of g run_optstring run_long_options ind s] show thesis
      by (intro that [of "g\<lparr>optarg := None\<rparr>"]) (simp_all add: args_left_def)
  next
    case (Cons a r)
    with Nil getopt_long_stops [of g a r run_optstring run_long_options ind s] show thesis
      by (intro that [of "g\<lparr>optarg := None\<rparr>"]) (simp_all add: args_left_def)
  qed
  then show ?case by (subst run_options.simps) simp
next
  case (Cons opt opts args forms)
  have left: "args_left g = args @ concat forms @ rest" using Cons.prems(1) by simp
  obtain c j g1 where 1: "getopt_long run_optstring run_long_options ind g s = (Some c, j, g1, s)"
    and sel: "case meaning opt x of None \<Rightarrow> run_option c j x g1 = None
     | Some x' \<Rightarrow> \<exists>g2. run_option c j x g1 = Some (Some (x', g2)) \<and> clean g2 \<and> args_left g2 = concat forms @ rest"
    by (rule step_meaning [OF Cons.hyps(1) Cons.prems(2) left Cons.prems(3)])
  show ?case
  proof (cases "meaning opt x")
    case None
    with sel 1 show ?thesis by (subst run_options.simps) simp
  next
    case (Some x')
    with sel obtain g2 where 2: "run_option c j x g1 = Some (Some (x', g2))" "clean g2" "args_left g2 = concat forms @ rest"
      by auto
    have "argv g1 = argv g" by (rule getopt_long_moves [OF 1])
    moreover have "length (argv g2) = length (argv g1)"
      using run_option_moves [OF 2(1)] by (auto simp: cut_at_def)
    ultimately have "0 < argc g2" using Cons.prems(4) by (simp add: argc_def)
    have "run_options ind x g s = run_options j x' g2 s"
      using 1 2(1) by (subst run_options.simps) simp
    with Some Cons.IH [OF 2(3,2) ready_meaning [OF Cons.prems(3) Some] \<open>0 < argc g2\<close> Cons.prems(5), of j]
    show ?thesis by (simp cong: option.case_cong)
  qed
qed

lemma image_and_command_left:
  assumes "args_left g = img # cmd"
  shows "image_and_command ctx cfg g =
    (let cfg = cfg\<lparr>cfg_rootfs := snprintf MAX_PATH_LEN (rt_image_dir ctx @ ''/images/'' @ img @ ''/rootfs'')\<rparr>
     in case cmd of [] \<Rightarrow> cfg\<lparr>cfg_command := Some ''/bin/sh''\<rparr>
        | c # _ \<Rightarrow> cfg\<lparr>cfg_command := Some c, cfg_args := cmd, cfg_num_args := word_of_nat (length cmd)\<rparr>)"
proof -
  have g: "optind g < argc g" "argv g ! optind g = img" "drop (Suc (optind g)) (argv g) = cmd"
    using assms by (simp_all add: args_left_Cons)
  show ?thesis
  proof (cases cmd)
    case Nil
    with g show ?thesis by (simp add: image_and_command_def Let_def argc_def)
  next
    case (Cons c r)
    with g(3) have "Suc (optind g) < argc g" "argv g ! Suc (optind g) = c"
      using args_left_Cons [of "g\<lparr>optind := Suc (optind g)\<rparr>" c r] by (simp_all add: args_left_def argc_def)
    moreover have "length cmd = argc g - Suc (optind g)" using g(3) by (auto simp: argc_def)
    ultimately show ?thesis using g Cons
      by (simp add: image_and_command_def Let_def argc_def of_nat_diff)
  qed
qed

text \<open>The options of the program itself, when the first argument is a command.\<close>

lemma main_options_command:
  assumes "is_nonoption cmd"
  obtains g where "main_options 0 ctx (getopt0 (prog # cmd # args)) s = Some (Inr (ctx, g), s)"
    "args_left g = cmd # args" "clean g" "argv g = prog # cmd # args"
proof -
  let ?g = "getopt0 (prog # cmd # args)"
  have c: "clean ?g" by (simp add: clean_def getopt0_def)
  have "args_left ?g = cmd # args" by (simp add: args_left_def getopt0_def)
  from getopt_long_stops [OF c this assms, of main_optstring main_long_options 0 s]
  have "main_options 0 ctx ?g s = Some (Inr (ctx, ?g\<lparr>optarg := None\<rparr>), s)"
    by (subst main_options.simps) simp
  moreover have "args_left (?g\<lparr>optarg := None\<rparr>) = cmd # args" "clean (?g\<lparr>optarg := None\<rparr>)"
    "argv (?g\<lparr>optarg := None\<rparr>) = prog # cmd # args"
    using c by (simp_all add: args_left_def getopt0_def clean_def)
  ultimately show thesis by (rule that)
qed

lemma ready_default: "ready \<lparr>r_config = default_config ident u v, r_detach = False, r_remove = False\<rparr>"
  by (simp add: ready_def default_config_def zero_config_def zero_network_def)

lemma run_nonoption: "is_nonoption ''run''"
  by (simp add: is_nonoption_def)

lemma run_command_line_run:
  assumes "list_all2 spelled opts forms" and "is_nonoption img"
    and "generate_id K (zeroed 65) 65 s = Some (b, s1)" and "cbuf_str b = Some ident"
    and "sys K Sys_getuid s1 = (u, s2)" and "sys K Sys_getgid s2 = (v, s3)"
    and "x0 = \<lparr>r_config = default_config ident (word_of_int (ret u)) (word_of_int (ret v)), r_detach = False, r_remove = False\<rparr>"
  shows "\<exists>g. main_options 0 ctx (getopt0 (prog # ''run'' # concat forms @ img # cmd)) s0 = Some (Inr (ctx, g), s0) \<and>
    run_config K ctx (g\<lparr>optind := Suc (optind g)\<rparr>) s =
      map_option (\<lambda>x.
        let cfg = (r_config x)\<lparr>cfg_rootfs := snprintf MAX_PATH_LEN (rt_image_dir ctx @ ''/images/'' @ img @ ''/rootfs'')\<rparr>
        in (Some (set_config x (case cmd of [] \<Rightarrow> cfg\<lparr>cfg_command := Some ''/bin/sh''\<rparr>
          | c # _ \<Rightarrow> cfg\<lparr>cfg_command := Some c, cfg_args := cmd, cfg_num_args := word_of_nat (length cmd)\<rparr>)), s3))
        (meanings opts x0)"
proof -
  obtain g where g: "main_options 0 ctx (getopt0 (prog # ''run'' # concat forms @ img # cmd)) s0 = Some (Inr (ctx, g), s0)"
    "args_left g = ''run'' # concat forms @ img # cmd" "clean g" "argv g = prog # ''run'' # concat forms @ img # cmd"
    by (rule main_options_command [OF run_nonoption])
  let ?g = "g\<lparr>optind := Suc (optind g)\<rparr>"
  have "args_left ?g = concat forms @ img # cmd" "clean ?g" "0 < argc ?g"
    using g(2-4) by (simp_all add: args_left_Cons clean_optind argc_def) (simp add: args_left_def)
  from run_options_meanings [OF assms(1) this(1,2) ready_default this(3), where ind = 0 and s = s3] assms(2)
  have r: "case meanings opts x0 of None \<Rightarrow> run_options 0 x0 ?g s3 = None
     | Some x' \<Rightarrow> \<exists>g'. run_options 0 x0 ?g s3 = Some (Some (x', g'), s3) \<and> args_left g' = img # cmd"
    unfolding assms(7) by simp
  note eqs = run_config_def assms(3) bind.bind_lunit prod.case assms(4) Let_def assms(5,6) assms(7) [symmetric]
  have "run_config K ctx ?g s =
      map_option (\<lambda>x.
        let cfg = (r_config x)\<lparr>cfg_rootfs := snprintf MAX_PATH_LEN (rt_image_dir ctx @ ''/images/'' @ img @ ''/rootfs'')\<rparr>
        in (Some (set_config x (case cmd of [] \<Rightarrow> cfg\<lparr>cfg_command := Some ''/bin/sh''\<rparr>
          | c # _ \<Rightarrow> cfg\<lparr>cfg_command := Some c, cfg_args := cmd, cfg_num_args := word_of_nat (length cmd)\<rparr>)), s3))
        (meanings opts x0)"
  proof (cases "meanings opts x0")
    case None
    with r show ?thesis unfolding eqs by simp
  next
    case (Some x)
    with r obtain g' where g': "run_options 0 x0 ?g s3 = Some (Some (x, g'), s3)" "args_left g' = img # cmd" by auto
    then have "optind g' < argc g'" by (simp add: args_left_Cons)
    then show ?thesis
      unfolding eqs g'(1) by (cases cmd) (simp_all add: Some image_and_command_left [OF g'(2)] Let_def)
  qed
  with g(1) show ?thesis by blast
qed

text \<open>C9. The command line \<^verbatim>\<open>prog run OPTIONS IMAGE [COMMAND ARGS]\<close>, with every option in any of its
  forms, means what its options mean one after the other: \<^verbatim>\<open>cmd_run\<close> builds the configuration by
  applying them to the defaults and adding the root of the image, and the command with its
  arguments, which are left as they are (\<^verbatim>\<open>/bin/sh\<close> when there is none); the run is undefined
  exactly when one of the options is.\<close>

theorem run_command_line:
  assumes "list_all2 spelled opts forms" and "is_nonoption img"
    and "generate_id K (zeroed 65) 65 s = Some (b, s1)" and "cbuf_str b = Some ident"
    and "sys K Sys_getuid s1 = (u, s2)" and "sys K Sys_getgid s2 = (v, s3)"
    and "x0 = \<lparr>r_config = default_config ident (word_of_int (ret u)) (word_of_int (ret v)), r_detach = False, r_remove = False\<rparr>"
  shows "\<exists>g. main_options 0 ctx (getopt0 (prog # ''run'' # concat forms @ img # cmd)) s0 = Some (Inr (ctx, g), s0) \<and>
    run_config K ctx (g\<lparr>optind := Suc (optind g)\<rparr>) s =
      map_option (\<lambda>x.
        let cfg = (r_config x)\<lparr>cfg_rootfs := snprintf MAX_PATH_LEN (rt_image_dir ctx @ ''/images/'' @ img @ ''/rootfs'')\<rparr>
        in (Some (set_config x (case cmd of [] \<Rightarrow> cfg\<lparr>cfg_command := Some ''/bin/sh''\<rparr>
          | c # _ \<Rightarrow> cfg\<lparr>cfg_command := Some c, cfg_args := cmd, cfg_num_args := word_of_nat (length cmd)\<rparr>)), s3))
        (meanings opts x0)"
  using assms by (rule run_command_line_run)

section \<open>Particular command lines\<close>

lemma meanings_env: "O_env v \<in> set opts \<Longrightarrow> meanings opts x = None"
proof (induction opts arbitrary: x)
  case (Cons opt opts)
  show ?case
  proof (cases "meaning opt x")
    case (Some x')
    with Cons.prems have "O_env v \<in> set opts" by auto
    with Some Cons.IH show ?thesis by simp
  qed simp
qed simp

text \<open>C33. An environment variable cannot be set: the first \<^verbatim>\<open>-e\<close> or \<^verbatim>\<open>--env\<close> stores through
  \<^verbatim>\<open>config.env\<close>, which is NULL.\<close>

theorem run_env_undefined:
  assumes "list_all2 spelled opts forms" and "O_env v \<in> set opts" and "is_nonoption img"
    and "generate_id K (zeroed 65) 65 s = Some (b, s1)" and "cbuf_str b = Some ident"
  shows "\<exists>g. main_options 0 ctx (getopt0 (prog # ''run'' # concat forms @ img # cmd)) s0 = Some (Inr (ctx, g), s0) \<and>
    run_config K ctx (g\<lparr>optind := Suc (optind g)\<rparr>) s = None"
proof -
  obtain u s2 where 2: "sys K Sys_getuid s1 = (u, s2)" by force
  obtain w s3 where 3: "sys K Sys_getgid s2 = (w, s3)" by force
  from run_command_line_run [OF assms(1,3,4,5) 2 3 refl, of ctx prog cmd s0] meanings_env [OF assms(2)]
  show ?thesis by simp
qed

text \<open>After \<^verbatim>\<open>--\<close> in the global options, a \<^verbatim>\<open>run\<close> without an image is not reported as such:
  \<^verbatim>\<open>getopt_long\<close> still holds the arguments skipped before, steps back over the command, and the word
  \<^verbatim>\<open>run\<close> itself becomes the name of the image.\<close>

theorem run_after_dashes:
  "\<exists>g. main_options 0 ctx (getopt0 [prog, ''--'', ''run'']) s = Some (Inr (ctx, g), s) \<and> args_left g = [''run''] \<and>
    (\<exists>g'. run_options 0 x (g\<lparr>optind := Suc (optind g)\<rparr>) s = Some (Some (x, g'), s) \<and> args_left g' = [''run''] \<and>
      cfg_rootfs (image_and_command ctx cfg g') = snprintf MAX_PATH_LEN (rt_image_dir ctx @ ''/images/run/rootfs''))"
proof -
  let ?args = "[prog, ''--'', ''run'']"
  let ?g = "\<lparr>argv = ?args, optind = 2, optarg = None, nextchar = None, first_nonopt = 2, last_nonopt = 3\<rparr>"
  have 1: "getopt_long main_optstring main_long_options 0 (getopt0 ?args) s = (None, 0, ?g, s)"
    by (simp add: getopt_long_def getopt0_def argc_def inside_def next_argument_def skip_dashes_def Let_def)
  have 2: "getopt_long run_optstring run_long_options 0 (?g\<lparr>optind := 3\<rparr>) s = (None, 0, ?g, s)"
    by (simp add: getopt_long_def argc_def inside_def next_argument_def Let_def)
  have "main_options 0 ctx (getopt0 ?args) s = Some (Inr (ctx, ?g), s)"
    using 1 by (subst main_options.simps) simp
  moreover have "run_options 0 x (?g\<lparr>optind := 3\<rparr>) s = Some (Some (x, ?g), s)"
    using 2 by (subst run_options.simps) simp
  moreover have "args_left ?g = [''run'']" by (simp add: args_left_def)
  moreover have "cfg_rootfs (image_and_command ctx cfg ?g) = snprintf MAX_PATH_LEN (rt_image_dir ctx @ ''/images/run/rootfs'')"
    by (simp add: image_and_command_left [OF calculation(3)] Let_def)
  ultimately show ?thesis by (intro exI [of _ ?g]) simp
qed

lemma atoi_dec_nat: "n < 2 ^ 63 \<Longrightarrow> r = [] \<or> \<not> is_digit (hd r) \<Longrightarrow> atoi (dec_nat n @ r) = word_of_nat n"
  by (simp add: atoi_def strtol10_dec_nat INT64_MIN_def INT64_MAX_def)

text \<open>C34. The ports and the protocol of \<^verbatim>\<open>-p host:container/proto\<close> and \<^verbatim>\<open>-p host:container\<close>: the numbers
  are stored modulo \<open>2 ^ 16\<close> (so that 70000 publishes port 4464), which is exact for port numbers,
  and of the protocol seven characters are kept.\<close>

theorem published_ports:
  assumes "h < 2 ^ 63" and "c < 2 ^ 63"
  shows "port_of (dec_nat h) (dec_nat c @ CHR ''/'' # proto) =
      \<lparr>host_port = word_of_nat h, container_port = word_of_nat c, protocol = take 7 proto\<rparr> \<and>
    port_of (dec_nat h) (dec_nat c) = \<lparr>host_port = word_of_nat h, container_port = word_of_nat c, protocol = ''tcp''\<rparr> \<and>
    unat (word_of_nat h :: 16 word) = h mod 2 ^ 16"
proof -
  have no: "CHR ''/'' \<notin> set (dec_nat c)" by (simp add: dec_nat_no)
  then have split: "strchr_split (CHR ''/'') (dec_nat c) = None" by (simp add: strchr_split_None)
  have atoi: "atoi (dec_nat h) = word_of_nat h" "atoi (dec_nat c) = word_of_nat c"
    using atoi_dec_nat [OF assms(1), of "[]"] atoi_dec_nat [OF assms(2), of "[]"] by simp_all
  have u: "ucast (word_of_nat n :: 32 word) = (word_of_nat n :: 16 word)" for n
    by (simp add: unsigned_of_nat word_of_nat_eq_iff)
  show ?thesis
    by (simp add: port_of_def no split atoi u strncpy_field_def unat_of_nat)
qed

lemma cbuf_str_indeterminate: "is_cstr x \<Longrightarrow> cbuf_str (map Some x @ None # r) = None"
  by (induction x) auto

text \<open>The directory given with \<^verbatim>\<open>-d\<close> is left without a terminator when it has 4095 characters or
  more: the last byte of the array was never written.\<close>

theorem runtime_dir_unterminated:
  assumes "is_cstr dir" and "4095 \<le> length dir" and "initial_ctx = Some ctx"
  shows "\<exists>ctx' g. main_options 0 ctx (getopt0 (prog # ''-d'' # dir # ''ps'' # rest)) s = Some (Inr (ctx', g), s) \<and>
    args_left g = ''ps'' # rest \<and> cbuf_str (rt_runtime_dir ctx') = None"
proof -
  let ?g = "getopt0 (prog # ''-d'' # dir # ''ps'' # rest)"
  have c: "clean ?g" "args_left ?g = ''-d'' # dir # ''ps'' # rest" by (simp_all add: clean_def args_left_def getopt0_def)
  have "in_table main_optstring main_long_options 2" using main_table by simp
  moreover have "spells (main_long_options ! 2) (Some dir) [''-d'', dir]"
    by (simp add: spells_def main_long_options_def)
  ultimately obtain j g1 where 1: "getopt_long main_optstring main_long_options 0 ?g s = (Some (lo_val (main_long_options ! 2)), j, g1, s)"
    "finds_arg ?g (length [''-d'', dir]) (''ps'' # rest) dir g1"
    by (rule found_arg [where g = ?g and r = "''ps'' # rest" and ind = 0 and s = s]) (use c in auto)
  then obtain p where p: "optarg g1 = Some p" "deref g1 p = dir" "clean g1" "args_left g1 = ''ps'' # rest"
    by (auto simp: finds_arg_def finds_def)
  define buf where "buf = map Some (take 4095 dir) @ [None :: char option]"
  have ctx: "length (rt_runtime_dir ctx) = 4096" "drop 4095 (rt_runtime_dir ctx) = [None]"
    using assms(3) by (auto simp: initial_ctx_def c_strcpy_def uninit_def MAX_PATH_LEN_def bind_eq_Some_conv split: if_splits)
  then have "c_strncpy (rt_runtime_dir ctx) dir (MAX_PATH_LEN - 1) = Some buf"
    using assms(2) by (simp add: c_strncpy_def MAX_PATH_LEN_def buf_def)
  with p have o': "main_option (CHR ''d'') j ctx g1 s = Some (Inr (ctx\<lparr>rt_runtime_dir := buf\<rparr>), s)"
    by (simp add: main_option_def)
  have "is_nonoption ''ps''" by (simp add: is_nonoption_def)
  from getopt_long_stops [OF p(3,4) this, of main_optstring main_long_options j s]
  have "main_options j (ctx\<lparr>rt_runtime_dir := buf\<rparr>) g1 s = Some (Inr (ctx\<lparr>rt_runtime_dir := buf\<rparr>, g1\<lparr>optarg := None\<rparr>), s)"
    by (subst main_options.simps) simp
  moreover have "main_options 0 ctx ?g s = main_options j (ctx\<lparr>rt_runtime_dir := buf\<rparr>) g1 s"
    using 1(1) o' by (subst main_options.simps) (simp add: main_long_options_def)
  moreover have "cbuf_str buf = None" using assms(1) by (simp add: buf_def cbuf_str_indeterminate)
  ultimately show ?thesis using p(4)
    by (intro exI [of _ "ctx\<lparr>rt_runtime_dir := buf\<rparr>"] exI [of _ "g1\<lparr>optarg := None\<rparr>"]) (simp add: args_left_def)
qed

section \<open>CPUs\<close>

lemma int64_of_exact:
  assumes "0 < m" and "m < 2 ^ 53"
  shows "int64_of_double (Fin (int m * 2 ^ (53 - bit_len m)) (int (bit_len m) - 53)) = Some (int m)"
proof -
  let ?l = "bit_len m"
  have l: "?l \<le> 53" using bit_len_le [OF assms(2)] .
  have r: "in_int64 (int m)" using assms(2) by (simp add: in_int64_def INT64_MIN_def INT64_MAX_def)
  show ?thesis
  proof (cases "?l = 53")
    case True
    then show ?thesis using r by simp
  next
    case False
    with l have k: "\<not> 0 \<le> int ?l - 53" "nat (- (int ?l - 53)) = 53 - ?l" by simp_all
    have "\<bar>int m * 2 ^ (53 - ?l)\<bar> div 2 ^ (53 - ?l) = int m" by (simp add: abs_mult)
    moreover have "sgn (int m * 2 ^ (53 - ?l)) = 1" using assms(1) by simp
    ultimately show ?thesis unfolding int64_of_double.simps Let_def if_not_P [OF k(1)] k(2) using r by simp
  qed
qed

lemma cpus_exact:
  assumes "0 < n" and "n < 2 ^ 36"
  shows "int64_of_double (dmul (atof (dec_nat n)) (double_of_int 100000)) = Some (int n * 100000)"
proof -
  let ?l = "bit_len n"
  have n53: "n < 2 ^ 53" using assms(2) by simp
  have l: "?l \<le> 36" using bit_len_le [OF assms(2)] .
  have "strtod (dec_nat n) = (round_double False n 1, [])"
    using strtod_dec_nat [of "[]" n] by (simp add: ends_number_def)
  then have a: "atof (dec_nat n) = Fin (int n * 2 ^ (53 - ?l)) (int ?l - 53)"
    using round_double_nat_exact [OF assms(1) n53, of False] by (simp add: atof_def)
  have b: "double_of_int 100000 = Fin (100000 * 2 ^ 36) (- 36)"
    using round_double_nat_exact [of 100000 False] by (simp add: double_of_int_def bit_len.simps)
  have e: "int ?l - 53 + - 36 = - int (89 - ?l)" using l by simp
  have "53 - ?l + 36 = 89 - ?l" using l by simp
  then have "int n * 2 ^ (53 - ?l) * (100000 * 2 ^ 36) = int (n * 100000 * 2 ^ (89 - ?l))"
    using power_add [of "2 :: int" "53 - ?l" 36] by simp
  then have "dmul (atof (dec_nat n)) (double_of_int 100000) = round_double False (n * 100000 * 2 ^ (89 - ?l)) (2 ^ (89 - ?l))"
    unfolding a b dmul.simps e by (simp only: double_of_dyadic_nat)
  also have "\<dots> = Fin (int (n * 100000) * 2 ^ (53 - bit_len (n * 100000))) (int (bit_len (n * 100000)) - 53)"
    using round_double_exact [of "n * 100000" "89 - ?l" "89 - ?l" False] assms l by simp
  finally show ?thesis using int64_of_exact [of "n * 100000"] assms by simp
qed

text \<open>A whole number of CPUs is turned into the quota without error: \<open>n * 100000\<close> microseconds for
  each period of 100000.\<close>

theorem run_cpus_exact:
  assumes "optarg g = Some p" and "deref g p = dec_nat n" and "0 < n" and "n < 2 ^ 36"
  shows "run_option (CHR ''c'') i x g = Some (Some (set_config x ((r_config x)\<lparr>cfg_limits :=
     (cfg_limits (r_config x))\<lparr>cpu_quota := word_of_nat (n * 100000)\<rparr>\<rparr>), g))"
  using assms(1,2) cpus_exact [OF assms(3,4)] by (simp add: run_option_def Let_def)

lemma atof_029: "atof ''0.29'' = Fin 5224175567749775 (- 54)"
proof -
  have "strtod ''0.29'' = (round_double False 29 100, [])"
    by (simp add: strtod_def strip_sign_def is_space_def prefix_ci_def lower_def read_mantissa_def read_exponent_def
        is_digit_def digit_val_def)
  then show ?thesis
    by (simp add: atof_def round_double_def Let_def bit_len.simps scaled_def round_half_even_def)
qed

lemma cpus_029: "int64_of_double (dmul (atof ''0.29'') (double_of_int 100000)) = Some 28999"
proof -
  have b: "double_of_int 100000 = Fin (100000 * 2 ^ 36) (- 36)"
    using round_double_nat_exact [of 100000 False] by (simp add: double_of_int_def bit_len.simps)
  have "dmul (atof ''0.29'') (double_of_int 100000) = Fin 7971459301375999 (- 38)"
    unfolding atof_029 b
    by (simp add: double_of_dyadic_def round_double_def Let_def bit_len.simps scaled_def round_half_even_def)
  then show ?thesis by (simp add: in_int64_def INT64_MIN_def INT64_MAX_def)
qed

text \<open>A fraction is cut down after an inexact product: 0.29 CPUs become a quota of 28999
  microseconds instead of 29000.\<close>

theorem run_cpus_fraction:
  assumes "optarg g = Some p" and "deref g p = ''0.29''"
  shows "run_option (CHR ''c'') i x g = Some (Some (set_config x ((r_config x)\<lparr>cfg_limits :=
     (cfg_limits (r_config x))\<lparr>cpu_quota := 28999\<rparr>\<rparr>), g))"
  using assms cpus_029 by (simp add: run_option_def Let_def)

section \<open>Help\<close>

lemma initial_ctx_Some: "\<exists>ctx. initial_ctx = Some ctx"
  by (simp add: initial_ctx_def c_strcpy_def uninit_def MAX_PATH_LEN_def)

text \<open>With \<^verbatim>\<open>-h\<close> or \<^verbatim>\<open>--help\<close> as the first argument the program prints its usage and returns 0,
  whatever follows and whoever runs it.\<close>

theorem main_help:
  assumes "spells (main_long_options ! 0) None args"
  shows "cruntime_main C K (prog # args @ rest) s = Some (0, print_usage prog s)"
proof -
  let ?g = "getopt0 (prog # args @ rest)"
  obtain ctx where ctx: "initial_ctx = Some ctx" using initial_ctx_Some ..
  have c: "clean ?g" "args_left ?g = args @ rest" by (simp_all add: clean_def args_left_def getopt0_def)
  have "in_table main_optstring main_long_options 0" using main_table by simp
  then obtain j g1 where 1: "getopt_long main_optstring main_long_options 0 ?g s = (Some (lo_val (main_long_options ! 0)), j, g1, s)"
    by (rule found_flag [OF _ assms c, where ind = 0 and s = s]) blast
  have "argv g1 = argv ?g" by (rule getopt_long_moves [OF 1])
  then have "main_option (CHR ''h'') j ctx g1 s = Some (Inl 0, print_usage prog s)"
    by (simp add: main_option_def getopt0_def)
  with 1 have "main_options 0 ctx ?g s = Some (Inl 0, print_usage prog s)"
    by (subst main_options.simps) (simp add: main_long_options_def)
  then show ?thesis by (simp add: cruntime_main_def ctx)
qed

section \<open>Witnesses\<close>

text \<open>A system that delivers 32 random bytes, a core that succeeds at everything, and a command line.\<close>

definition id_kernel :: "unit kernel" where
  "id_kernel = scripted (\<lambda>q. if q = Sys_geteuid then answer 0 [] else answer 3 (replicate 32 CHR ''a''))"

definition idle_core :: "unit core" where
  "idle_core = \<lparr>core_runtime_init = (\<lambda>ctx s. ((CR_OK, ctx), s)), core_runtime_cleanup = (\<lambda>ctx s. s),
     core_container_create = (\<lambda>ctx cfg s. ((CR_OK, ctx, cfg, \<lparr>ct_config = cfg, ct_init_pid = 7,
       ct_state = CONTAINER_CREATED, ct_cgroup_path = [], ct_netns_path = [], ct_bundle_path = [],
       ct_created_at = 0, ct_started_at = 0\<rparr>), s)),
     core_container_start = (\<lambda>ctx c s. ((CR_OK, ctx, c), s)),
     core_container_delete = (\<lambda>ctx c s. ((CR_OK, ctx), s))\<rparr>"

lemma id_kernel_id:
  obtains b s1 ident where "generate_id id_kernel (zeroed 65) 65 st0 = Some (b, s1)" "cbuf_str b = Some ident"
proof -
  obtain f s1 where 1: "sys id_kernel (Sys_fopen ''/dev/urandom'' ''r'') st0 = (f, s1)" by force
  obtain r s2 where 2: "sys id_kernel (Sys_fread (ret f) 32) s1 = (r, s2)" by force
  have "0 \<le> ret f" "32 \<le> length (dat r)" using 1 2 by (auto simp: id_kernel_def sys_scripted answer_def)
  with generate_id_from_urandom [OF 1 _ 2] that show thesis by blast
qed

definition publish_opts :: "run_opt list" where
  "publish_opts = [O_publish ''8080:80'', O_detach]"

lemma publish_spelled: "list_all2 spelled publish_opts [[''-p'', ''8080:80''], [''--detach'']]"
  by (simp add: publish_opts_def spelled_def spells_def run_long_options_def)

theorem run_loop_progress_witness:
  "\<exists>j g1. getopt_long run_optstring run_long_options 0 (getopt0 [''cruntime'', ''--detach'']) st0 = (Some CHR ''d'', j, g1, st0) \<and>
     run_option (CHR ''d'') j \<lparr>r_config = zero_config, r_detach = False, r_remove = False\<rparr> g1 =
       Some (Some (\<lparr>r_config = zero_config, r_detach = True, r_remove = False\<rparr>, g1)) \<and>
     (g1, getopt0 [''cruntime'', ''--detach'']) \<in> getopt_less"
proof -
  have "in_table run_optstring run_long_options 10" using run_table by simp
  moreover have "spells (run_long_options ! 10) None [''--detach'']" by (simp add: spells_def run_long_options_def)
  ultimately obtain j g1 where f: "getopt_long run_optstring run_long_options 0 (getopt0 [''cruntime'', ''--detach'']) st0 =
      (Some (lo_val (run_long_options ! 10)), j, g1, st0)"
    by (rule found_flag [where g = "getopt0 [''cruntime'', ''--detach'']" and r = "[]" and ind = 0 and s = st0])
      (auto simp: clean_def args_left_def getopt0_def)
  then have g: "getopt_long run_optstring run_long_options 0 (getopt0 [''cruntime'', ''--detach'']) st0 = (Some CHR ''d'', j, g1, st0)"
    by (simp add: run_long_options_def)
  have o: "run_option (CHR ''d'') j \<lparr>r_config = zero_config, r_detach = False, r_remove = False\<rparr> g1 =
       Some (Some (\<lparr>r_config = zero_config, r_detach = True, r_remove = False\<rparr>, g1))"
    by (simp add: run_option_def)
  from run_loop_progress [OF g o] g o show ?thesis by blast
qed

lemma ps_run:
  obtains rc t where "cruntime_main idle_core (scripted (\<lambda>q. answer n [])) [''cruntime'', ''ps''] st0 = Some (rc, t)"
proof -
  obtain ctx where ctx: "initial_ctx = Some ctx" using initial_ctx_Some ..
  have "is_nonoption ''ps''" by (simp add: is_nonoption_def)
  then obtain g where "main_options 0 ctx (getopt0 [''cruntime'', ''ps'']) st0 = Some (Inr (ctx, g), st0)"
    and g: "args_left g = [''ps'']" by (rule main_options_command [where args = "[]"]) blast
  moreover have "\<exists>rc t. main_command idle_core (scripted (\<lambda>q. answer n [])) ctx g st0 = Some (rc, t)"
    using g by (auto simp: main_command_def args_left_Cons Let_def split_beta)
  ultimately show thesis using that by (auto simp: cruntime_main_def ctx)
qed

theorem main_protocol_witness:
  "\<exists>rc t es q. cruntime_main idle_core (scripted (\<lambda>q. answer 0 [])) [''cruntime'', ''ps''] st0 = Some (rc, t) \<and>
     api t = es \<and> api_steps P_start es q"
proof -
  obtain rc t where r: "cruntime_main idle_core (scripted (\<lambda>q. answer 0 [])) [''cruntime'', ''ps''] st0 = Some (rc, t)"
    by (rule ps_run)
  with main_protocol [OF r] show ?thesis by (auto simp: st0_def)
qed

theorem main_needs_root_witness:
  "\<exists>rc t. cruntime_main idle_core (scripted (\<lambda>q. answer 1 [])) [''cruntime'', ''ps''] st0 = Some (rc, t) \<and> api t = []"
proof -
  obtain rc t where r: "cruntime_main idle_core (scripted (\<lambda>q. answer 1 [])) [''cruntime'', ''ps''] st0 = Some (rc, t)"
    by (rule ps_run)
  from main_needs_root [OF _ r] have "api t = api st0" by (simp add: scripted_def answer_def)
  with r show ?thesis by (auto simp: st0_def)
qed

theorem launch_calls_witness:
  "\<forall>ctx. \<exists>rc ctx' t. launch idle_core id_kernel ctx \<lparr>r_config = zero_config, r_detach = False, r_remove = True\<rparr> st0 = ((rc, ctx'), t) \<and>
     api t \<noteq> []"
proof
  fix ctx
  obtain rc ctx' t where r: "launch idle_core id_kernel ctx \<lparr>r_config = zero_config, r_detach = False, r_remove = True\<rparr> st0 = ((rc, ctx'), t)"
    by (metis surj_pair)
  from launch_calls [OF r] r show "\<exists>rc ctx' t. launch idle_core id_kernel ctx \<lparr>r_config = zero_config, r_detach = False, r_remove = True\<rparr> st0 = ((rc, ctx'), t) \<and>
     api t \<noteq> []" by auto
qed

lemma publish_run:
  obtains b s1 ident u s2 v s3 where "generate_id id_kernel (zeroed 65) 65 st0 = Some (b, s1)" "cbuf_str b = Some ident"
    "sys id_kernel Sys_getuid s1 = (u, s2)" "sys id_kernel Sys_getgid s2 = (v, s3)"
proof -
  obtain b s1 ident where 1: "generate_id id_kernel (zeroed 65) 65 st0 = Some (b, s1)" "cbuf_str b = Some ident"
    by (rule id_kernel_id)
  obtain u s2 where 2: "sys id_kernel Sys_getuid s1 = (u, s2)" by force
  obtain v s3 where "sys id_kernel Sys_getgid s2 = (v, s3)" by force
  with 1 2 that show thesis by blast
qed

lemma alpine_nonoption: "is_nonoption ''alpine''"
  by (simp add: is_nonoption_def)

theorem run_command_line_witness:
  "\<forall>ctx. \<exists>g x s. main_options 0 ctx (getopt0 [''cruntime'', ''run'', ''-p'', ''8080:80'', ''--detach'', ''alpine'', ''ls'']) st0 =
      Some (Inr (ctx, g), st0) \<and>
    run_config id_kernel ctx (g\<lparr>optind := Suc (optind g)\<rparr>) st0 = Some (Some x, s) \<and> r_detach x"
proof
  fix ctx
  obtain b s1 ident u s2 v s3 where 1: "generate_id id_kernel (zeroed 65) 65 st0 = Some (b, s1)" "cbuf_str b = Some ident"
    "sys id_kernel Sys_getuid s1 = (u, s2)" "sys id_kernel Sys_getgid s2 = (v, s3)" by (rule publish_run)
  from run_command_line [OF publish_spelled alpine_nonoption 1 refl, of ctx "''cruntime''" "[''ls'']" st0]
  show "\<exists>g x s. main_options 0 ctx (getopt0 [''cruntime'', ''run'', ''-p'', ''8080:80'', ''--detach'', ''alpine'', ''ls'']) st0 =
      Some (Inr (ctx, g), st0) \<and>
    run_config id_kernel ctx (g\<lparr>optind := Suc (optind g)\<rparr>) st0 = Some (Some x, s) \<and> r_detach x" by (auto simp: publish_opts_def set_config_def Let_def)
qed

lemma publish_config:
  obtains ctx g x s where "initial_ctx = Some ctx"
    "main_options 0 ctx (getopt0 [''cruntime'', ''run'', ''-p'', ''8080:80'', ''--detach'', ''alpine'', ''ls'']) st0 = Some (Inr (ctx, g), st0)"
    "run_config id_kernel ctx (g\<lparr>optind := Suc (optind g)\<rparr>) st0 = Some (Some x, s)"
proof -
  obtain ctx where ctx: "initial_ctx = Some ctx" using initial_ctx_Some ..
  obtain b s1 ident u s2 v s3 where 1: "generate_id id_kernel (zeroed 65) 65 st0 = Some (b, s1)" "cbuf_str b = Some ident"
    "sys id_kernel Sys_getuid s1 = (u, s2)" "sys id_kernel Sys_getgid s2 = (v, s3)" by (rule publish_run)
  from run_command_line_run [OF publish_spelled alpine_nonoption 1 refl, of ctx "''cruntime''" "[''ls'']" st0]
  obtain g x s where g: "main_options 0 ctx (getopt0 [''cruntime'', ''run'', ''-p'', ''8080:80'', ''--detach'', ''alpine'', ''ls'']) st0 =
      Some (Inr (ctx, g), st0)" and x: "run_config id_kernel ctx (g\<lparr>optind := Suc (optind g)\<rparr>) st0 = Some (Some x, s)"
    by (auto simp: publish_opts_def)
  show thesis by (rule that [OF ctx g x])
qed

theorem run_config_wf_witness:
  "\<exists>ctx g x s. initial_ctx = Some ctx \<and>
    main_options 0 ctx (getopt0 [''cruntime'', ''run'', ''-p'', ''8080:80'', ''--detach'', ''alpine'', ''ls'']) st0 =
      Some (Inr (ctx, g), st0) \<and>
    run_config id_kernel ctx (g\<lparr>optind := Suc (optind g)\<rparr>) st0 = Some (Some x, s) \<and> wf_config (r_config x)"
proof -
  obtain ctx g x s where c: "initial_ctx = Some ctx"
    "main_options 0 ctx (getopt0 [''cruntime'', ''run'', ''-p'', ''8080:80'', ''--detach'', ''alpine'', ''ls'']) st0 = Some (Inr (ctx, g), st0)"
    "run_config id_kernel ctx (g\<lparr>optind := Suc (optind g)\<rparr>) st0 = Some (Some x, s)" by (rule publish_config)
  have "\<forall>a \<in> set [''cruntime'', ''run'', ''-p'', ''8080:80'', ''--detach'', ''alpine'', ''ls'']. is_cstr a" by (simp add: is_cstr_def)
  from run_config_wf [OF this c] c show ?thesis by blast
qed

theorem run_env_undefined_witness:
  "\<forall>ctx. \<exists>g. main_options 0 ctx (getopt0 [''cruntime'', ''run'', ''-e'', ''A=1'', ''alpine'']) st0 = Some (Inr (ctx, g), st0) \<and>
    run_config id_kernel ctx (g\<lparr>optind := Suc (optind g)\<rparr>) st0 = None"
proof -
  obtain b s1 ident where 1: "generate_id id_kernel (zeroed 65) 65 st0 = Some (b, s1)" "cbuf_str b = Some ident"
    by (rule id_kernel_id)
  have "list_all2 spelled [O_env ''A=1''] [[''-e'', ''A=1'']]"
    by (simp add: spelled_def spells_def run_long_options_def)
  from run_env_undefined [OF this _ alpine_nonoption 1, of "''A=1''" _ "''cruntime''" "[]" st0]
  show ?thesis by simp
qed

theorem published_ports_witness:
  "port_of (dec_nat 70000) (dec_nat 80 @ CHR ''/'' # ''udp'') =
     \<lparr>host_port = 4464, container_port = 80, protocol = ''udp''\<rparr>"
  using published_ports [of 70000 80 "''udp''"] by simp

theorem runtime_dir_unterminated_witness:
  "\<exists>ctx ctx' g. initial_ctx = Some ctx \<and> main_options 0 ctx (getopt0 (''cruntime'' # ''-d'' # replicate 4095 CHR ''x'' # [''ps''])) st0 =
     Some (Inr (ctx', g), st0) \<and> cbuf_str (rt_runtime_dir ctx') = None"
proof -
  obtain ctx where ctx: "initial_ctx = Some ctx" using initial_ctx_Some ..
  have "is_cstr (replicate 4095 CHR ''x'')" by (simp add: is_cstr_def)
  from runtime_dir_unterminated [OF this _ ctx, of "''cruntime''" "[]" st0] ctx show ?thesis
    unfolding length_replicate by blast
qed

lemma cpus_arg: "optarg (getopt0 [a, v]\<lparr>optarg := Some (1, 0)\<rparr>) = Some (1, 0)"
    "deref (getopt0 [a, v]\<lparr>optarg := Some (1, 0)\<rparr>) (1, 0) = v"
  by (simp_all add: getopt0_def deref_def)

theorem run_cpus_exact_witness:
  "\<forall>x. \<exists>x' g'. run_option (CHR ''c'') 0 x (getopt0 [''-c'', dec_nat 2]\<lparr>optarg := Some (1, 0)\<rparr>) = Some (Some (x', g')) \<and>
     cpu_quota (cfg_limits (r_config x')) = 200000"
  using run_cpus_exact [OF cpus_arg, of 2 0 _ "''-c''"] by simp

theorem run_cpus_fraction_witness:
  "\<forall>x. \<exists>x' g'. run_option (CHR ''c'') 0 x (getopt0 [''-c'', ''0.29'']\<lparr>optarg := Some (1, 0)\<rparr>) = Some (Some (x', g')) \<and>
     cpu_quota (cfg_limits (r_config x')) = 28999"
  using run_cpus_fraction [OF cpus_arg, of 0 _ "''-c''"] by simp

theorem main_help_witness:
  "cruntime_main idle_core id_kernel [''cruntime'', ''--help''] st0 = Some (0, print_usage ''cruntime'' st0)"
  using main_help [of "[''--help'']" idle_core id_kernel "''cruntime''" "[]" st0]
  by (simp add: spells_def main_long_options_def)

end
