(* ===== verification/Composition.thy ===== *)
theory Composition
  imports Library_Steps CliSpec
begin

text \<open>
  The components on one configuration: what \<^verbatim>\<open>main.c\<close> makes of a command line is what the
  cgroup, namespace and network operations require of their arguments.
\<close>

lemma valid_default_subnet: "valid_subnet ''172.17.0.0/16''"
proof -
  have ip: "inet_ntop (In_addr 172 17 0 0) = ''172.17.0.0''" by (simp add: inet_ntop_def eval_simps)
  have "strchr_split CHR ''/'' (''172.17.0.0'' @ CHR ''/'' # ''16'') = Some (''172.17.0.0'', ''16'')"
    by (rule strchr_split_append) simp
  moreover have "inet_pton ''172.17.0.0'' \<noteq> None" using inet_pton_ntop [of "In_addr 172 17 0 0"] unfolding ip by simp
  ultimately show ?thesis by (simp add: valid_subnet_def is_cstr_def)
qed

text \<open>C1. Every configuration that \<^verbatim>\<open>cmd_run\<close> builds, from any command line, is fit for every operation
  that the container core applies it to: setting the limits cannot overflow and reports success,
  the mounts and the network setup have no undefined behaviour, whatever the system answers, and
  the container that the network setup leaves behind can always be cleaned up.\<close>

theorem run_config_served:
  assumes "\<forall>a \<in> set args. is_cstr a" and "initial_ctx = Some ctx0"
    and "main_options 0 ctx0 (getopt0 args) s0 = Some (Inr (ctx, g), s1)"
    and "run_config K ctx (g\<lparr>optind := Suc (optind g)\<rparr>) s2 = Some (Some x, s3)"
    and "ct_config c = r_config x"
  shows "(\<exists>t. cgroup_apply_limits K path (cfg_limits (ct_config c)) s = Some (CR_OK, t)) \<and>
    (\<exists>rc t. namespace_setup_mounts K (ct_config c) s = Some (rc, t) \<and> rc \<in> {CR_OK, CR_ESYSCALL}) \<and>
    (\<exists>rc c' t. network_setup_container K c s = Some ((rc, c'), t) \<and> rc \<in> {CR_OK, CR_ERROR} \<and>
       (\<forall>s'. \<exists>t'. network_cleanup_container K c' s' = Some (CR_OK, t')))"
proof (intro conjI)
  have wf: "wf_config (ct_config c)" and shares: "cpu_shares (cfg_limits (ct_config c)) = 1024"
    and subnet: "nw_subnet (cfg_network (ct_config c)) = ''172.17.0.0/16''"
    using run_config_props [OF assms(1-4)] assms(5) by simp_all
  have "in_int64 (sint (cpu_shares (cfg_limits (ct_config c))) * 10000)"
    by (simp add: shares in_int64_def INT64_MIN_def INT64_MAX_def)
  then show "\<exists>t. cgroup_apply_limits K path (cfg_limits (ct_config c)) s = Some (CR_OK, t)"
    by (metis cgroup_apply_limits_wrote)
  show "\<exists>rc t. namespace_setup_mounts K (ct_config c) s = Some (rc, t) \<and> rc \<in> {CR_OK, CR_ESYSCALL}"
    using setup_mounts_performs [OF wf] by metis
  have net: "wf_network (cfg_network (ct_config c))" using wf by (simp add: wf_config_def)
  have "valid_subnet (nw_subnet (cfg_network (ct_config c)))" by (simp add: subnet valid_default_subnet)
  from setup_container_returns [OF net this refl]
  obtain rc t ip gw where r: "network_setup_container K c s = Some ((rc, set_network c
      ((cfg_network (ct_config c))\<lparr>nw_ip_address := ip, nw_gateway := gw\<rparr>)), t)" "rc \<in> {CR_OK, CR_ERROR}"
    and w: "wf_network ((cfg_network (ct_config c))\<lparr>nw_ip_address := ip, nw_gateway := gw\<rparr>)" by blast
  let ?c = "set_network c ((cfg_network (ct_config c))\<lparr>nw_ip_address := ip, nw_gateway := gw\<rparr>)"
  have "wf_network (cfg_network (ct_config ?c))" using w by (simp add: set_network_def)
  from cleanup_container_returns [OF this] have "\<forall>s'. \<exists>t'. network_cleanup_container K ?c s' = Some (CR_OK, t')"
    by blast
  with r show "\<exists>rc c' t. network_setup_container K c s = Some ((rc, c'), t) \<and> rc \<in> {CR_OK, CR_ERROR} \<and>
       (\<forall>s'. \<exists>t'. network_cleanup_container K c' s' = Some (CR_OK, t'))" by blast
qed

theorem run_config_served_witness:
  "\<exists>ctx g x s. initial_ctx = Some ctx \<and>
    main_options 0 ctx (getopt0 [''cruntime'', ''run'', ''-p'', ''8080:80'', ''--detach'', ''alpine'', ''ls'']) st0 =
      Some (Inr (ctx, g), st0) \<and>
    run_config id_kernel ctx (g\<lparr>optind := Suc (optind g)\<rparr>) st0 = Some (Some x, s) \<and>
    (\<exists>rc t. namespace_setup_mounts id_kernel (r_config x) st0 = Some (rc, t))"
proof -
  obtain ctx g x s where c: "initial_ctx = Some ctx"
    "main_options 0 ctx (getopt0 [''cruntime'', ''run'', ''-p'', ''8080:80'', ''--detach'', ''alpine'', ''ls'']) st0 = Some (Inr (ctx, g), st0)"
    "run_config id_kernel ctx (g\<lparr>optind := Suc (optind g)\<rparr>) st0 = Some (Some x, s)" by (rule publish_config)
  have "\<forall>a \<in> set [''cruntime'', ''run'', ''-p'', ''8080:80'', ''--detach'', ''alpine'', ''ls'']. is_cstr a" by (simp add: is_cstr_def)
  moreover have "ct_config (idle_container\<lparr>ct_config := r_config x\<rparr>) = r_config x" by simp
  ultimately have "\<exists>rc t. namespace_setup_mounts id_kernel (ct_config (idle_container\<lparr>ct_config := r_config x\<rparr>)) st0 = Some (rc, t)"
    using run_config_served [OF _ c] by blast
  then have "\<exists>rc t. namespace_setup_mounts id_kernel (r_config x) st0 = Some (rc, t)" by simp
  with c show ?thesis by blast
qed

end
