(* ===== verification/Spec2Isabelle.thy ===== *)
theory Spec2Isabelle
  imports Cgroup_Control Overlays Files Composition
begin

text \<open>
  CRuntime: a container runtime in C for Linux.

  \<^bold>\<open>The program.\<close> \<^verbatim>\<open>main.c\<close> reads a command line, builds a configuration
  (\<^verbatim>\<open>container_config_t\<close>) for \<^verbatim>\<open>run\<close>, and hands it to the container core (\<^verbatim>\<open>core/runtime.c\<close>), which is to
  start the container with the functions of five libraries: \<^verbatim>\<open>namespace.c\<close> (clone flags, mounts,
  \<^verbatim>\<open>pivot_root\<close>, user mappings, namespace files), \<^verbatim>\<open>cgroup.c\<close> (limits, freezer, statistics), \<^verbatim>\<open>network.c\<close>
  (bridge, veth pair, port forwarding, by shell commands), \<^verbatim>\<open>storage.c\<close> (layers, overlay mounts) and
  \<^verbatim>\<open>utils.c\<close> (logging, identifiers, size strings, string splitting, files). The libraries share no state of
  their own: they act on the system and on the configuration passed to them, report an error
  code (\<^verbatim>\<open>CR_OK\<close> or a negative number) and log through \<^verbatim>\<open>cr_log\<close>. All paths below are relative to
  \<^verbatim>\<open>src\<close> and \<^verbatim>\<open>include\<close> of the repository.

  \<^bold>\<open>The model.\<close> Each C function is one definition of the same name, and a loop or a long branch of it is a
  definition of its own, composed as the code composes them. Strings are lists of characters, raw
  character arrays are lists of possibly indeterminate bytes (\<open>cbuf\<close>), machine integers
  that can wrap are words of their width. Effects are state passing over \<open>'k st\<close>: the state of the system, the
  trace of all requests with their answers, the log level, \<^verbatim>\<open>errno\<close>, both output streams, the
  generator of \<^verbatim>\<open>rand\<close>, the exit code, and the calls into the core. The system itself is a parameter, \<open>'k kernel\<close>:
  it answers every request from its own state with no restriction, so every theorem that names no
  condition on the kernel holds under every sequence of failures. A C function without undefined behaviour is a
  total function; one that may have it returns an option, and \<open>None\<close> stands for it.

  \<^bold>\<open>The theories.\<close>
  \<^item> \<open>CR_Prelude\<close>: limits, error codes and enumerations of \<^verbatim>\<open>cruntime.h\<close>, theorem collections (\<open>frame_rules\<close>,
    \<open>eff_simps\<close>, \<open>eval_simps\<close>), the order of log levels, integer ranges, generic lemmas.
  \<^item> \<open>C_Strings\<close>, \<open>C_Numbers\<close>, \<open>C_Doubles\<close>, \<open>Inet\<close>, \<open>Getopt\<close>: the parts of the C library that the
    sources use: \<^verbatim>\<open>string.h\<close> and \<^verbatim>\<open>snprintf\<close> on buffers; \<^verbatim>\<open>%d\<close> and \<^verbatim>\<open>atoi\<close>; \<^verbatim>\<open>strtod\<close>,
    binary64 arithmetic and \<^verbatim>\<open>%.2f\<close>; \<^verbatim>\<open>inet_pton\<close> and \<^verbatim>\<open>inet_ntop\<close>; \<^verbatim>\<open>getopt_long\<close>.
  \<^item> \<open>Kernel_Iface\<close>: requests and answers, the state of the process, effects, the frame of an
    operation. \<open>Runtime_Types\<close>: the structures of \<^verbatim>\<open>cruntime.h\<close> as records, and \<open>wf_config\<close>: every string fits
    its array, every counter its bound.
  \<^item> \<open>String_Utils\<close>, \<open>Utils\<close>, \<open>Files\<close>: \<^verbatim>\<open>utils/utils.c\<close>. Trimming and splitting in place
    refine functions on plain strings; size strings in floating point agree with integer
    arithmetic; one call of \<^verbatim>\<open>cr_log\<close> is one filtered line; what is written to a file is read back.
  \<^item> \<open>Scripts\<close>: sequences of requests that stop at the first answer not tolerated, the abstract
    specification of the functions that configure mounts, devices and directories.
  \<^item> \<open>Cgroups\<close>, \<open>Cgroup_Control\<close>: \<^verbatim>\<open>cgroup/cgroup.c\<close>. Limits against the table of controls,
    creation and removal, the statistics buffer with its offset, and sequences of operations against
    the abstract machine of the control files.
  \<^item> \<open>Namespaces\<close>, \<open>Network\<close>, \<open>Storage\<close>: \<^verbatim>\<open>namespace/namespace.c\<close>, \<^verbatim>\<open>network/network.c\<close>,
    \<^verbatim>\<open>storage/storage.c\<close>, function by function, against their scripts. \<open>Overlays\<close>: sequences of operations
    of the storage driver against the abstract machine of the mounted overlays.
  \<^item> \<open>Simulation\<close>: the contract of components whose operations are called in any order, as
    \<open>Cgroup_Control\<close> and \<open>Overlays\<close> give it: each operation is a step of an abstract machine.
  \<^item> \<open>Handles\<close>, \<open>Library_Steps\<close>: the functions of the libraries as the rules of one step
    relation; no program over them leaks or misuses a handle, or changes anything outside the frame.
  \<^item> \<open>Cli\<close>, \<open>CliSpec\<close>: \<^verbatim>\<open>main.c\<close>. The option loops, the configuration they build (well-formed for every
    command line, and equal to the meaning of the options given), the dispatch, and the
    protocol of the calls into the core.
  \<^item> \<open>Composition\<close>: the configuration that a command line gives meets the requirements of the cgroup, mount
    and network functions it is passed to.

  \<^bold>\<open>Interfaces.\<close> Six locales state what clients rely on, each interpreted on the model's definitions
  where they are declared: \<open>text_codec\<close> (printing and reading back: decimal numbers and
  addresses), \<open>file_writer\<close> (a write is one attempt at the file, and reports success exactly
  when it was accepted: \<^verbatim>\<open>cgroup_write_file\<close>), \<open>command_runner\<close> (one command, its success reported: \<^verbatim>\<open>exec_cmd\<close>),
  \<open>option_loop\<close> (a loop over \<^verbatim>\<open>getopt_long\<close>: the loops of \<^verbatim>\<open>main\<close> and of \<^verbatim>\<open>cmd_run\<close>), \<open>simulation\<close> (operations that
  implement a machine: the storage driver) and its extension \<open>total_simulation\<close> (operations
  that also always return: the controls of a cgroup).

  \<^bold>\<open>What the properties show.\<close> Refinement: mounts, bridge, veth pair, directories and
  overlay follow their scripts and stop where they must; limits and control operations implement
  the table and the machine of the control files, the storage driver the machine of its overlays; strings are split and trimmed as specified.
  Invariants and safety: handles, the frame, well-formed configurations, the freezer, no call into
  the core without root privileges, the order of \<^verbatim>\<open>pivot_root\<close>. Functional: the exit code and
  calls of each outcome of \<^verbatim>\<open>run\<close>, the command line against its meaning, flags,
  addresses, sizes, statistics. Errors: which failures are reported, which are
  ignored, what is left behind, and the inputs that lead to undefined behaviour.

  \<^bold>\<open>Bounds and termination.\<close> No definition carries fuel. The option loops terminate because each call of
  \<^verbatim>\<open>getopt_long\<close> moves on in a well-founded order (\<open>getopt_less\<close>), the string loops because
  the remaining buffer shrinks, the unit loop after four divisions. The loop over a directory
  (\<^verbatim>\<open>storage_get_stats\<close>) ends only if the directory does; it is a \<open>partial_function\<close>, and the theorem about it
  proves that it returns for any directory of fewer than \<open>2 ^ 31\<close> entries. Buffer sizes are those of the code.

  \<^bold>\<open>Not modelled.\<close>
  \<^item> \<^verbatim>\<open>core/runtime.c\<close> is named in the Makefile and is not in the repository. The functions of it that \<^verbatim>\<open>main.c\<close>
    calls (\<^verbatim>\<open>runtime_init\<close>, \<^verbatim>\<open>runtime_cleanup\<close>, \<^verbatim>\<open>container_create\<close>, \<^verbatim>\<open>container_start\<close>,
    \<^verbatim>\<open>container_delete\<close>) are the parameter \<open>'k core\<close> of theory \<open>Cli\<close>. The other container, image and network prototypes
    of \<^verbatim>\<open>cruntime.h\<close> have neither a body nor a caller.
  \<^item> The messages of \<^verbatim>\<open>strerror\<close>, the calendar of \<^verbatim>\<open>localtime\<close> and the sequence of \<^verbatim>\<open>rand\<close> are fields of the
    parameter \<open>'k kernel\<close>; the clock, and what a shell command does, are answers of the system to requests.
  \<^item> Build files, shell scripts, the Windows notes and documents hold no logic of the runtime.
  \<^item> Concurrency: the process has one thread, and signals are not handled. Other processes
    appear as answers of the system that may change from one request to the next.
\<close>

end
